(* ===== verification/Prelude.thy ===== *)
theory Prelude
  imports Main "HOL-Library.Word"
begin

text \<open>
  Shared vocabulary of the development: the machine types of the C++ sources, return values,
  object representations of \<^verbatim>\<open>double\<close>, reads through a pointer and length, and the two
  generic contracts (a transition system with an inductive invariant, a source of pending work)
  that the components instantiate.

  Conventions used in every theory:
  \<^item> a pointer the code compares with \<^verbatim>\<open>nullptr\<close> is an \<open>option\<close>, \<open>None\<close> being null;
  \<^item> \<open>'a cxx\<close> is the result of code that may run into undefined behaviour, which is \<open>None\<close>;
  \<^item> out-parameters and the object an operation is called on are returned updated.
\<close>

unbundle bit_operations_syntax

named_theorems model_defs \<open>definitions a component's proofs unfold\<close>
named_theorems id_defs \<open>numeric identifiers of the mission\<close>

section \<open>Machine types\<close>

type_synonym uint8 = "8 word"
type_synonym uint16 = "16 word"
type_synonym uint32 = "32 word"

lemma ucast_8_16_8: "(ucast (ucast (b :: uint8) :: uint16) :: uint8) = b"
  by (rule bit_word_eqI) (simp add: bit_simps)

lemma ucast_8_32_8: "(ucast (ucast (b :: uint8) :: uint32) :: uint8) = b"
  by (rule bit_word_eqI) (simp add: bit_simps)

text \<open>The framework's identifier types, all plain unsigned integers.\<close>

type_synonym object_id_t = uint32
type_synonym DeviceCommandId_t = uint32
type_synonym ActionId_t = uint32
type_synonym ParameterId_t = uint32
type_synonym MessageQueueId_t = uint32
type_synonym Command_t = uint16
type_synonym Mode_t = uint32
type_synonym store_address_t = uint32

text \<open>Undefined behaviour is the value \<open>None\<close>.\<close>

type_synonym 'a cxx = "'a option"

section \<open>Return values\<close>

text \<open>
  \<^verbatim>\<open>ReturnValue_t\<close> is a numeric code. The constants the sources name are constructors; a code
  that a framework call hands through unchanged is \<open>Code\<close>.
\<close>

datatype ReturnValue_t =
    OK
  | FAILED
  | NOTHING_TO_SEND
  | NO_REPLY_RECEIVED
  | COMMAND_NOT_SUPPORTED
  | UNKNOWN_COMMAND
  | TC_INVALID_SUBSERVICE \<comment> \<open>\<^verbatim>\<open>AcceptsTelecommandsIF::INVALID_SUBSERVICE\<close>\<close>
  | CSB_INVALID_SUBSERVICE \<comment> \<open>\<^verbatim>\<open>CommandingServiceBase::INVALID_SUBSERVICE\<close>\<close>
  | INVALID_OBJECT
  | INVALID_TC
  | INVALID_REPLY
  | EXECUTION_COMPLETE
  | Code uint16

section \<open>Reading through a pointer\<close>

text \<open>\<^verbatim>\<open>memcpy(dst, src, n)\<close>: undefined when the source is null or shorter than \<open>n\<close>.\<close>

definition memcpy_from :: "uint8 list option \<Rightarrow> nat \<Rightarrow> uint8 list cxx" where
  "memcpy_from src n =
     (case src of None \<Rightarrow> None | Some bs \<Rightarrow> if n \<le> length bs then Some (take n bs) else None)"

text \<open>A pointer and a length describe a readable range.\<close>

definition readable :: "uint8 list option \<Rightarrow> nat \<Rightarrow> bool" where
  "readable src n \<longleftrightarrow> (case src of None \<Rightarrow> True | Some bs \<Rightarrow> n \<le> length bs)"

lemma memcpy_from_Some [simp]: "memcpy_from (Some bs) n = (if n \<le> length bs then Some (take n bs) else None)"
  by (simp add: memcpy_from_def)

lemma readable_Some [simp]: "readable (Some bs) n \<longleftrightarrow> n \<le> length bs"
  by (simp add: readable_def)

lemma readable_None [simp]: "readable None n"
  by (simp add: readable_def)

lemma memcpy_from_readable:
  "readable src n \<Longrightarrow> m \<le> n \<Longrightarrow> src \<noteq> None \<Longrightarrow> memcpy_from src m = Some (take m (the src))"
  by (auto simp: memcpy_from_def readable_def)

section \<open>Object representation of double\<close>

text \<open>
  No mission code computes with a frame rate: it is copied, stored and printed. A \<^verbatim>\<open>double\<close> is
  therefore its 64-bit pattern, and the byte order of the host is an argument where bytes and
  values are converted (\<^verbatim>\<open>memcpy\<close>, \<^verbatim>\<open>reinterpret_cast\<close>).
\<close>

type_synonym double = "64 word"

datatype byte_order = Little_Endian | Big_Endian

definition sizeof_double :: nat where
  "sizeof_double = 8"

primrec le_bytes :: "nat \<Rightarrow> 64 word \<Rightarrow> uint8 list" where
  "le_bytes 0 w = []"
| "le_bytes (Suc n) w = ucast w # le_bytes n (drop_bit 8 w)"

primrec le_value :: "uint8 list \<Rightarrow> 64 word" where
  "le_value [] = 0"
| "le_value (b # bs) = ucast b OR push_bit 8 (le_value bs)"

definition double_bytes :: "byte_order \<Rightarrow> double \<Rightarrow> uint8 list" where
  "double_bytes e d =
     (case e of Little_Endian \<Rightarrow> le_bytes sizeof_double d | Big_Endian \<Rightarrow> rev (le_bytes sizeof_double d))"

definition bytes_double :: "byte_order \<Rightarrow> uint8 list \<Rightarrow> double" where
  "bytes_double e bs = le_value (case e of Little_Endian \<Rightarrow> bs | Big_Endian \<Rightarrow> rev bs)"

lemma length_le_bytes [simp]: "length (le_bytes n w) = n"
  by (induction n arbitrary: w) simp_all

lemma le_value_le_bytes: "le_value (le_bytes n w) = take_bit (8 * n) w"
proof (induction n arbitrary: w)
  case 0
  then show ?case by simp
next
  case (Suc n)
  have "ucast (ucast w :: uint8) OR push_bit 8 (take_bit (8 * n) (drop_bit 8 w)) = take_bit (8 * Suc n) w"
    by (rule bit_word_eqI) (auto simp: bit_simps)
  then show ?case by (simp add: Suc)
qed

lemma ucast_le_value_Cons [simp]: "(ucast (le_value (b # bs)) :: uint8) = b"
  by (rule bit_word_eqI) (auto simp: bit_simps)

lemma le_value_bound: "bit (le_value bs) k \<Longrightarrow> k < 8 * length bs"
proof (induction bs arbitrary: k)
  case (Cons b bs)
  then consider "bit b k" | "8 \<le> k" "bit (le_value bs) (k - 8)"
    by (auto simp: bit_simps)
  then show ?case
  proof cases
    case 1
    then have "k < LENGTH(8)" by (rule bit_imp_le_length)
    then show ?thesis by simp
  next
    case 2
    with Cons.IH [of "k - 8"] show ?thesis by auto
  qed
qed simp

lemma drop_bit_le_value_Cons:
  assumes "length bs < 8"
  shows "drop_bit 8 (le_value (b # bs)) = le_value bs"
proof (rule bit_word_eqI)
  fix n
  assume "n < LENGTH(64)"
  have "bit (le_value bs) n \<Longrightarrow> n + 8 < 64"
    using assms le_value_bound [of bs n] by simp
  moreover have "\<not> bit b (n + 8)"
    using bit_imp_le_length [of b "n + 8"] by auto
  ultimately show "bit (drop_bit 8 (le_value (b # bs))) n = bit (le_value bs) n"
    by (auto simp: bit_simps add.commute)
qed

lemma le_bytes_le_value: "length bs \<le> 8 \<Longrightarrow> le_bytes (length bs) (le_value bs) = bs"
proof (induction bs)
  case (Cons b bs)
  then show ?case
    using drop_bit_le_value_Cons [of bs b] ucast_le_value_Cons [of b bs]
    by (simp del: le_value.simps ucast_le_value_Cons)
qed simp

lemma length_double_bytes [simp]: "length (double_bytes e d) = sizeof_double"
  by (simp add: double_bytes_def split: byte_order.splits)

lemma bytes_double_double_bytes [simp]: "bytes_double e (double_bytes e d) = d"
  by (simp add: bytes_double_def double_bytes_def sizeof_double_def le_value_le_bytes take_bit_word_eq_self
      split: byte_order.splits)

lemma double_bytes_bytes_double:
  "length bs = sizeof_double \<Longrightarrow> double_bytes e (bytes_double e bs) = bs"
  using le_bytes_le_value [of bs] le_bytes_le_value [of "rev bs"]
  by (simp add: bytes_double_def double_bytes_def sizeof_double_def split: byte_order.splits)

section \<open>Transition systems with an inductive invariant\<close>

text \<open>
  The contract of a component whose entry points are called in any order: the start state
  satisfies the invariant and every step keeps it. The client's fact, proved once, is that
  every reachable state satisfies it.
\<close>

inductive reachable_from :: "('s \<Rightarrow> 's \<Rightarrow> bool) \<Rightarrow> 's \<Rightarrow> 's \<Rightarrow> bool" for step where
  reach_start: "reachable_from step s s"
| reach_step: "reachable_from step s t \<Longrightarrow> step t u \<Longrightarrow> reachable_from step s u"

locale invariant_system =
  fixes step :: "'s \<Rightarrow> 's \<Rightarrow> bool"
    and inv :: "'s \<Rightarrow> bool"
  assumes inv_step: "step s t \<Longrightarrow> inv s \<Longrightarrow> inv t"
begin

lemma reachable_inv:
  assumes "reachable_from step s t" and "inv s"
  shows "inv t"
  using assms by (induction rule: reachable_from.induct) (auto intro: inv_step)

end

section \<open>Sources of pending work\<close>

text \<open>
  The contract of a component that holds requests and hands them out one per call: a call on a
  state with pending work hands out one request and leaves one fewer; a call on an idle state
  hands out nothing and changes nothing. The client's facts: as many calls as there are pending
  requests empty the source, and further calls leave it alone.
\<close>

primrec take_n :: "('s \<Rightarrow> 'r option \<times> 's) \<Rightarrow> nat \<Rightarrow> 's \<Rightarrow> 'r list \<times> 's" where
  "take_n serve 0 s = ([], s)"
| "take_n serve (Suc n) s =
     (let (r, s') = serve s; (rs, s'') = take_n serve n s'
      in (case r of None \<Rightarrow> rs | Some x \<Rightarrow> x # rs, s''))"

locale work_source =
  fixes serve :: "'s \<Rightarrow> 'r option \<times> 's"
    and pending :: "'s \<Rightarrow> 'r list"
    and inv :: "'s \<Rightarrow> bool"
  assumes serve_pending: "inv s \<Longrightarrow> pending s = x # xs \<Longrightarrow> fst (serve s) = Some x \<and> pending (snd (serve s)) = xs"
    and serve_idle: "inv s \<Longrightarrow> pending s = [] \<Longrightarrow> serve s = (None, s)"
    and serve_inv: "inv s \<Longrightarrow> inv (snd (serve s))"
begin

lemma take_n_idle: "inv s \<Longrightarrow> pending s = [] \<Longrightarrow> take_n serve n s = ([], s)"
  by (induction n) (simp_all add: serve_idle)

lemma take_n_inv: "inv s \<Longrightarrow> inv (snd (take_n serve n s))"
  by (induction n arbitrary: s) (auto simp: split_beta Let_def serve_inv)

lemma take_n_serves: "inv s \<Longrightarrow> fst (take_n serve n s) = take n (pending s)"
proof (induction n arbitrary: s)
  case (Suc n)
  show ?case
  proof (cases "pending s")
    case Nil
    with Suc show ?thesis by (simp add: serve_idle)
  next
    case (Cons x xs)
    with Suc serve_pending [OF Suc.prems Cons] show ?thesis
      by (simp add: split_beta Let_def serve_inv)
  qed
qed simp

lemma take_n_leaves: "inv s \<Longrightarrow> pending (snd (take_n serve n s)) = drop n (pending s)"
proof (induction n arbitrary: s)
  case (Suc n)
  show ?case
  proof (cases "pending s")
    case Nil
    with Suc show ?thesis by (simp add: serve_idle take_n_idle)
  next
    case (Cons x xs)
    with Suc serve_pending [OF Suc.prems Cons] show ?thesis
      by (simp add: split_beta Let_def serve_inv)
  qed
qed simp

end

end
