(* ===== verification/WebcamDefinitions.thy ===== *)
theory WebcamDefinitions
  imports Prelude
begin

text \<open>
  Identifiers of the webcam subsystem (\<^verbatim>\<open>mission/webcam/WebcamDefinitions\<close>) and their typed
  views (\<^verbatim>\<open>mission/messaging/MessageTypes\<close>, \<^verbatim>\<open>mission/messaging/SystemMessage\<close>).

  A C++ \<^verbatim>\<open>enum class\<close> with a fixed underlying type ranges over the whole underlying type: the
  enumerators only name some of its values, and \<^verbatim>\<open>static_cast\<close> from the underlying type never
  fails. An enumeration is therefore a wrapper of its underlying word and the enumerators are
  constants, so that the \<^verbatim>\<open>default\<close> branches of the sources are reachable in the model.
\<close>

section \<open>Enumerations and object identifiers\<close>

datatype CommandId = CommandId (commandIdRaw: DeviceCommandId_t)

definition commandTakeSnapshot :: CommandId where [id_defs]:
  "commandTakeSnapshot = CommandId 0x01"

definition commandSetFrameRate :: CommandId where [id_defs]:
  "commandSetFrameRate = CommandId 0x02"

definition commandGetFrameRate :: CommandId where [id_defs]:
  "commandGetFrameRate = CommandId 0x03"

datatype ParameterId = ParameterId (parameterIdRaw: uint8)

definition parameterFrameRate :: ParameterId where [id_defs]:
  "parameterFrameRate = ParameterId 0x01"

definition objectIdWebcamHandler :: object_id_t where [id_defs]:
  "objectIdWebcamHandler = 0x57000001"

definition objectIdWebcamCookie :: object_id_t where [id_defs]:
  "objectIdWebcamCookie = 0x57000002"

definition objectIdWebcamComIF :: object_id_t where [id_defs]:
  "objectIdWebcamComIF = 0x57000003"

definition objectIdWebcamCommandingService :: object_id_t where [id_defs]:
  "objectIdWebcamCommandingService = 0x57000010"

definition objectIdWebcamTcDistributor :: object_id_t where [id_defs]:
  "objectIdWebcamTcDistributor = 0x57000011"

definition objectIdWebcamTelemetrySink :: object_id_t where [id_defs]:
  "objectIdWebcamTelemetrySink = 0x57000012"

definition objectIdWebcamVerificationSink :: object_id_t where [id_defs]:
  "objectIdWebcamVerificationSink = 0x57000013"

definition commandIdToString :: "CommandId \<Rightarrow> string" where
  "commandIdToString command =
     (if command = commandTakeSnapshot then ''commandTakeSnapshot''
      else if command = commandSetFrameRate then ''commandSetFrameRate''
      else if command = commandGetFrameRate then ''commandGetFrameRate''
      else ''commandUnknown'')"

definition parameterIdToString :: "ParameterId \<Rightarrow> string" where
  "parameterIdToString parameter =
     (if parameter = parameterFrameRate then ''parameterFrameRate'' else ''parameterUnknown'')"

text \<open>Scoped enumerations compare by their underlying value.\<close>

instantiation CommandId :: linorder
begin

definition less_eq_CommandId :: "CommandId \<Rightarrow> CommandId \<Rightarrow> bool" where
  "less_eq_CommandId a b \<longleftrightarrow> commandIdRaw a \<le> commandIdRaw b"

definition less_CommandId :: "CommandId \<Rightarrow> CommandId \<Rightarrow> bool" where
  "less_CommandId a b \<longleftrightarrow> commandIdRaw a < commandIdRaw b"

instance
  by standard (auto simp: less_eq_CommandId_def less_CommandId_def intro: CommandId.expand)

end

section \<open>Typed views of raw identifiers\<close>

definition isValidCommand :: "CommandId \<Rightarrow> bool" where
  "isValidCommand command \<longleftrightarrow>
     command = commandTakeSnapshot \<or> command = commandSetFrameRate \<or> command = commandGetFrameRate"

definition isValidParameter :: "ParameterId \<Rightarrow> bool" where
  "isValidParameter parameter \<longleftrightarrow> parameter = parameterFrameRate"

text \<open>The reference argument \<open>command\<close> is returned; it keeps its value when the id is unknown.\<close>

definition rawToCommand :: "DeviceCommandId_t \<Rightarrow> CommandId \<Rightarrow> bool \<times> CommandId" where
  "rawToCommand rawId command =
     (let candidate = CommandId rawId
      in if \<not> isValidCommand candidate then (False, command) else (True, candidate))"

definition commandToRaw :: "CommandId \<Rightarrow> DeviceCommandId_t" where
  "commandToRaw command = commandIdRaw command"

definition rawToParameter :: "uint8 \<Rightarrow> ParameterId \<Rightarrow> bool \<times> ParameterId" where
  "rawToParameter rawId parameter =
     (let candidate = ParameterId rawId
      in if \<not> isValidParameter candidate then (False, parameter) else (True, candidate))"

definition parameterToRaw :: "ParameterId \<Rightarrow> uint8" where
  "parameterToRaw parameter = parameterIdRaw parameter"

definition TAKE_SNAPSHOT :: DeviceCommandId_t where [id_defs]:
  "TAKE_SNAPSHOT = commandIdRaw commandTakeSnapshot"

definition SET_FRAME_RATE :: DeviceCommandId_t where [id_defs]:
  "SET_FRAME_RATE = commandIdRaw commandSetFrameRate"

definition GET_FRAME_RATE :: DeviceCommandId_t where [id_defs]:
  "GET_FRAME_RATE = commandIdRaw commandGetFrameRate"

definition PARAM_FRAME_RATE :: uint8 where [id_defs]:
  "PARAM_FRAME_RATE = parameterIdRaw parameterFrameRate"

text \<open>
  \<^verbatim>\<open>clearMissionMessage\<close>: the framework's \<^verbatim>\<open>CommandMessage::clear\<close> is the argument \<open>clear\<close>;
  a null message is left alone.
\<close>

definition clearMissionMessage :: "('m \<Rightarrow> 'm) \<Rightarrow> 'm option \<Rightarrow> 'm option" where
  "clearMissionMessage clear message =
     (case message of None \<Rightarrow> None | Some m \<Rightarrow> Some (clear m))"

section \<open>The contract of a raw/typed conversion\<close>

text \<open>
  Both conversion pairs promise the same: decoding an encoded value succeeds exactly on the
  valid values and gives the value back, decoding never invents a value with another raw
  code, and a failed decode leaves the reference argument untouched.
\<close>

locale raw_codec =
  fixes to_raw :: "'e \<Rightarrow> 'r"
    and of_raw :: "'r \<Rightarrow> 'e \<Rightarrow> bool \<times> 'e"
    and valid :: "'e \<Rightarrow> bool"
  assumes decode_valid: "valid x \<Longrightarrow> of_raw (to_raw x) y = (True, x)"
    and decode_ok: "fst (of_raw r y) \<Longrightarrow> to_raw (snd (of_raw r y)) = r \<and> valid (snd (of_raw r y))"
    and decode_fail: "\<not> fst (of_raw r y) \<Longrightarrow> snd (of_raw r y) = y"
begin

lemma decode_iff: "of_raw r y = (True, x) \<longleftrightarrow> valid x \<and> to_raw x = r"
proof
  assume "of_raw r y = (True, x)"
  with decode_ok [of r y] show "valid x \<and> to_raw x = r" by simp
next
  assume "valid x \<and> to_raw x = r"
  with decode_valid [of x y] show "of_raw r y = (True, x)" by auto
qed

lemma encode_inj:
  assumes "valid x" and "valid z"
  shows "to_raw x = to_raw z \<longleftrightarrow> x = z"
proof
  assume "to_raw x = to_raw z"
  then have "of_raw (to_raw x) x = of_raw (to_raw z) x" by (rule arg_cong)
  then show "x = z"
    unfolding decode_valid [OF assms(1)] decode_valid [OF assms(2)] by (rule Pair_inject)
qed (rule arg_cong)

lemma decode_fail_iff: "of_raw r y = (False, y) \<longleftrightarrow> (\<forall>x. valid x \<longrightarrow> to_raw x \<noteq> r)"
proof
  assume fail: "of_raw r y = (False, y)"
  show "\<forall>x. valid x \<longrightarrow> to_raw x \<noteq> r"
  proof (intro allI impI notI)
    fix x
    assume "valid x" and "to_raw x = r"
    with decode_valid [of x y] fail show False by simp
  qed
next
  assume "\<forall>x. valid x \<longrightarrow> to_raw x \<noteq> r"
  then have "\<not> fst (of_raw r y)" using decode_ok by blast
  then show "of_raw r y = (False, y)"
    using decode_fail [of r y] by (cases "of_raw r y") simp
qed

end

lemma commandToRaw_CommandId [simp]: "commandToRaw (CommandId r) = r"
  by (simp add: commandToRaw_def)

lemma parameterToRaw_ParameterId [simp]: "parameterToRaw (ParameterId r) = r"
  by (simp add: parameterToRaw_def)

interpretation command_codec: raw_codec commandToRaw rawToCommand isValidCommand
  by unfold_locales (auto simp: rawToCommand_def commandToRaw_def Let_def)

interpretation parameter_codec: raw_codec parameterToRaw rawToParameter isValidParameter
  by unfold_locales (auto simp: rawToParameter_def parameterToRaw_def Let_def)

section \<open>Properties\<close>

lemma isValidCommand_raw: "isValidCommand (CommandId r) \<longleftrightarrow> r = 1 \<or> r = 2 \<or> r = 3"
  by (auto simp: isValidCommand_def id_defs)

lemma isValidCommand_cases:
  "isValidCommand c \<Longrightarrow> c = commandTakeSnapshot \<or> c = commandSetFrameRate \<or> c = commandGetFrameRate"
  by (simp add: isValidCommand_def)

lemma command_raws_distinct [simp]:
  "TAKE_SNAPSHOT \<noteq> SET_FRAME_RATE" "SET_FRAME_RATE \<noteq> TAKE_SNAPSHOT"
  "TAKE_SNAPSHOT \<noteq> GET_FRAME_RATE" "GET_FRAME_RATE \<noteq> TAKE_SNAPSHOT"
  "SET_FRAME_RATE \<noteq> GET_FRAME_RATE" "GET_FRAME_RATE \<noteq> SET_FRAME_RATE"
  by (simp_all add: id_defs)

text \<open>
  C28. Decoding a raw command id is the exact inverse of encoding: it yields a command
  precisely when that command is one of the three valid ones and has this raw id, and on any
  other id it reports failure and leaves the caller's variable untouched.
\<close>

theorem rawToCommand_exact:
  "(rawToCommand r c0 = (True, c) \<longleftrightarrow> isValidCommand c \<and> commandToRaw c = r)
   \<and> (rawToCommand r c0 = (False, c0) \<longleftrightarrow> r \<notin> {TAKE_SNAPSHOT, SET_FRAME_RATE, GET_FRAME_RATE})"
proof
  show "rawToCommand r c0 = (True, c) \<longleftrightarrow> isValidCommand c \<and> commandToRaw c = r"
    by (rule command_codec.decode_iff)
  show "rawToCommand r c0 = (False, c0) \<longleftrightarrow> r \<notin> {TAKE_SNAPSHOT, SET_FRAME_RATE, GET_FRAME_RATE}"
    unfolding command_codec.decode_fail_iff
    by (auto simp: isValidCommand_def commandToRaw_def TAKE_SNAPSHOT_def SET_FRAME_RATE_def GET_FRAME_RATE_def)
qed

text \<open>
  The same for parameters: decoding is the exact inverse of encoding, and the only raw
  parameter id that decodes is that of the frame rate.
\<close>

lemma rawToParameter_exact:
  "(rawToParameter r p0 = (True, p) \<longleftrightarrow> isValidParameter p \<and> parameterToRaw p = r)
   \<and> (rawToParameter r p0 = (False, p0) \<longleftrightarrow> r \<noteq> PARAM_FRAME_RATE)"
proof
  show "rawToParameter r p0 = (True, p) \<longleftrightarrow> isValidParameter p \<and> parameterToRaw p = r"
    by (rule parameter_codec.decode_iff)
  show "rawToParameter r p0 = (False, p0) \<longleftrightarrow> r \<noteq> PARAM_FRAME_RATE"
    unfolding parameter_codec.decode_fail_iff
    by (auto simp: isValidParameter_def parameterToRaw_def PARAM_FRAME_RATE_def)
qed

text \<open>
  The printed name identifies a command: two commands with the same name are equal or both
  unknown, and the name is the fallback exactly for ids that do not decode.
\<close>

lemma commandIdToString_identifies:
  "(commandIdToString a = commandIdToString b \<longleftrightarrow> a = b \<or> \<not> isValidCommand a \<and> \<not> isValidCommand b)
   \<and> (commandIdToString a = ''commandUnknown'' \<longleftrightarrow> \<not> fst (rawToCommand (commandToRaw a) c0))"
proof
  show "commandIdToString a = commandIdToString b \<longleftrightarrow> a = b \<or> \<not> isValidCommand a \<and> \<not> isValidCommand b"
    by (auto simp: commandIdToString_def isValidCommand_def)
  have "fst (rawToCommand (commandToRaw a) c0) \<longleftrightarrow> isValidCommand a"
    by (cases a) (simp add: rawToCommand_def Let_def)
  then show "commandIdToString a = ''commandUnknown'' \<longleftrightarrow> \<not> fst (rawToCommand (commandToRaw a) c0)"
    by (simp add: commandIdToString_def isValidCommand_def)
qed

end
