(* ===== verification/FsfwInterface.thy ===== *)
theory FsfwInterface
  imports Prelude
begin

text \<open>
  The Flight Software Framework is a git submodule and not part of this repository. What the
  mission code uses of it is collected here as records of operations, which every definition
  that calls the framework takes as an argument; nothing is assumed about them in the
  definitions. The documented behaviour a property relies on is a named predicate
  (\<open>message_laws\<close>, \<open>storage_laws\<close>, \<open>fifo_laws\<close>) and appears as a hypothesis of
  that property. The last section gives a small executable instance of each interface, used
  only to evaluate the properties at concrete inputs.
\<close>

section \<open>Command messages\<close>

text \<open>
  \<^verbatim>\<open>CommandMessage\<close> and the static accessors of \<^verbatim>\<open>ActionMessage\<close>, \<^verbatim>\<open>ParameterMessage\<close> and
  \<^verbatim>\<open>HasParametersIF\<close>, over an unspecified type of messages \<open>'m\<close>.
\<close>

record 'm message_if =
  getCommand :: "'m \<Rightarrow> Command_t"
  setCommand :: "Command_t \<Rightarrow> 'm \<Rightarrow> 'm"
  getMessageType :: "'m \<Rightarrow> uint8"
  getMsgParameter :: "'m \<Rightarrow> uint32"
  setMsgParameter :: "uint32 \<Rightarrow> 'm \<Rightarrow> 'm"
  makeCommandId :: "uint8 \<Rightarrow> uint8 \<Rightarrow> Command_t"
  DEVICE_HANDLER_COMMAND :: uint8
  ACTION :: uint8
  PARAMETER :: uint8
  action_setCommand :: "ActionId_t \<Rightarrow> store_address_t \<Rightarrow> 'm \<Rightarrow> 'm"
  action_getActionId :: "'m \<Rightarrow> ActionId_t"
  action_getStoreId :: "'m \<Rightarrow> store_address_t"
  action_getReturnCode :: "'m \<Rightarrow> ReturnValue_t"
  COMPLETION_SUCCESS :: Command_t
  STEP_SUCCESS :: Command_t
  DATA_REPLY :: Command_t
  STEP_FAILED :: Command_t
  COMPLETION_FAILED :: Command_t
  getFullParameterId :: "uint8 \<Rightarrow> uint8 \<Rightarrow> uint16 \<Rightarrow> ParameterId_t"
  param_setDumpCommand :: "ParameterId_t \<Rightarrow> 'm \<Rightarrow> 'm"
  param_getParameterId :: "'m \<Rightarrow> ParameterId_t"
  param_getStoreId :: "'m \<Rightarrow> store_address_t"
  REPLY_PARAMETER_DUMP :: Command_t

text \<open>
  Documented behaviour: accessors read what setters wrote, a command id carries its message
  type and, in the low byte, its index within the type, and the message types and the reply
  ids of an action (the labels of one \<^verbatim>\<open>switch\<close>) are pairwise different.
\<close>

definition message_laws :: "'m message_if \<Rightarrow> bool" where
  "message_laws M \<longleftrightarrow>
     (\<forall>c m. getCommand M (setCommand M c m) = c) \<and>
     (\<forall>p m. getMsgParameter M (setMsgParameter M p m) = p) \<and>
     (\<forall>p m. getCommand M (setMsgParameter M p m) = getCommand M m) \<and>
     (\<forall>t i m. getCommand M m = makeCommandId M t i \<longrightarrow> getMessageType M m = t) \<and>
     (\<forall>t i. makeCommandId M t i AND 0xff = ucast i) \<and>
     (\<forall>a s m. action_getActionId M (action_setCommand M a s m) = a) \<and>
     (\<forall>a s m. action_getStoreId M (action_setCommand M a s m) = s) \<and>
     distinct [DEVICE_HANDLER_COMMAND M, ACTION M, PARAMETER M]"

definition reply_labels_distinct :: "'m message_if \<Rightarrow> bool" where
  "reply_labels_distinct M \<longleftrightarrow>
     distinct [COMPLETION_SUCCESS M, STEP_SUCCESS M, DATA_REPLY M, STEP_FAILED M, COMPLETION_FAILED M]
     \<and> ACTION M \<noteq> PARAMETER M"

lemma message_lawsD:
  assumes "message_laws M"
  shows "getCommand M (setCommand M c m) = c"
    and "getMsgParameter M (setMsgParameter M p m) = p"
    and "getCommand M (setMsgParameter M p m) = getCommand M m"
    and "getCommand M m = makeCommandId M t i \<Longrightarrow> getMessageType M m = t"
    and "makeCommandId M t i AND 0xff = ucast i"
    and "action_getActionId M (action_setCommand M a s m) = a"
    and "action_getStoreId M (action_setCommand M a s m) = s"
  using assms by (auto simp: message_laws_def)

section \<open>Storage managers\<close>

text \<open>
  \<^verbatim>\<open>StorageManagerIF\<close> over an unspecified store type \<open>'s\<close>. \<open>getFreeElement n\<close> reserves
  \<open>n\<close> bytes and returns their address; \<open>writeElement\<close> is a write through the pointer that
  \<^verbatim>\<open>getFreeElement\<close> returned.
\<close>

record 's storage_if =
  getFreeElement :: "nat \<Rightarrow> 's \<Rightarrow> ReturnValue_t \<times> store_address_t \<times> 's"
  writeElement :: "store_address_t \<Rightarrow> uint8 list \<Rightarrow> 's \<Rightarrow> 's"
  getData :: "store_address_t \<Rightarrow> 's \<Rightarrow> ReturnValue_t \<times> uint8 list"
  deleteData :: "store_address_t \<Rightarrow> 's \<Rightarrow> ReturnValue_t \<times> 's"

text \<open>
  Documented behaviour, in terms of the elements \<open>elems s\<close> a store holds: reserving either
  succeeds at an address that was free and adds one element of the requested size there, or
  fails and changes nothing; a write replaces the leading bytes of a held element; reading
  succeeds exactly on held elements; deleting frees the address.
\<close>

definition storage_laws :: "'s storage_if \<Rightarrow> ('s \<Rightarrow> store_address_t \<rightharpoonup> uint8 list) \<Rightarrow> bool" where
  "storage_laws S elems \<longleftrightarrow>
     (\<forall>n s a s'. getFreeElement S n s = (OK, a, s') \<longrightarrow>
        elems s a = None \<and> (\<exists>bs. length bs = n \<and> elems s' = (elems s)(a \<mapsto> bs))) \<and>
     (\<forall>n s r a s'. getFreeElement S n s = (r, a, s') \<longrightarrow> r \<noteq> OK \<longrightarrow> elems s' = elems s) \<and>
     (\<forall>a bs s old. elems s a = Some old \<longrightarrow> length bs \<le> length old \<longrightarrow>
        elems (writeElement S a bs s) = (elems s)(a \<mapsto> bs @ drop (length bs) old)) \<and>
     (\<forall>a s bs. elems s a = Some bs \<longrightarrow> getData S a s = (OK, bs)) \<and>
     (\<forall>a s. elems s a = None \<longrightarrow> fst (getData S a s) \<noteq> OK) \<and>
     (\<forall>a s. elems (snd (deleteData S a s)) = (elems s)(a := None))"

lemma storage_getFree_OK:
  assumes "storage_laws S elems" and "getFreeElement S n s = (OK, a, s')"
  obtains bs where "elems s a = None" and "length bs = n" and "elems s' = (elems s)(a \<mapsto> bs)"
proof -
  from assms have "elems s a = None \<and> (\<exists>bs. length bs = n \<and> elems s' = (elems s)(a \<mapsto> bs))"
    unfolding storage_laws_def by blast
  then show thesis using that by blast
qed

lemma storage_getFree_fail:
  "storage_laws S elems \<Longrightarrow> getFreeElement S n s = (r, a, s') \<Longrightarrow> r \<noteq> OK \<Longrightarrow> elems s' = elems s"
  unfolding storage_laws_def by blast

lemma storage_write:
  "storage_laws S elems \<Longrightarrow> elems s a = Some old \<Longrightarrow> length bs \<le> length old \<Longrightarrow>
   elems (writeElement S a bs s) = (elems s)(a \<mapsto> bs @ drop (length bs) old)"
  unfolding storage_laws_def by blast

lemma storage_getData:
  "storage_laws S elems \<Longrightarrow> elems s a = Some bs \<Longrightarrow> getData S a s = (OK, bs)"
  unfolding storage_laws_def by blast

lemma storage_getData_OK_iff:
  assumes "storage_laws S elems"
  shows "fst (getData S a s) = OK \<longleftrightarrow> elems s a \<noteq> None"
  using assms unfolding storage_laws_def by (metis fst_conv not_None_eq)

lemma storage_getData_OK:
  assumes "storage_laws S elems" and "getData S a s = (OK, bs)"
  shows "elems s a = Some bs"
proof -
  from assms have "elems s a \<noteq> None"
    using storage_getData_OK_iff [OF assms(1), of a s] by simp
  then obtain cs where cs: "elems s a = Some cs" by blast
  with storage_getData [OF assms(1) cs] assms(2) show ?thesis by simp
qed

lemma storage_delete:
  "storage_laws S elems \<Longrightarrow> elems (snd (deleteData S a s)) = (elems s)(a := None)"
  unfolding storage_laws_def by blast

section \<open>Message queues\<close>

text \<open>
  \<^verbatim>\<open>MessageQueueIF::receiveMessage\<close> on a queue of type \<open>'q\<close>, which fills the message of type
  \<open>'m\<close> it is given. \<open>fifo_laws\<close>: a receive hands out the oldest queued message, and reports
  something other than \<^verbatim>\<open>OK\<close> exactly when nothing is queued.
\<close>

type_synonym ('q, 'm) receive = "'q \<Rightarrow> ReturnValue_t \<times> 'm \<times> 'q"

definition fifo_laws :: "('q, 'm) receive \<Rightarrow> ('q \<Rightarrow> 'm list) \<Rightarrow> bool" where
  "fifo_laws receiveMessage queued \<longleftrightarrow>
     (\<forall>q. queued q = [] \<longrightarrow>
        fst (receiveMessage q) \<noteq> OK \<and> queued (snd (snd (receiveMessage q))) = []) \<and>
     (\<forall>q m ms. queued q = m # ms \<longrightarrow>
        (\<exists>q'. receiveMessage q = (OK, m, q') \<and> queued q' = ms))"

text \<open>
  \<^verbatim>\<open>while (queue->receiveMessage(&message) == OK) body\<close>, shared by both sinks. The loop need
  not end when messages keep arriving; not returning is \<open>None\<close>.
\<close>

partial_function (option) receive_loop ::
  "('q, 'm) receive \<Rightarrow> ('m \<Rightarrow> 's \<Rightarrow> 's) \<Rightarrow> 'q \<Rightarrow> 's \<Rightarrow> ('q \<times> 's) option" where
  [code]: "receive_loop receiveMessage body q s =
     (case receiveMessage q of
        (r, m, q') \<Rightarrow>
          if r = OK then receive_loop receiveMessage body q' (body m s) else Some (q', s))"

text \<open>On a queue that holds finitely many messages the loop returns, having handled all in order.\<close>

lemma receive_loop_drains:
  assumes "fifo_laws receiveMessage queued"
  shows "\<exists>q'. receive_loop receiveMessage body q s = Some (q', fold body (queued q) s) \<and> queued q' = []"
proof (induction "queued q" arbitrary: q s)
  case Nil
  obtain r m q' where r: "receiveMessage q = (r, m, q')" by (cases "receiveMessage q")
  with assms Nil [symmetric] have "r \<noteq> OK" and "queued q' = []"
    unfolding fifo_laws_def by fastforce+
  with r Nil [symmetric] show ?case
    by (subst receive_loop.simps) simp
next
  case (Cons m ms)
  then obtain q' where "receiveMessage q = (OK, m, q')" and q': "queued q' = ms"
    using assms unfolding fifo_laws_def by metis
  with Cons(1) [of q' "body m s"] Cons(2) [symmetric] show ?case
    by (subst receive_loop.simps) simp
qed

section \<open>Executable objects\<close>

text \<open>
  The contract of \<^verbatim>\<open>ExecutableObjectIF::performOperation\<close> as periodic tasks use it: from a state
  satisfying \<open>inv\<close> an operation returns, reports \<^verbatim>\<open>OK\<close> and keeps \<open>inv\<close>, and it does not depend
  on the operation code. A periodic task calls it once per period.
\<close>

primrec run_periods :: "(uint8 \<Rightarrow> 's \<Rightarrow> (ReturnValue_t \<times> 's) option) \<Rightarrow> nat \<Rightarrow> 's \<Rightarrow> (ReturnValue_t list \<times> 's) option" where
  "run_periods perform 0 s = Some ([], s)"
| "run_periods perform (Suc n) s =
     (case perform 0 s of
        None \<Rightarrow> None
      | Some (r, s') \<Rightarrow> (case run_periods perform n s' of None \<Rightarrow> None | Some (rs, s'') \<Rightarrow> Some (r # rs, s'')))"

locale executable_object =
  fixes perform :: "uint8 \<Rightarrow> 's \<Rightarrow> (ReturnValue_t \<times> 's) option"
    and inv :: "'s \<Rightarrow> bool"
  assumes perform_returns: "inv s \<Longrightarrow> \<exists>s'. perform k s = Some (OK, s') \<and> inv s'"
    and perform_code: "perform k s = perform k' s"
begin

lemma run_periods_OK:
  assumes "inv s"
  shows "\<exists>s'. run_periods perform n s = Some (replicate n OK, s') \<and> inv s'"
  using assms
proof (induction n arbitrary: s)
  case (Suc n)
  then obtain s1 where s1: "perform 0 s = Some (OK, s1)" "inv s1" using perform_returns by blast
  from Suc.IH [OF s1(2)] obtain s2 where "run_periods perform n s1 = Some (replicate n OK, s2)" "inv s2" by blast
  with s1 show ?case by simp
qed simp

end

section \<open>Executable instances\<close>

record sample_message =
  sm_command :: Command_t
  sm_first :: uint32
  sm_second :: uint32

definition sample_messages :: "sample_message message_if" where
  "sample_messages =
     \<lparr> getCommand = sm_command,
       setCommand = (\<lambda>c m. m\<lparr>sm_command := c\<rparr>),
       getMessageType = (\<lambda>m. ucast (drop_bit 8 (sm_command m))),
       getMsgParameter = sm_first,
       setMsgParameter = (\<lambda>p m. m\<lparr>sm_first := p\<rparr>),
       makeCommandId = (\<lambda>t i. push_bit 8 (ucast t) OR ucast i),
       DEVICE_HANDLER_COMMAND = 4, ACTION = 5, PARAMETER = 6,
       action_setCommand = (\<lambda>a s m. m\<lparr>sm_command := 0x0501, sm_first := a, sm_second := s\<rparr>),
       action_getActionId = sm_first,
       action_getStoreId = sm_second,
       action_getReturnCode = (\<lambda>m. Code (ucast (sm_second m))),
       COMPLETION_SUCCESS = 0x0502, STEP_SUCCESS = 0x0503, DATA_REPLY = 0x0504,
       STEP_FAILED = 0x0505, COMPLETION_FAILED = 0x0506,
       getFullParameterId = (\<lambda>d p i. push_bit 24 (ucast d) OR push_bit 16 (ucast p) OR ucast i),
       param_setDumpCommand = (\<lambda>p m. m\<lparr>sm_command := 0x0601, sm_first := p\<rparr>),
       param_getParameterId = sm_first,
       param_getStoreId = sm_second,
       REPLY_PARAMETER_DUMP = 0x0602 \<rparr>"

lemma make_id_type:
  "(ucast (drop_bit 8 (push_bit 8 (ucast (t::uint8))) OR drop_bit 8 (ucast (i::uint8)) :: uint16) :: uint8) = t"
proof (rule bit_word_eqI)
  fix n
  assume "n < LENGTH(8)"
  moreover have "\<not> bit i (8 + n)" using bit_imp_le_length [of i "8 + n"] by auto
  ultimately show "bit (ucast (drop_bit 8 (push_bit 8 (ucast t)) OR drop_bit 8 (ucast i) :: uint16) :: uint8) n = bit t n"
    by (auto simp: bit_simps)
qed

lemma make_id_low: "(push_bit 8 (ucast (t::uint8)) OR ucast (i::uint8)) AND 0xff = (ucast i :: uint16)"
proof -
  have mask: "(0xff :: uint16) = mask 8" by (simp add: mask_eq_exp_minus_1)
  have "(push_bit 8 (ucast t) OR ucast i) AND mask 8 = (ucast i :: uint16)"
    by (rule bit_word_eqI) (auto simp: bit_simps dest: bit_imp_le_length)
  then show ?thesis unfolding mask .
qed

lemma sample_message_laws: "message_laws sample_messages"
  by (simp add: message_laws_def sample_messages_def make_id_type make_id_low)

lemma sample_reply_labels: "reply_labels_distinct sample_messages"
  by (simp add: reply_labels_distinct_def sample_messages_def)

text \<open>A store with a fixed number of slots, the first free one being handed out.\<close>

type_synonym pool = "uint8 list option list"

primrec first_free :: "pool \<Rightarrow> nat" where
  "first_free [] = 0"
| "first_free (x # xs) = (case x of None \<Rightarrow> 0 | Some _ \<Rightarrow> Suc (first_free xs))"

definition pool_elems :: "pool \<Rightarrow> store_address_t \<rightharpoonup> uint8 list" where
  "pool_elems s a = (if unat a < length s then s ! unat a else None)"

definition pool_storage :: "pool storage_if" where
  "pool_storage =
     \<lparr> getFreeElement = (\<lambda>n s. let i = first_free s in
          if i < length s \<and> i < 2 ^ 32 then (OK, word_of_nat i, s[i := Some (replicate n 0)])
          else (Code 1, 0, s)),
       writeElement = (\<lambda>a bs s. case pool_elems s a of
          None \<Rightarrow> s | Some old \<Rightarrow> s[unat a := Some (bs @ drop (length bs) old)]),
       getData = (\<lambda>a s. case pool_elems s a of None \<Rightarrow> (Code 2, []) | Some bs \<Rightarrow> (OK, bs)),
       deleteData = (\<lambda>a s. case pool_elems s a of None \<Rightarrow> (Code 2, s) | Some _ \<Rightarrow> (OK, s[unat a := None])) \<rparr>"

lemma first_free_None: "first_free s < length s \<Longrightarrow> s ! first_free s = None"
  by (induction s) (auto split: option.splits)

lemma pool_elems_update:
  "unat a < length s \<Longrightarrow> pool_elems (s[unat a := x]) = (pool_elems s)(a := x)"
  by (rule ext) (auto simp: pool_elems_def nth_list_update word_unat_eq_iff)

lemma pool_elems_domain: "pool_elems s a = Some bs \<Longrightarrow> unat a < length s"
  by (auto simp: pool_elems_def split: if_splits)

lemma pool_storage_laws: "storage_laws pool_storage pool_elems"
proof -
  have free: "pool_elems s a = None \<and> (\<exists>bs. length bs = n \<and> pool_elems s' = (pool_elems s)(a \<mapsto> bs))"
    if get: "getFreeElement pool_storage n s = (OK, a, s')" for n s a s'
  proof -
    from get have i: "first_free s < length s" "first_free s < 2 ^ 32"
      and a: "a = word_of_nat (first_free s)" and s': "s' = s[first_free s := Some (replicate n 0)]"
      by (auto simp: pool_storage_def Let_def split: if_splits)
    from i(2) a have ua: "unat a = first_free s" by (simp add: unat_of_nat)
    have "pool_elems s a = None"
      using first_free_None [OF i(1)] ua by (simp add: pool_elems_def)
    moreover have "pool_elems s' = (pool_elems s)(a \<mapsto> replicate n 0)"
      using pool_elems_update [of a s "Some (replicate n 0)"] ua i(1) s' by simp
    ultimately show ?thesis by (intro conjI exI [of _ "replicate n 0"]) simp_all
  qed
  have rest: "pool_elems (writeElement pool_storage a bs s) = (pool_elems s)(a \<mapsto> bs @ drop (length bs) old)"
    if "pool_elems s a = Some old" for a bs s old
    using that pool_elems_domain [OF that]
    by (simp add: pool_storage_def pool_elems_update)
  have del: "pool_elems (snd (deleteData pool_storage a s)) = (pool_elems s)(a := None)" for a s
    by (cases "pool_elems s a")
      (auto simp: pool_storage_def pool_elems_update dest: pool_elems_domain intro!: ext)
  have full: "pool_elems s' = pool_elems s"
    if "getFreeElement pool_storage n s = (r, a, s')" and "r \<noteq> OK" for n s r a s'
    using that by (auto simp: pool_storage_def Let_def split: if_splits)
  have get: "getData pool_storage a s = (case pool_elems s a of None \<Rightarrow> (Code 2, []) | Some bs \<Rightarrow> (OK, bs))" for a s
    by (simp add: pool_storage_def)
  show ?thesis
    unfolding storage_laws_def using free full rest del by (simp add: get)
qed

text \<open>A queue that holds a list of messages.\<close>

fun list_receive :: "('m list, 'm) receive" where
  "list_receive [] = (Code 3, undefined, [])"
| "list_receive (m # ms) = (OK, m, ms)"

lemma list_receive_fifo: "fifo_laws list_receive (\<lambda>q. q)"
  by (auto simp: fifo_laws_def)

end
