(* ===== verification/WebcamLink.thy ===== *)
theory WebcamLink
  imports WebcamDefinitions
begin

text \<open>
  The device link of the webcam: the cookie that carries its configuration
  (\<^verbatim>\<open>mission/webcam/WebcamCookie\<close>) and the communication interface
  (\<^verbatim>\<open>mission/webcam/WebcamComIF\<close>), which accepts everything and never delivers a byte: replies
  are fabricated by the device handler.
\<close>

section \<open>Cookie\<close>

record WebcamCookie =
  cookieObjectId :: object_id_t
  devicePath :: string
  initialFrameRate :: double

definition new_WebcamCookie :: "string \<Rightarrow> double \<Rightarrow> WebcamCookie" where
  "new_WebcamCookie path rate =
     \<lparr>cookieObjectId = objectIdWebcamCookie, devicePath = path, initialFrameRate = rate\<rparr>"

definition getDevicePath :: "WebcamCookie \<Rightarrow> string" where
  "getDevicePath c = devicePath c"

definition getInitialFrameRate :: "WebcamCookie \<Rightarrow> double" where
  "getInitialFrameRate c = initialFrameRate c"

section \<open>Communication interface\<close>

record WebcamComIF =
  comIFObjectId :: object_id_t

definition new_WebcamComIF :: "object_id_t \<Rightarrow> WebcamComIF" where
  "new_WebcamComIF objectId = \<lparr>comIFObjectId = objectId\<rparr>"

definition initializeInterface :: "WebcamComIF \<Rightarrow> 'c option \<Rightarrow> ReturnValue_t \<times> WebcamComIF" where
  "initializeInterface self cookie = (OK, self)"

definition sendMessage ::
  "WebcamComIF \<Rightarrow> 'c option \<Rightarrow> uint8 list option \<Rightarrow> nat \<Rightarrow> ReturnValue_t \<times> WebcamComIF" where
  "sendMessage self cookie sendData sendLen = (OK, self)"

definition getSendSuccess :: "WebcamComIF \<Rightarrow> 'c option \<Rightarrow> ReturnValue_t \<times> WebcamComIF" where
  "getSendSuccess self cookie = (OK, self)"

definition requestReceiveMessage ::
  "WebcamComIF \<Rightarrow> 'c option \<Rightarrow> nat \<Rightarrow> ReturnValue_t \<times> WebcamComIF" where
  "requestReceiveMessage self cookie requestLen = (OK, self)"

text \<open>
  \<open>buffer\<close> and \<open>sz\<close> (the C++ \<open>size\<close>) are pointers to the caller's variables: \<open>None\<close> is a null pointer,
  \<open>Some v\<close> points to a variable with value \<open>v\<close>.
\<close>

definition readReceivedMessage ::
  "WebcamComIF \<Rightarrow> 'c option \<Rightarrow> uint8 list option option \<Rightarrow> nat option \<Rightarrow>
   ReturnValue_t \<times> uint8 list option option \<times> nat option \<times> WebcamComIF" where
  "readReceivedMessage self cookie buffer sz =
     (OK, (case buffer of None \<Rightarrow> None | Some _ \<Rightarrow> Some None),
      (case sz of None \<Rightarrow> None | Some _ \<Rightarrow> Some 0), self)"

section \<open>The contract of a silent link\<close>

text \<open>
  What the device handler relies on: every call succeeds, no call changes the interface, and a
  read reports zero bytes whatever was sent or requested before.
\<close>

locale silent_link =
  fixes link_init :: "'l \<Rightarrow> 'c option \<Rightarrow> ReturnValue_t \<times> 'l"
    and link_send :: "'l \<Rightarrow> 'c option \<Rightarrow> uint8 list option \<Rightarrow> nat \<Rightarrow> ReturnValue_t \<times> 'l"
    and link_success :: "'l \<Rightarrow> 'c option \<Rightarrow> ReturnValue_t \<times> 'l"
    and link_request :: "'l \<Rightarrow> 'c option \<Rightarrow> nat \<Rightarrow> ReturnValue_t \<times> 'l"
    and link_read :: "'l \<Rightarrow> 'c option \<Rightarrow> uint8 list option option \<Rightarrow> nat option \<Rightarrow>
          ReturnValue_t \<times> uint8 list option option \<times> nat option \<times> 'l"
  assumes init_ok: "link_init l c = (OK, l)"
    and send_ok: "link_send l c d n = (OK, l)"
    and success_ok: "link_success l c = (OK, l)"
    and request_ok: "link_request l c n = (OK, l)"
    and read_empty: "link_read l c b z = (OK, map_option (\<lambda>_. None) b, map_option (\<lambda>_. 0) z, l)"
begin

text \<open>One exchange in the order in which a device handler uses the link.\<close>

definition exchange :: "'l \<Rightarrow> 'c option \<Rightarrow> uint8 list option \<Rightarrow> nat \<Rightarrow> nat \<Rightarrow>
    ReturnValue_t list \<times> uint8 list option option \<times> nat option \<times> 'l" where
  "exchange l c d n m =
     (let (r1, l1) = link_send l c d n; (r2, l2) = link_success l1 c;
          (r3, l3) = link_request l2 c m; (r4, b, z, l4) = link_read l3 c (Some d) (Some n)
      in ([r1, r2, r3, r4], b, z, l4))"

lemma exchange_silent: "exchange l c d n m = (replicate 4 OK, Some None, Some 0, l)"
  by (simp add: exchange_def send_ok success_ok request_ok read_empty eval_nat_numeral)

end

interpretation webcam_link: silent_link
  initializeInterface sendMessage getSendSuccess requestReceiveMessage readReceivedMessage
  by unfold_locales
    (simp_all add: initializeInterface_def sendMessage_def getSendSuccess_def
      requestReceiveMessage_def readReceivedMessage_def split: option.splits)

section \<open>Properties\<close>

text \<open>
  The link is silent: whatever is sent or requested, a later read on the interface succeeds,
  sets a non-null buffer pointer to null and a non-null size to zero, and never writes through a
  null pointer.
\<close>

lemma webcam_link_silent:
  "readReceivedMessage
     (snd (requestReceiveMessage (snd (sendMessage (snd (initializeInterface self cookie)) cookie d n)) cookie m))
     cookie buffer sz
   = (OK, map_option (\<lambda>_. None) buffer, map_option (\<lambda>_. 0) sz, self)"
  by (simp add: webcam_link.init_ok webcam_link.send_ok webcam_link.request_ok webcam_link.read_empty)

end
