(* ===== verification/WebcamDeviceHandler.thy ===== *)
theory WebcamDeviceHandler
  imports WebcamDefinitions FsfwInterface
begin

text \<open>
  The webcam device handler (\<^verbatim>\<open>mission/webcam/WebcamDeviceHandler\<close>). The handler keeps three
  request flags that telecommands set, hands the requests to the framework one per cycle in a
  fixed priority order, and fabricates the device's reply to each.

  \<^item> Definitions: one per member function of the class, over the record of its members. The part
    of the object that belongs to \<^verbatim>\<open>DeviceHandlerBase\<close> is the field \<open>base\<close>, of arbitrary type;
    the base-class functions the handler calls are the record \<open>device_handler_base\<close>.
  \<^item> \<open>cycle_step\<close>: the calls the framework makes, in any order, a reply being interpreted right
    after the scan that found it; \<open>handler_inv\<close> is its invariant.
  \<^item> Refinement: the request flags implement the abstract mailbox \<open>mailbox\<close>.
\<close>

section \<open>What the handler uses of the framework\<close>

text \<open>
  \<open>'b\<close> is the base-class state, \<open>'m\<close> the messages, \<open>'w\<close> the parameter wrappers. Framework
  code reaches the members below only through the virtual functions the class overrides.
\<close>

record ('b, 'm, 'w) device_handler_base =
  NO_COMMAND_ID :: DeviceCommandId_t
  MODE_ON :: Mode_t
  MODE_OFF :: Mode_t
  setMode :: "Mode_t \<Rightarrow> 'b \<Rightarrow> 'b"
  insertInCommandAndReplyMap :: "DeviceCommandId_t \<Rightarrow> uint16 \<Rightarrow> 'b \<Rightarrow> ReturnValue_t \<times> 'b"
  base_getParameter :: "uint8 \<Rightarrow> uint8 \<Rightarrow> 'w option \<Rightarrow> 'w option \<Rightarrow> uint16 \<Rightarrow> 'b \<Rightarrow>
    ReturnValue_t \<times> 'w option \<times> 'b"
  base_letChildHandleMessage :: "'m \<Rightarrow> 'b \<Rightarrow> ReturnValue_t \<times> 'm \<times> 'b"
  replyReturnvalueToCommand :: "ReturnValue_t \<Rightarrow> 'b \<Rightarrow> 'b"
  wrapper_set :: "double \<Rightarrow> 'w \<Rightarrow> 'w"
  wrapper_getElement :: "'w \<Rightarrow> ReturnValue_t \<times> double"

text \<open>The framework reserves an id for "no command" that no device command uses.\<close>

definition no_command_reserved :: "('b, 'm, 'w) device_handler_base \<Rightarrow> bool" where
  "no_command_reserved F \<longleftrightarrow> NO_COMMAND_ID F \<notin> {TAKE_SNAPSHOT, SET_FRAME_RATE, GET_FRAME_RATE}"

section \<open>State\<close>

text \<open>Lines printed through \<^verbatim>\<open>sif::printInfo\<close>, with the value each prints.\<close>

datatype info =
    SnapshotCompleted
  | FrameRateSet double
  | CurrentFrameRate double
  | ReplyReceived DeviceCommandId_t
  | ParameterRead double
  | ParameterWrite double

text \<open>Where \<^verbatim>\<open>rawPacket\<close> points: nowhere, or to the handler's one-byte dummy buffer.\<close>

datatype packet_pointer = NullPacket | DummyPacket

record 'b WebcamDeviceHandler =
  currentFrameRate :: double
  requestedFrameRate :: double
  snapshotRequested :: bool
  devicePowered :: bool
  transitionCommandPending :: bool
  frameRateCommandPending :: bool
  frameRateQueryPending :: bool
  snapshotInProgress :: bool
  replyReady :: bool
  fabricatedReplyId :: DeviceCommandId_t
  dummyCommandBuffer :: "uint8 list"
  communicationInterface :: "object_id_t option"
  rawPacket :: packet_pointer
  rawPacketLen :: nat
  infoLog :: "info list"
  base :: 'b

definition new_WebcamDeviceHandler ::
  "('b, 'm, 'w) device_handler_base \<Rightarrow> object_id_t option \<Rightarrow> 'b \<Rightarrow> 'b WebcamDeviceHandler" where
  "new_WebcamDeviceHandler F comIF b =
     \<lparr> currentFrameRate = 0, requestedFrameRate = 0, snapshotRequested = False,
       devicePowered = False, transitionCommandPending = False,
       frameRateCommandPending = False, frameRateQueryPending = False,
       snapshotInProgress = False, replyReady = False,
       fabricatedReplyId = NO_COMMAND_ID F, dummyCommandBuffer = [0],
       communicationInterface = comIF, rawPacket = NullPacket, rawPacketLen = 0,
       infoLog = [], base = b \<rparr>"

definition printInfo :: "info \<Rightarrow> 'b WebcamDeviceHandler \<Rightarrow> 'b WebcamDeviceHandler" where
  "printInfo line h = h\<lparr>infoLog := infoLog h @ [line]\<rparr>"

section \<open>Mode transitions\<close>

definition doStartUp ::
  "('b, 'm, 'w) device_handler_base \<Rightarrow> 'b WebcamDeviceHandler \<Rightarrow> 'b WebcamDeviceHandler" where
  "doStartUp F h =
     h\<lparr>devicePowered := True, transitionCommandPending := True, base := setMode F (MODE_ON F) (base h)\<rparr>"

definition doShutDown ::
  "('b, 'm, 'w) device_handler_base \<Rightarrow> 'b WebcamDeviceHandler \<Rightarrow> 'b WebcamDeviceHandler" where
  "doShutDown F h =
     h\<lparr>devicePowered := False, transitionCommandPending := True, base := setMode F (MODE_OFF F) (base h)\<rparr>"

definition getTransitionDelayMs :: "Mode_t \<Rightarrow> Mode_t \<Rightarrow> uint32" where
  "getTransitionDelayMs modeFrom modeTo = 0"

definition buildTransitionDeviceCommand ::
  "('b, 'm, 'w) device_handler_base \<Rightarrow> DeviceCommandId_t option \<Rightarrow> 'b WebcamDeviceHandler \<Rightarrow>
   ReturnValue_t \<times> DeviceCommandId_t option \<times> 'b WebcamDeviceHandler" where
  "buildTransitionDeviceCommand F deviceCommand h =
     (NOTHING_TO_SEND,
      (case deviceCommand of None \<Rightarrow> None | Some _ \<Rightarrow> Some (NO_COMMAND_ID F)),
      h\<lparr>transitionCommandPending := False\<rparr>)"

section \<open>Building commands and fabricating replies\<close>

definition prepareReply ::
  "('b, 'm, 'w) device_handler_base \<Rightarrow> DeviceCommandId_t \<Rightarrow> 'b WebcamDeviceHandler \<Rightarrow> 'b WebcamDeviceHandler" where
  "prepareReply F commandId h =
     (if communicationInterface h = None
      then h\<lparr>fabricatedReplyId := NO_COMMAND_ID F, replyReady := False,
             rawPacket := NullPacket, rawPacketLen := 0\<rparr>
      else h\<lparr>fabricatedReplyId := commandId, replyReady := True,
             rawPacket := DummyPacket, rawPacketLen := 0\<rparr>)"

definition buildNormalDeviceCommand ::
  "('b, 'm, 'w) device_handler_base \<Rightarrow> DeviceCommandId_t option \<Rightarrow> 'b WebcamDeviceHandler \<Rightarrow>
   ReturnValue_t \<times> DeviceCommandId_t option \<times> 'b WebcamDeviceHandler" where
  "buildNormalDeviceCommand F deviceCommand h =
     (if deviceCommand = None then (FAILED, deviceCommand, h)
      else if communicationInterface h = None then (FAILED, deviceCommand, h)
      else if snapshotRequested h then
        (let h1 = h\<lparr>snapshotRequested := False, snapshotInProgress := True\<rparr>;
             cmd = commandIdRaw commandTakeSnapshot
         in (OK, Some cmd, prepareReply F cmd h1))
      else if frameRateCommandPending h then
        (let h1 = h\<lparr>frameRateCommandPending := False, snapshotInProgress := False,
                    currentFrameRate := requestedFrameRate h\<rparr>;
             cmd = commandIdRaw commandSetFrameRate
         in (OK, Some cmd, prepareReply F cmd h1))
      else if frameRateQueryPending h then
        (let h1 = h\<lparr>frameRateQueryPending := False, snapshotInProgress := False\<rparr>;
             cmd = commandIdRaw commandGetFrameRate
         in (OK, Some cmd, prepareReply F cmd h1))
      else (NOTHING_TO_SEND, deviceCommand, h))"

definition fillCommandAndReplyMap ::
  "('b, 'm, 'w) device_handler_base \<Rightarrow> 'b WebcamDeviceHandler \<Rightarrow> 'b WebcamDeviceHandler" where
  "fillCommandAndReplyMap F h =
     (let b1 = snd (insertInCommandAndReplyMap F (commandIdRaw commandTakeSnapshot) 0 (base h));
          b2 = snd (insertInCommandAndReplyMap F (commandIdRaw commandSetFrameRate) 0 b1);
          b3 = snd (insertInCommandAndReplyMap F (commandIdRaw commandGetFrameRate) 0 b2)
      in h\<lparr>base := b3\<rparr>)"

text \<open>The received bytes (first two C++ arguments) are ignored by the code.\<close>

definition scanForReply ::
  "('b, 'm, 'w) device_handler_base \<Rightarrow> DeviceCommandId_t option \<Rightarrow> nat option \<Rightarrow> 'b WebcamDeviceHandler \<Rightarrow>
   ReturnValue_t \<times> DeviceCommandId_t option \<times> nat option \<times> 'b WebcamDeviceHandler" where
  "scanForReply F foundId foundLen h =
     (if replyReady h then
        (OK,
         (case foundId of None \<Rightarrow> None | Some _ \<Rightarrow> Some (fabricatedReplyId h)),
         (case foundLen of None \<Rightarrow> None | Some _ \<Rightarrow> Some 0),
         (if fabricatedReplyId h = commandIdRaw commandTakeSnapshot
          then h\<lparr>snapshotInProgress := False\<rparr> else h)\<lparr>replyReady := False\<rparr>)
      else
        (NO_REPLY_RECEIVED,
         (case foundId of None \<Rightarrow> None | Some _ \<Rightarrow> Some (NO_COMMAND_ID F)),
         (case foundLen of None \<Rightarrow> None | Some _ \<Rightarrow> Some 0),
         h))"

definition interpretDeviceReply ::
  "('b, 'm, 'w) device_handler_base \<Rightarrow> DeviceCommandId_t \<Rightarrow> 'b WebcamDeviceHandler \<Rightarrow>
   ReturnValue_t \<times> 'b WebcamDeviceHandler" where
  "interpretDeviceReply F rid h =
     (let command = CommandId rid;
          h1 = (if command = commandTakeSnapshot
                then printInfo SnapshotCompleted (h\<lparr>snapshotInProgress := False\<rparr>)
                else if command = commandSetFrameRate
                then printInfo (FrameRateSet (currentFrameRate h)) h
                else if command = commandGetFrameRate
                then printInfo (CurrentFrameRate (currentFrameRate h)) h
                else printInfo (ReplyReceived rid) h)
      in (OK, h1\<lparr>fabricatedReplyId := NO_COMMAND_ID F\<rparr>))"

section \<open>Parameters and commands\<close>

definition getParameter ::
  "('b, 'm, 'w) device_handler_base \<Rightarrow> uint8 \<Rightarrow> uint8 \<Rightarrow> 'w option \<Rightarrow> 'w option \<Rightarrow> uint16 \<Rightarrow>
   'b WebcamDeviceHandler \<Rightarrow> ReturnValue_t \<times> 'w option \<times> 'b WebcamDeviceHandler" where
  "getParameter F domainId parameterId parameterWrapper newValues startAtIndex h =
     (let fromBase = (case base_getParameter F domainId parameterId parameterWrapper newValues startAtIndex (base h)
                      of (r, w, b) \<Rightarrow> (r, w, h\<lparr>base := b\<rparr>))
      in if domainId \<noteq> 0 then fromBase
         else if parameterId = parameterIdRaw parameterFrameRate then
           (case newValues of
              None \<Rightarrow>
                (case parameterWrapper of
                   None \<Rightarrow> (FAILED, parameterWrapper, h)
                 | Some w \<Rightarrow>
                     if startAtIndex \<noteq> 0 then (FAILED, parameterWrapper, h)
                     else (OK, Some (wrapper_set F (currentFrameRate h) w),
                           printInfo (ParameterRead (currentFrameRate h)) h))
            | Some v \<Rightarrow>
                if startAtIndex \<noteq> 0 then (FAILED, parameterWrapper, h)
                else (case wrapper_getElement F v of
                        (result, newFrameRate) \<Rightarrow>
                          if result \<noteq> OK then (result, parameterWrapper, h)
                          else (OK, parameterWrapper,
                                printInfo (ParameterWrite newFrameRate) (h\<lparr>requestedFrameRate := newFrameRate\<rparr>))))
         else fromBase)"

text \<open>
  \<^verbatim>\<open>actionHelper.handleActionMessage\<close> is the argument \<open>handleActionMessage\<close>; it works on the
  whole object because it calls back into \<^verbatim>\<open>buildCommandFromCommand\<close>.
\<close>

definition letChildHandleMessage ::
  "'m message_if \<Rightarrow> ('b, 'm, 'w) device_handler_base \<Rightarrow>
   ('m \<Rightarrow> 'b WebcamDeviceHandler \<Rightarrow> ReturnValue_t \<times> 'b WebcamDeviceHandler) \<Rightarrow>
   'm option \<Rightarrow> 'b WebcamDeviceHandler \<Rightarrow> ReturnValue_t \<times> 'm option \<times> 'b WebcamDeviceHandler" where
  "letChildHandleMessage M F handleActionMessage message h =
     (case message of
        None \<Rightarrow> (FAILED, None, h)
      | Some m \<Rightarrow>
          if getMessageType M m \<noteq> DEVICE_HANDLER_COMMAND M then
            (case base_letChildHandleMessage F m (base h) of (r, m', b) \<Rightarrow> (r, Some m', h\<lparr>base := b\<rparr>))
          else
            (let rawCommand = (ucast (getCommand M m AND 0xff) :: uint8)
             in if \<not> fst (rawToCommand (ucast rawCommand) (CommandId 0)) then
                  (OK, Some m, h\<lparr>base := replyReturnvalueToCommand F UNKNOWN_COMMAND (base h)\<rparr>)
                else
                  (let storeId = getMsgParameter M m;
                       m' = action_setCommand M (ucast rawCommand) storeId m
                   in case handleActionMessage m' h of
                        (result, h') \<Rightarrow>
                          (OK, Some m',
                           if result \<noteq> OK then h'\<lparr>base := replyReturnvalueToCommand F result (base h')\<rparr> else h'))))"

definition buildCommandFromCommand ::
  "byte_order \<Rightarrow> DeviceCommandId_t \<Rightarrow> uint8 list option \<Rightarrow> nat \<Rightarrow> 'b WebcamDeviceHandler \<Rightarrow>
   (ReturnValue_t \<times> 'b WebcamDeviceHandler) cxx" where
  "buildCommandFromCommand e deviceCommand commandData commandDataLen h =
     (let command = CommandId deviceCommand
      in if command = commandTakeSnapshot then Some (OK, h\<lparr>snapshotRequested := True\<rparr>)
         else if command = commandSetFrameRate then
           (if commandData \<noteq> None \<and> sizeof_double \<le> commandDataLen
            then (case memcpy_from commandData sizeof_double of
                    None \<Rightarrow> None
                  | Some bs \<Rightarrow>
                      Some (OK, h\<lparr>requestedFrameRate := bytes_double e bs, frameRateCommandPending := True\<rparr>))
            else Some (OK, h\<lparr>frameRateCommandPending := True\<rparr>))
         else if command = commandGetFrameRate then Some (OK, h\<lparr>frameRateQueryPending := True\<rparr>)
         else Some (COMMAND_NOT_SUPPORTED, h))"

lemmas handler_entry_defs =
  doStartUp_def doShutDown_def buildTransitionDeviceCommand_def prepareReply_def
  buildNormalDeviceCommand_def scanForReply_def interpretDeviceReply_def printInfo_def
  getParameter_def buildCommandFromCommand_def

section \<open>Requests: an abstract mailbox\<close>

text \<open>
  The abstract view of the handler: three request slots, the rate to apply and the rate in
  force. Posting fills a slot; taking serves the highest-priority filled slot.
\<close>

record mailbox =
  mb_snapshot :: bool
  mb_rate :: bool
  mb_query :: bool
  mb_requested :: double
  mb_current :: double

definition mailbox_of :: "'b WebcamDeviceHandler \<Rightarrow> mailbox" where
  "mailbox_of h =
     \<lparr>mb_snapshot = snapshotRequested h, mb_rate = frameRateCommandPending h, mb_query = frameRateQueryPending h,
      mb_requested = requestedFrameRate h, mb_current = currentFrameRate h\<rparr>"

definition mailbox_pending :: "mailbox \<Rightarrow> DeviceCommandId_t list" where
  "mailbox_pending mb =
     (if mb_snapshot mb then [TAKE_SNAPSHOT] else []) @
     (if mb_rate mb then [SET_FRAME_RATE] else []) @
     (if mb_query mb then [GET_FRAME_RATE] else [])"

definition mailbox_take :: "mailbox \<Rightarrow> DeviceCommandId_t option \<times> mailbox" where
  "mailbox_take mb =
     (case mailbox_pending mb of
        [] \<Rightarrow> (None, mb)
      | x # _ \<Rightarrow>
          (Some x,
           if x = TAKE_SNAPSHOT then mb\<lparr>mb_snapshot := False\<rparr>
           else if x = SET_FRAME_RATE then mb\<lparr>mb_rate := False, mb_current := mb_requested mb\<rparr>
           else mb\<lparr>mb_query := False\<rparr>))"

text \<open>A post carries the new rate, if the command has one.\<close>

definition mailbox_post :: "DeviceCommandId_t \<Rightarrow> double option \<Rightarrow> mailbox \<Rightarrow> mailbox" where
  "mailbox_post x rate mb =
     (if x = TAKE_SNAPSHOT then mb\<lparr>mb_snapshot := True\<rparr>
      else if x = SET_FRAME_RATE then
        mb\<lparr>mb_rate := True, mb_requested := (case rate of None \<Rightarrow> mb_requested mb | Some d \<Rightarrow> d)\<rparr>
      else if x = GET_FRAME_RATE then mb\<lparr>mb_query := True\<rparr>
      else mb)"

text \<open>The rate a command's payload carries: its first eight bytes, if it has that many.\<close>

definition payload_rate :: "byte_order \<Rightarrow> uint8 list option \<Rightarrow> nat \<Rightarrow> double option" where
  "payload_rate e commandData len =
     (case commandData of
        None \<Rightarrow> None
      | Some bs \<Rightarrow> if sizeof_double \<le> len then Some (bytes_double e (take sizeof_double bs)) else None)"

abbreviation handler_pending :: "'b WebcamDeviceHandler \<Rightarrow> DeviceCommandId_t list" where
  "handler_pending h \<equiv> mailbox_pending (mailbox_of h)"

text \<open>One normal cycle: what is handed to the framework, if anything, and the handler after it.\<close>

definition serve_cycle ::
  "('b, 'm, 'w) device_handler_base \<Rightarrow> 'b WebcamDeviceHandler \<Rightarrow> DeviceCommandId_t option \<times> 'b WebcamDeviceHandler" where
  "serve_cycle F h =
     (case buildNormalDeviceCommand F (Some (NO_COMMAND_ID F)) h of (r, cmd, h') \<Rightarrow> (if r = OK then cmd else None, h'))"

lemmas mailbox_defs = mailbox_of_def mailbox_pending_def mailbox_take_def mailbox_post_def payload_rate_def

lemma raw_ids [simp]:
  "commandIdRaw commandTakeSnapshot = TAKE_SNAPSHOT"
  "commandIdRaw commandSetFrameRate = SET_FRAME_RATE"
  "commandIdRaw commandGetFrameRate = GET_FRAME_RATE"
  "parameterIdRaw parameterFrameRate = PARAM_FRAME_RATE"
  by (simp_all add: TAKE_SNAPSHOT_def SET_FRAME_RATE_def GET_FRAME_RATE_def PARAM_FRAME_RATE_def)

lemma CommandId_eq_iff [simp]:
  "CommandId i = commandTakeSnapshot \<longleftrightarrow> i = TAKE_SNAPSHOT"
  "CommandId i = commandSetFrameRate \<longleftrightarrow> i = SET_FRAME_RATE"
  "CommandId i = commandGetFrameRate \<longleftrightarrow> i = GET_FRAME_RATE"
  by (simp_all add: id_defs)

lemma buildNormalDeviceCommand_take:
  assumes "communicationInterface h \<noteq> None" and "buildNormalDeviceCommand F (Some x) h = (r, cmd, h')"
  shows "mailbox_take (mailbox_of h) = (if r = OK then cmd else None, mailbox_of h')"
  using assms
  by (auto simp: buildNormalDeviceCommand_def prepareReply_def Let_def mailbox_defs split: if_splits)

lemma buildCommandFromCommand_defined:
  "readable commandData len \<Longrightarrow> buildCommandFromCommand e i commandData len h \<noteq> None"
  by (auto simp: buildCommandFromCommand_def memcpy_from_def readable_def Let_def split: option.splits)

lemma buildCommandFromCommand_post:
  assumes "buildCommandFromCommand e i commandData len h = Some (r, h')"
  shows "mailbox_of h' = mailbox_post i (payload_rate e commandData len) (mailbox_of h)"
    and "r = (if i \<in> {TAKE_SNAPSHOT, SET_FRAME_RATE, GET_FRAME_RATE} then OK else COMMAND_NOT_SUPPORTED)"
  using assms
  by (auto simp: buildCommandFromCommand_def memcpy_from_def Let_def mailbox_defs
      split: if_splits option.splits)

lemma communicationInterface_frame [simp]:
  "communicationInterface (prepareReply F i h) = communicationInterface h"
  "communicationInterface (snd (serve_cycle F h)) = communicationInterface h"
  by (auto simp: prepareReply_def serve_cycle_def buildNormalDeviceCommand_def Let_def)

lemma serve_cycle_take:
  assumes "communicationInterface h \<noteq> None"
  shows "mailbox_take (mailbox_of h) = (fst (serve_cycle F h), mailbox_of (snd (serve_cycle F h)))"
proof -
  obtain r cmd h' where eq: "buildNormalDeviceCommand F (Some (NO_COMMAND_ID F)) h = (r, cmd, h')"
    by (cases "buildNormalDeviceCommand F (Some (NO_COMMAND_ID F)) h")
  with buildNormalDeviceCommand_take [OF assms eq] show ?thesis
    by (simp add: serve_cycle_def)
qed

lemma mailbox_take_Cons:
  "mailbox_pending mb = x # xs \<Longrightarrow> fst (mailbox_take mb) = Some x \<and> mailbox_pending (snd (mailbox_take mb)) = xs"
  by (auto simp: mailbox_take_def mailbox_pending_def split: if_splits)

lemma serve_cycle_idle:
  "communicationInterface h \<noteq> None \<Longrightarrow> handler_pending h = [] \<Longrightarrow> serve_cycle F h = (None, h)"
  by (auto simp: serve_cycle_def buildNormalDeviceCommand_def mailbox_pending_def mailbox_of_def split: if_splits)

interpretation handler_requests: work_source
  "serve_cycle F" handler_pending "\<lambda>h. communicationInterface h \<noteq> None"
proof unfold_locales
  fix h :: "'a WebcamDeviceHandler" and x xs
  assume c: "communicationInterface h \<noteq> None" and "handler_pending h = x # xs"
  with serve_cycle_take [OF c, of F] mailbox_take_Cons [of "mailbox_of h" x xs]
  show "fst (serve_cycle F h) = Some x \<and> handler_pending (snd (serve_cycle F h)) = xs" by simp
qed (simp_all add: serve_cycle_idle)

lemma serve_cycle_rates:
  assumes "communicationInterface h \<noteq> None"
  shows "requestedFrameRate (snd (serve_cycle F h)) = requestedFrameRate h"
    and "currentFrameRate (snd (serve_cycle F h)) =
      (if fst (serve_cycle F h) = Some SET_FRAME_RATE then requestedFrameRate h else currentFrameRate h)"
  using assms
  by (auto simp: serve_cycle_def buildNormalDeviceCommand_def prepareReply_def Let_def)

lemma take_n_rates:
  assumes "communicationInterface h \<noteq> None"
  shows "requestedFrameRate (snd (take_n (serve_cycle F) n h)) = requestedFrameRate h
    \<and> currentFrameRate (snd (take_n (serve_cycle F) n h)) =
      (if SET_FRAME_RATE \<in> set (take n (handler_pending h)) then requestedFrameRate h else currentFrameRate h)"
  using assms
proof (induction n arbitrary: h)
  case (Suc n)
  let ?h' = "snd (serve_cycle F h)"
  have comm: "communicationInterface ?h' \<noteq> None" using Suc.prems by simp
  note IH = Suc.IH [OF comm]
  show ?case
  proof (cases "handler_pending h")
    case Nil
    with Suc show ?thesis by (simp add: serve_cycle_idle)
  next
    case (Cons x xs)
    with handler_requests.serve_pending [OF Suc.prems Cons, of F] IH serve_cycle_rates [OF Suc.prems, of F]
    show ?thesis by (simp add: split_beta Let_def)
  qed
qed simp

section \<open>Cycles: the order of framework calls\<close>

text \<open>
  A poll: the scan, and the interpretation of the reply it found. The framework interprets a
  reply right after the scan that found it, so the two are one step of the cycle.
\<close>

definition pollReply ::
  "('b, 'm, 'w) device_handler_base \<Rightarrow> 'b WebcamDeviceHandler \<Rightarrow> DeviceCommandId_t option \<times> 'b WebcamDeviceHandler" where
  "pollReply F h =
     (case scanForReply F (Some (NO_COMMAND_ID F)) (Some 0) h of
        (r, found, len, h1) \<Rightarrow>
          if r = OK then (found, (case found of None \<Rightarrow> h1 | Some i \<Rightarrow> snd (interpretDeviceReply F i h1)))
          else (None, h1))"

inductive cycle_step ::
  "('b, 'm, 'w) device_handler_base \<Rightarrow> byte_order \<Rightarrow> 'b WebcamDeviceHandler \<Rightarrow> 'b WebcamDeviceHandler \<Rightarrow> bool"
  for F e where
  start_up: "cycle_step F e h (doStartUp F h)"
| shut_down: "cycle_step F e h (doShutDown F h)"
| fill_maps: "cycle_step F e h (fillCommandAndReplyMap F h)"
| transition: "buildTransitionDeviceCommand F cmd h = (r, cmd', h') \<Longrightarrow> cycle_step F e h h'"
| normal: "buildNormalDeviceCommand F cmd h = (r, cmd', h') \<Longrightarrow> cycle_step F e h h'"
| command: "buildCommandFromCommand e i bs len h = Some (r, h') \<Longrightarrow> cycle_step F e h h'"
| poll: "pollReply F h = (found, h') \<Longrightarrow> cycle_step F e h h'"
| parameter: "getParameter F d p w v k h = (r, w', h') \<Longrightarrow> cycle_step F e h h'"

text \<open>
  The reply slot: it is filled exactly while a reply is ready, then it names one of the three
  commands and the link exists; a snapshot is in progress exactly while its reply is the one
  in the slot; the fabricated packet is always empty.
\<close>

definition handler_inv :: "('b, 'm, 'w) device_handler_base \<Rightarrow> 'b WebcamDeviceHandler \<Rightarrow> bool" where
  "handler_inv F h \<longleftrightarrow>
     (if replyReady h
      then fabricatedReplyId h \<in> {TAKE_SNAPSHOT, SET_FRAME_RATE, GET_FRAME_RATE}
        \<and> communicationInterface h \<noteq> None \<and> rawPacket h = DummyPacket
      else fabricatedReplyId h = NO_COMMAND_ID F)
     \<and> (snapshotInProgress h \<longleftrightarrow> replyReady h \<and> fabricatedReplyId h = TAKE_SNAPSHOT)
     \<and> rawPacketLen h = 0 \<and> length (dummyCommandBuffer h) = 1"

lemma new_handler_inv: "handler_inv F (new_WebcamDeviceHandler F comIF b)"
  by (simp add: handler_inv_def new_WebcamDeviceHandler_def)

lemma handler_inv_base [simp]:
  "handler_inv F (h\<lparr>base := b\<rparr>) = handler_inv F h"
  "handler_inv F (h\<lparr>requestedFrameRate := d\<rparr>) = handler_inv F h"
  "handler_inv F (h\<lparr>infoLog := l\<rparr>) = handler_inv F h"
  "handler_inv F (h\<lparr>transitionCommandPending := p\<rparr>) = handler_inv F h"
  "handler_inv F (h\<lparr>devicePowered := p\<rparr>) = handler_inv F h"
  "handler_inv F (h\<lparr>snapshotRequested := p\<rparr>) = handler_inv F h"
  "handler_inv F (h\<lparr>frameRateCommandPending := p\<rparr>) = handler_inv F h"
  "handler_inv F (h\<lparr>frameRateQueryPending := p\<rparr>) = handler_inv F h"
  by (simp_all add: handler_inv_def)

lemma buildNormalDeviceCommand_inv:
  "buildNormalDeviceCommand F cmd h = (r, cmd', h') \<Longrightarrow> handler_inv F h \<Longrightarrow> handler_inv F h'"
  by (auto simp: buildNormalDeviceCommand_def prepareReply_def Let_def handler_inv_def split: if_splits)

lemma buildCommandFromCommand_inv:
  "buildCommandFromCommand e i bs len h = Some (r, h') \<Longrightarrow> handler_inv F h \<Longrightarrow> handler_inv F h'"
  by (auto simp: buildCommandFromCommand_def Let_def split: if_splits option.splits)

lemma pollReply_inv: "pollReply F h = (found, h') \<Longrightarrow> handler_inv F h \<Longrightarrow> handler_inv F h'"
  by (auto simp: pollReply_def scanForReply_def interpretDeviceReply_def printInfo_def Let_def handler_inv_def
      split: if_splits)

lemma getParameter_inv: "getParameter F d p w v k h = (r, w', h') \<Longrightarrow> handler_inv F h \<Longrightarrow> handler_inv F h'"
  by (auto simp: getParameter_def printInfo_def Let_def split: if_splits option.splits prod.splits)

lemma cycle_step_inv: "cycle_step F e h h' \<Longrightarrow> handler_inv F h \<Longrightarrow> handler_inv F h'"
  by (induction rule: cycle_step.induct)
    (auto simp: doStartUp_def doShutDown_def fillCommandAndReplyMap_def buildTransitionDeviceCommand_def Let_def
      intro: buildNormalDeviceCommand_inv buildCommandFromCommand_inv pollReply_inv getParameter_inv)

interpretation handler_cycles: invariant_system "cycle_step F e" "handler_inv F"
  by unfold_locales (rule cycle_step_inv)

text \<open>The line a reply prints, given the rate in force.\<close>

definition reply_info :: "DeviceCommandId_t \<Rightarrow> double \<Rightarrow> info" where
  "reply_info i rate =
     (if i = TAKE_SNAPSHOT then SnapshotCompleted
      else if i = SET_FRAME_RATE then FrameRateSet rate
      else if i = GET_FRAME_RATE then CurrentFrameRate rate
      else ReplyReceived i)"

lemma pollReply_none: "\<not> replyReady h \<Longrightarrow> pollReply F h = (None, h)"
  by (simp add: pollReply_def scanForReply_def)

lemma pollReply_ready:
  assumes "replyReady h" and "handler_inv F h"
  shows "pollReply F h =
    (Some (fabricatedReplyId h),
     h\<lparr>replyReady := False, snapshotInProgress := False, fabricatedReplyId := NO_COMMAND_ID F,
       infoLog := infoLog h @ [reply_info (fabricatedReplyId h) (currentFrameRate h)]\<rparr>)"
  using assms
  by (auto simp: pollReply_def scanForReply_def interpretDeviceReply_def printInfo_def Let_def
      handler_inv_def reply_info_def)

lemma serve_cycle_reply:
  assumes "communicationInterface h \<noteq> None" and "fst (serve_cycle F h) = Some x"
  shows "replyReady (snd (serve_cycle F h)) \<and> fabricatedReplyId (snd (serve_cycle F h)) = x
    \<and> infoLog (snd (serve_cycle F h)) = infoLog h"
  using assms
  by (auto simp: serve_cycle_def buildNormalDeviceCommand_def prepareReply_def Let_def split: if_splits)

lemma serve_cycle_inv: "handler_inv F h \<Longrightarrow> handler_inv F (snd (serve_cycle F h))"
  by (cases "buildNormalDeviceCommand F (Some (NO_COMMAND_ID F)) h")
    (auto simp: serve_cycle_def dest: buildNormalDeviceCommand_inv)

end
