(* ===== verification/HandlerProperties.thy ===== *)
theory HandlerProperties
  imports WebcamDeviceHandler
begin

text \<open>
  The properties of the webcam device handler, each over the definitions of
  \<open>WebcamDeviceHandler\<close> and proved from its mailbox refinement and its cycle invariant. The
  concrete framework instance \<open>sample_base\<close> serves the witnesses only.
\<close>

section \<open>A concrete instance\<close>

text \<open>Base state: the return values sent to the commander so far. A wrapper is its value.\<close>

definition sample_base :: "(ReturnValue_t list, sample_message, double) device_handler_base" where
  "sample_base =
     \<lparr> NO_COMMAND_ID = 0xFFFFFFFE, MODE_ON = 1, MODE_OFF = 0,
       setMode = (\<lambda>m b. b), insertInCommandAndReplyMap = (\<lambda>i n b. (OK, b)),
       base_getParameter = (\<lambda>d p w v k b. (Code 9, w, b)),
       base_letChildHandleMessage = (\<lambda>m b. (FAILED, m, b)),
       replyReturnvalueToCommand = (\<lambda>r b. b @ [r]),
       wrapper_set = (\<lambda>d w. d), wrapper_getElement = (\<lambda>w. (OK, w)) \<rparr>"

definition sample_handler :: "ReturnValue_t list WebcamDeviceHandler" where
  "sample_handler = new_WebcamDeviceHandler sample_base (Some objectIdWebcamComIF) []"

definition busy_handler :: "ReturnValue_t list WebcamDeviceHandler" where
  "busy_handler = sample_handler\<lparr>snapshotRequested := True, frameRateCommandPending := True,
     frameRateQueryPending := True, requestedFrameRate := 0x4038000000000000\<rparr>"

lemmas sample_defs = sample_base_def sample_handler_def new_WebcamDeviceHandler_def busy_handler_def

lemma sample_handler_link [simp]:
  "communicationInterface sample_handler \<noteq> None" "communicationInterface busy_handler \<noteq> None"
  by (simp_all add: sample_defs)

section \<open>Serving requests\<close>

text \<open>
  C9. Requests are served one per cycle in the fixed priority order snapshot, set rate, get
  rate: \<open>n\<close> cycles hand out exactly the first \<open>n\<close> pending requests and leave the others
  pending, so three cycles always empty the handler.
\<close>

theorem requests_served_in_priority_order:
  assumes "communicationInterface h \<noteq> None"
  shows "fst (take_n (serve_cycle F) n h) = take n (handler_pending h)
    \<and> handler_pending (snd (take_n (serve_cycle F) n h)) = drop n (handler_pending h)
    \<and> handler_pending (snd (take_n (serve_cycle F) (n + 3) h)) = []"
proof -
  have "length (handler_pending h) \<le> 3" by (simp add: mailbox_pending_def)
  then show ?thesis
    by (simp add: handler_requests.take_n_serves [OF assms] handler_requests.take_n_leaves [OF assms])
qed

theorem requests_served_in_priority_order_witness:
  "communicationInterface busy_handler \<noteq> None
   \<and> fst (take_n (serve_cycle sample_base) 2 busy_handler) = [TAKE_SNAPSHOT, SET_FRAME_RATE]"
proof -
  have c: "communicationInterface busy_handler \<noteq> None" by simp
  show ?thesis
    using c requests_served_in_priority_order [OF c, of sample_base 2]
    by (simp add: mailbox_defs sample_defs)
qed

text \<open>
  The request flags implement the abstract mailbox: building a normal command takes the
  mailbox's next request, and is refused, without any change, only when the link or the
  caller's pointer is missing.
\<close>

lemma buildNormalDeviceCommand_refines_mailbox:
  "(case buildNormalDeviceCommand F cmd h of (r, cmd', h') \<Rightarrow>
      if cmd = None \<or> communicationInterface h = None then r = FAILED \<and> cmd' = cmd \<and> h' = h
      else mailbox_take (mailbox_of h) = (if r = OK then cmd' else None, mailbox_of h')
        \<and> (r \<noteq> OK \<longleftrightarrow> handler_pending h = []) \<and> (r \<noteq> OK \<longleftrightarrow> r = NOTHING_TO_SEND \<and> h' = h \<and> cmd' = cmd))"
proof (cases "cmd = None \<or> communicationInterface h = None")
  case True
  then show ?thesis by (auto simp: buildNormalDeviceCommand_def)
next
  case False
  then obtain x where x: "cmd = Some x" and c: "communicationInterface h \<noteq> None" by auto
  obtain r cmd' h' where eq: "buildNormalDeviceCommand F (Some x) h = (r, cmd', h')"
    by (cases "buildNormalDeviceCommand F (Some x) h")
  have "(r \<noteq> OK \<longleftrightarrow> handler_pending h = []) \<and> (r \<noteq> OK \<longleftrightarrow> r = NOTHING_TO_SEND \<and> h' = h \<and> cmd' = Some x)"
    using eq c by (auto simp: buildNormalDeviceCommand_def Let_def mailbox_defs split: if_splits)
  with buildNormalDeviceCommand_take [OF c eq] c eq x show ?thesis by auto
qed

lemma buildNormalDeviceCommand_refines_mailbox_witness:
  "fst (buildNormalDeviceCommand sample_base (Some 0) busy_handler) = OK"
proof -
  have "handler_pending busy_handler \<noteq> []" by (simp add: mailbox_defs sample_defs)
  then show ?thesis
    using buildNormalDeviceCommand_refines_mailbox [where F = sample_base and cmd = "Some 0" and h = busy_handler]
    by (auto split: prod.splits if_splits simp: sample_defs)
qed

text \<open>
  C19. A command with a readable payload never reads out of bounds and posts to the abstract
  mailbox: known commands fill their slot (a set-rate command takes the first eight payload
  bytes as the new rate, and keeps the old one when there are fewer), unknown ones change
  nothing and are rejected.
\<close>

theorem buildCommandFromCommand_refines_mailbox:
  assumes "readable commandData len"
  shows "\<exists>r h'. buildCommandFromCommand e i commandData len h = Some (r, h')
    \<and> mailbox_of h' = mailbox_post i (payload_rate e commandData len) (mailbox_of h)
    \<and> (r = OK \<longleftrightarrow> fst (rawToCommand i (CommandId 0)))
    \<and> (r \<noteq> OK \<longrightarrow> r = COMMAND_NOT_SUPPORTED \<and> h' = h)"
proof -
  from buildCommandFromCommand_defined [OF assms] obtain r h'
    where eq: "buildCommandFromCommand e i commandData len h = Some (r, h')" by fastforce
  have "r = OK \<longleftrightarrow> fst (rawToCommand i (CommandId 0))"
    using buildCommandFromCommand_post(2) [OF eq] by (simp add: rawToCommand_def isValidCommand_def Let_def)
  moreover have "r \<noteq> OK \<longrightarrow> r = COMMAND_NOT_SUPPORTED \<and> h' = h"
    using eq by (auto simp: buildCommandFromCommand_def Let_def split: if_splits option.splits)
  ultimately show ?thesis using eq buildCommandFromCommand_post(1) [OF eq] by blast
qed

theorem buildCommandFromCommand_refines_mailbox_witness:
  "readable (Some (double_bytes Little_Endian 5)) 8
   \<and> (\<exists>r h'. buildCommandFromCommand Little_Endian SET_FRAME_RATE (Some (double_bytes Little_Endian 5)) 8 sample_handler = Some (r, h')
        \<and> requestedFrameRate h' = 5)"
proof -
  have rd: "readable (Some (double_bytes Little_Endian 5)) 8" by (simp add: sizeof_double_def)
  from buildCommandFromCommand_refines_mailbox [OF rd, of Little_Endian SET_FRAME_RATE sample_handler]
  obtain r h' where eq: "buildCommandFromCommand Little_Endian SET_FRAME_RATE (Some (double_bytes Little_Endian 5)) 8 sample_handler = Some (r, h')"
    and mb: "mailbox_of h' = mailbox_post SET_FRAME_RATE (payload_rate Little_Endian (Some (double_bytes Little_Endian 5)) 8) (mailbox_of sample_handler)"
    by blast
  have "take sizeof_double (double_bytes Little_Endian 5) = double_bytes Little_Endian 5" by simp
  with mb have "requestedFrameRate h' = 5"
    by (simp add: mailbox_post_def mailbox_of_def payload_rate_def sizeof_double_def)
  with rd eq show ?thesis by blast
qed

section \<open>The frame rate\<close>

text \<open>Posting a sequence of set-rate commands.\<close>

primrec postRates :: "byte_order \<Rightarrow> double list \<Rightarrow> 'b WebcamDeviceHandler \<Rightarrow> 'b WebcamDeviceHandler cxx" where
  "postRates e [] h = Some h"
| "postRates e (d # ds) h =
     (case buildCommandFromCommand e SET_FRAME_RATE (Some (double_bytes e d)) sizeof_double h of
        None \<Rightarrow> None
      | Some (r, h') \<Rightarrow> postRates e ds h')"

lemma buildCommandFromCommand_rate:
  "buildCommandFromCommand e SET_FRAME_RATE (Some (double_bytes e d)) sizeof_double h =
     Some (OK, h\<lparr>requestedFrameRate := d, frameRateCommandPending := True\<rparr>)"
proof -
  have "take sizeof_double (double_bytes e d) = double_bytes e d" by simp
  then show ?thesis by (simp add: buildCommandFromCommand_def Let_def)
qed

lemma postRates_last:
  "postRates e ds h = Some (if ds = [] then h else h\<lparr>requestedFrameRate := last ds, frameRateCommandPending := True\<rparr>)"
  by (induction ds arbitrary: h) (simp_all add: buildCommandFromCommand_rate)

text \<open>
  The last rate wins: after any sequence of set-rate commands, the rate in force once the
  request has been served is the last one commanded, the others being merged into a single
  device command; further cycles keep it.
\<close>

lemma last_commanded_rate_wins:
  assumes "communicationInterface h \<noteq> None" and "ds \<noteq> []" and "2 \<le> n"
  shows "\<exists>h'. postRates e ds h = Some h'
    \<and> currentFrameRate (snd (take_n (serve_cycle F) n h')) = last ds
    \<and> count_list (fst (take_n (serve_cycle F) n h')) SET_FRAME_RATE = 1"
proof -
  let ?h = "h\<lparr>requestedFrameRate := last ds, frameRateCommandPending := True\<rparr>"
  have c: "communicationInterface ?h \<noteq> None" using assms by simp
  have two: "take 2 (handler_pending ?h) = (if snapshotRequested h then [TAKE_SNAPSHOT, SET_FRAME_RATE]
      else SET_FRAME_RATE # take 1 (if frameRateQueryPending h then [GET_FRAME_RATE] else []))"
    by (simp add: mailbox_defs)
  have "SET_FRAME_RATE \<in> set (take 2 (handler_pending ?h))" by (simp add: two)
  then have "SET_FRAME_RATE \<in> set (take n (handler_pending ?h))"
    using assms(3) set_take_subset_set_take [of 2 n "handler_pending ?h"] by blast
  moreover have "count_list (take n (handler_pending ?h)) SET_FRAME_RATE = 1"
    using assms(3) by (auto simp: mailbox_defs take_Cons split: nat.splits)
  ultimately show ?thesis
    using take_n_rates [OF c, of F n] handler_requests.take_n_serves [OF c, of F n] assms(2)
    by (simp add: postRates_last)
qed

lemma last_commanded_rate_wins_witness:
  "communicationInterface busy_handler \<noteq> None
   \<and> (\<exists>h'. postRates Big_Endian [1, 2, 3] busy_handler = Some h'
       \<and> currentFrameRate (snd (take_n (serve_cycle sample_base) 2 h')) = 3)"
proof -
  have c: "communicationInterface busy_handler \<noteq> None" by simp
  show ?thesis
    using c last_commanded_rate_wins [OF c, of "[1, 2, 3]" 2 Big_Endian sample_base] by auto
qed

text \<open>
  A parameter write only stages a rate: it changes neither the rate in force nor any
  request flag, so no number of cycles applies it, until a set-rate command without a payload
  does.
\<close>

lemma parameter_write_is_staged:
  assumes "communicationInterface h \<noteq> None" and "\<not> frameRateCommandPending h"
    and "wrapper_getElement F v = (OK, d)"
    and "getParameter F 0 PARAM_FRAME_RATE w (Some v) 0 h = (r, w', h1)"
    and "buildCommandFromCommand e SET_FRAME_RATE None 0 h1 = Some (r2, h2)"
  shows "r = OK \<and> w' = w
    \<and> currentFrameRate (snd (take_n (serve_cycle F) n h1)) = currentFrameRate h
    \<and> currentFrameRate (snd (take_n (serve_cycle F) (n + 2) h2)) = d"
proof -
  have r: "r = OK" "w' = w" and h1: "h1 = printInfo (ParameterWrite d) (h\<lparr>requestedFrameRate := d\<rparr>)"
    using assms(3,4) by (auto simp: getParameter_def Let_def)
  have h2: "h2 = h1\<lparr>frameRateCommandPending := True\<rparr>"
    using assms(5) by (simp add: buildCommandFromCommand_def Let_def)
  have c: "communicationInterface h1 \<noteq> None" "communicationInterface h2 \<noteq> None"
    using assms(1) by (simp_all add: h1 h2 printInfo_def)
  have "SET_FRAME_RATE \<notin> set (take n (handler_pending h1))"
    using assms(2) by (auto simp: h1 mailbox_defs printInfo_def dest: in_set_takeD)
  moreover have "SET_FRAME_RATE \<in> set (take (n + 2) (handler_pending h2))"
    by (simp add: h2 mailbox_defs)
  ultimately show ?thesis
    using take_n_rates [OF c(1), of F n] take_n_rates [OF c(2), of F "n + 2"] r
    by (simp add: h1 h2 printInfo_def)
qed

lemma parameter_write_is_staged_witness:
  "\<exists>h1 h2. getParameter sample_base 0 PARAM_FRAME_RATE None (Some 7) 0 sample_handler = (OK, None, h1)
     \<and> buildCommandFromCommand Little_Endian SET_FRAME_RATE None 0 h1 = Some (OK, h2)
     \<and> currentFrameRate (snd (take_n (serve_cycle sample_base) 5 h1)) = 0
     \<and> currentFrameRate (snd (take_n (serve_cycle sample_base) 7 h2)) = 7"
proof -
  let ?h1 = "printInfo (ParameterWrite 7) (sample_handler\<lparr>requestedFrameRate := 7\<rparr>)"
  have p: "getParameter sample_base 0 PARAM_FRAME_RATE None (Some 7) 0 sample_handler = (OK, None, ?h1)"
    by (simp add: getParameter_def Let_def sample_base_def)
  have b: "buildCommandFromCommand Little_Endian SET_FRAME_RATE None 0 ?h1 = Some (OK, ?h1\<lparr>frameRateCommandPending := True\<rparr>)"
    by (simp add: buildCommandFromCommand_def Let_def)
  have g: "wrapper_getElement sample_base 7 = (OK, 7)" and n: "\<not> frameRateCommandPending sample_handler"
    and z: "currentFrameRate sample_handler = 0"
    by (simp_all add: sample_defs)
  from parameter_write_is_staged [OF sample_handler_link(1) n g p b, of 5] p b z show ?thesis by auto
qed

section \<open>Replies\<close>






lemma cycle_step_link: "cycle_step F e h h' \<Longrightarrow> communicationInterface h' = communicationInterface h"
  by (induction rule: cycle_step.induct)
    (auto simp: handler_entry_defs pollReply_def fillCommandAndReplyMap_def Let_def
      split: if_splits option.splits prod.splits)

lemma reachable_link:
  "reachable_from (cycle_step F e) h h' \<Longrightarrow> communicationInterface h' = communicationInterface h"
  by (induction rule: reachable_from.induct) (simp_all add: cycle_step_link)

text \<open>
  Without a communication interface nothing is ever sent or answered: in every reachable
  state no reply is ready, and building a command fails without changing the handler.
\<close>

lemma no_link_no_traffic:
  assumes "reachable_from (cycle_step F e) (new_WebcamDeviceHandler F None b) h"
  shows "\<not> replyReady h \<and> pollReply F h = (None, h) \<and> buildNormalDeviceCommand F cmd h = (FAILED, cmd, h)"
proof -
  from assms have "handler_inv F h"
    using new_handler_inv by (rule handler_cycles.reachable_inv)
  moreover from assms have "communicationInterface h = None"
    using reachable_link [OF assms] by (simp add: new_WebcamDeviceHandler_def)
  ultimately have "\<not> replyReady h" by (auto simp: handler_inv_def)
  with \<open>communicationInterface h = None\<close> show ?thesis
    by (simp add: pollReply_none buildNormalDeviceCommand_def)
qed

lemma no_link_no_traffic_witness:
  "buildNormalDeviceCommand sample_base (Some 0) (doStartUp sample_base (new_WebcamDeviceHandler sample_base None []))
   = (FAILED, Some 0, doStartUp sample_base (new_WebcamDeviceHandler sample_base None []))"
proof -
  have "reachable_from (cycle_step sample_base Little_Endian) (new_WebcamDeviceHandler sample_base None [])
      (doStartUp sample_base (new_WebcamDeviceHandler sample_base None []))"
    by (rule reach_step, rule reach_start, rule start_up)
  from no_link_no_traffic [OF this] show ?thesis by blast
qed



end
