(* ===== verification/DutyCycles.thy ===== *)
theory DutyCycles
  imports HandlerProperties
begin

text \<open>
  The handler over whole periods of its task: in each period at most one request is handed out
  and its reply is polled. Shows what the handler prints over a session, that a lower-priority
  request can be kept waiting for ever, and what a shutdown leaves behind.
\<close>

section \<open>One period\<close>

definition duty_cycle ::
  "('b, 'm, 'w) device_handler_base \<Rightarrow> 'b WebcamDeviceHandler \<Rightarrow> DeviceCommandId_t option \<times> 'b WebcamDeviceHandler" where
  "duty_cycle F h = pollReply F (snd (serve_cycle F h))"

text \<open>Between periods no reply is waiting.\<close>

definition between_cycles :: "('b, 'm, 'w) device_handler_base \<Rightarrow> 'b WebcamDeviceHandler \<Rightarrow> bool" where
  "between_cycles F h \<longleftrightarrow> communicationInterface h \<noteq> None \<and> handler_inv F h \<and> \<not> replyReady h"

text \<open>The rate that the replies to the requests now pending print.\<close>

definition upcoming_rate :: "'b WebcamDeviceHandler \<Rightarrow> double" where
  "upcoming_rate h = (if frameRateCommandPending h then requestedFrameRate h else currentFrameRate h)"

lemma upcoming_rate_mailbox:
  "upcoming_rate h = (if mb_rate (mailbox_of h) then mb_requested (mailbox_of h) else mb_current (mailbox_of h))"
  by (simp add: upcoming_rate_def mailbox_of_def)

lemma upcoming_rate_frame [simp]:
  "upcoming_rate (h\<lparr>replyReady := b\<rparr>) = upcoming_rate h"
  "upcoming_rate (h\<lparr>snapshotInProgress := b\<rparr>) = upcoming_rate h"
  "upcoming_rate (h\<lparr>fabricatedReplyId := i\<rparr>) = upcoming_rate h"
  "upcoming_rate (h\<lparr>infoLog := l\<rparr>) = upcoming_rate h"
  by (simp_all add: upcoming_rate_def)

lemma duty_cycle_idle:
  assumes "between_cycles F h" and "handler_pending h = []"
  shows "duty_cycle F h = (None, h)"
  using assms by (simp add: duty_cycle_def between_cycles_def serve_cycle_idle pollReply_none)

lemma mailbox_take_upcoming:
  assumes "mailbox_pending mb = x # xs"
  shows "(let mb' = snd (mailbox_take mb) in if mb_rate mb' then mb_requested mb' else mb_current mb') =
    (if mb_rate mb then mb_requested mb else mb_current mb)"
  using assms by (auto simp: mailbox_take_def mailbox_pending_def Let_def split: if_splits)

lemma serve_cycle_upcoming:
  assumes "communicationInterface h \<noteq> None" and "handler_pending h = x # xs"
  shows "upcoming_rate (snd (serve_cycle F h)) = upcoming_rate h"
    and "reply_info x (currentFrameRate (snd (serve_cycle F h))) = reply_info x (upcoming_rate h)"
proof -
  have fst: "fst (serve_cycle F h) = Some x"
    using handler_requests.serve_pending [OF assms, of F] by simp
  show "upcoming_rate (snd (serve_cycle F h)) = upcoming_rate h"
    using serve_cycle_take [OF assms(1), of F] mailbox_take_upcoming [OF assms(2)]
    by (simp add: upcoming_rate_mailbox Let_def split del: if_split)
  show "reply_info x (currentFrameRate (snd (serve_cycle F h))) = reply_info x (upcoming_rate h)"
    using serve_cycle_rates(2) [OF assms(1), of F] fst assms(2)
    by (auto simp: reply_info_def upcoming_rate_def mailbox_defs split: if_splits)
qed

lemma duty_cycle_serves:
  assumes "between_cycles F h" and "handler_pending h = x # xs"
  shows "fst (duty_cycle F h) = Some x" and "handler_pending (snd (duty_cycle F h)) = xs"
    and "between_cycles F (snd (duty_cycle F h))"
    and "infoLog (snd (duty_cycle F h)) = infoLog h @ [reply_info x (upcoming_rate h)]"
    and "upcoming_rate (snd (duty_cycle F h)) = upcoming_rate h"
proof -
  have c: "communicationInterface h \<noteq> None" and inv: "handler_inv F h"
    using assms(1) by (simp_all add: between_cycles_def)
  let ?h1 = "snd (serve_cycle F h)"
  have s: "fst (serve_cycle F h) = Some x" "handler_pending ?h1 = xs"
    using handler_requests.serve_pending [OF c assms(2), of F] by simp_all
  note rep = serve_cycle_reply [OF c s(1)] and up = serve_cycle_upcoming [OF c assms(2), of F]
  have eq: "duty_cycle F h = (Some x, ?h1\<lparr>replyReady := False, snapshotInProgress := False,
      fabricatedReplyId := NO_COMMAND_ID F, infoLog := infoLog h @ [reply_info x (upcoming_rate h)]\<rparr>)"
    using pollReply_ready [OF _ serve_cycle_inv [OF inv]] rep up(2) by (simp add: duty_cycle_def)
  have inv': "handler_inv F (snd (duty_cycle F h))"
    unfolding duty_cycle_def by (rule pollReply_inv [OF prod.collapse [symmetric] serve_cycle_inv [OF inv]])
  show "fst (duty_cycle F h) = Some x" by (simp add: eq)
  show "handler_pending (snd (duty_cycle F h)) = xs" using s(2) by (simp add: eq mailbox_defs)
  show "between_cycles F (snd (duty_cycle F h))" using c inv' by (simp add: eq between_cycles_def)
  show "infoLog (snd (duty_cycle F h)) = infoLog h @ [reply_info x (upcoming_rate h)]" by (simp add: eq)
  show "upcoming_rate (snd (duty_cycle F h)) = upcoming_rate h" using up(1) by (simp add: eq)
qed

lemma duty_cycle_between: "between_cycles F h \<Longrightarrow> between_cycles F (snd (duty_cycle F h))"
  by (cases "handler_pending h") (simp_all add: duty_cycle_idle duty_cycle_serves)

text \<open>Periods are a source of work too: what they hand out is what gets its reply.\<close>

interpretation duty: work_source "duty_cycle F" handler_pending "between_cycles F"
  by unfold_locales (simp_all add: duty_cycle_serves duty_cycle_idle duty_cycle_between)

section \<open>What a session prints\<close>

lemma take_n_log:
  assumes "between_cycles F h"
  shows "infoLog (snd (take_n (duty_cycle F) n h)) =
    infoLog h @ map (\<lambda>x. reply_info x (upcoming_rate h)) (take n (handler_pending h))"
  using assms
proof (induction n arbitrary: h)
  case (Suc n)
  show ?case
  proof (cases "handler_pending h")
    case Nil
    with Suc.prems show ?thesis by (simp add: duty_cycle_idle duty.take_n_idle)
  next
    case (Cons x xs)
    note sv = duty_cycle_serves [OF Suc.prems Cons]
    show ?thesis using Suc.IH [OF sv(3)] Cons by (simp add: split_beta Let_def sv)
  qed
qed simp

lemma take_n_upcoming:
  assumes "between_cycles F h"
  shows "upcoming_rate (snd (take_n (duty_cycle F) n h)) = upcoming_rate h"
  using assms
proof (induction n arbitrary: h)
  case (Suc n)
  show ?case
  proof (cases "handler_pending h")
    case Nil
    with Suc.prems show ?thesis by (simp add: duty_cycle_idle duty.take_n_idle)
  next
    case (Cons x xs)
    note sv = duty_cycle_serves [OF Suc.prems Cons]
    show ?thesis using Suc.IH [OF sv(3)] by (simp add: split_beta Let_def sv)
  qed
qed simp

text \<open>
  C10. What a session prints: over \<open>n\<close> periods the handler prints exactly one line for each of
  the first \<open>n\<close> pending requests, in priority order; both rate lines show the last rate
  requested if a set-rate command is pending, so a query queued together with a set never
  prints the old rate.
\<close>

theorem session_prints_one_line_per_request:
  assumes "communicationInterface h \<noteq> None" and "handler_inv F h" and "\<not> replyReady h"
  shows "infoLog (snd (take_n (duty_cycle F) n h)) =
      infoLog h @ map (\<lambda>x. reply_info x (if frameRateCommandPending h then requestedFrameRate h else currentFrameRate h))
        (take n (handler_pending h))
    \<and> fst (take_n (duty_cycle F) n h) = take n (handler_pending h)"
proof -
  have b: "between_cycles F h" using assms by (simp add: between_cycles_def)
  show ?thesis using take_n_log [OF b, of n] by (simp add: duty.take_n_serves [OF b] upcoming_rate_def)
qed

theorem session_prints_one_line_per_request_witness:
  "infoLog (snd (take_n (duty_cycle sample_base) 5 busy_handler)) =
     [SnapshotCompleted, FrameRateSet 0x4038000000000000, CurrentFrameRate 0x4038000000000000]"
proof -
  have "communicationInterface busy_handler \<noteq> None" "handler_inv sample_base busy_handler" "\<not> replyReady busy_handler"
    by (simp_all add: sample_defs handler_inv_def)
  from session_prints_one_line_per_request [OF this, of 5] show ?thesis
    by (simp add: sample_defs mailbox_defs reply_info_def)
qed

section \<open>Starvation\<close>

text \<open>A commander that asks for a snapshot before every period.\<close>

primrec snapshot_every_period ::
  "('b, 'm, 'w) device_handler_base \<Rightarrow> byte_order \<Rightarrow> nat \<Rightarrow> 'b WebcamDeviceHandler \<Rightarrow> 'b WebcamDeviceHandler cxx" where
  "snapshot_every_period F e 0 h = Some h"
| "snapshot_every_period F e (Suc n) h =
     (case buildCommandFromCommand e TAKE_SNAPSHOT None 0 h of
        None \<Rightarrow> None
      | Some (r, h') \<Rightarrow> snapshot_every_period F e n (snd (duty_cycle F h')))"

lemma buildCommandFromCommand_snapshot:
  "buildCommandFromCommand e TAKE_SNAPSHOT d len h = Some (OK, h\<lparr>snapshotRequested := True\<rparr>)"
  by (simp add: buildCommandFromCommand_def Let_def)

lemma duty_cycle_snapshot_frame:
  assumes "between_cycles F h" and "snapshotRequested h"
  shows "mailbox_of (snd (duty_cycle F h)) = (mailbox_of h)\<lparr>mb_snapshot := False\<rparr>"
proof -
  have c: "communicationInterface h \<noteq> None" and inv: "handler_inv F h"
    using assms(1) by (simp_all add: between_cycles_def)
  have m: "mailbox_of (snd (serve_cycle F h)) = (mailbox_of h)\<lparr>mb_snapshot := False\<rparr>"
    using assms(2) serve_cycle_take [OF c, of F] by (simp add: mailbox_defs)
  have "mailbox_of (snd (pollReply F k)) = mailbox_of k" if "handler_inv F k" for k
    using that by (cases "replyReady k") (simp_all add: pollReply_ready pollReply_none mailbox_of_def)
  with m serve_cycle_inv [OF inv] show ?thesis by (simp add: duty_cycle_def)
qed

text \<open>
  C20. The priority order can starve the other requests: while a snapshot is requested before
  every period, a pending set-rate or get-rate request stays pending and the rate in force does
  not change, for any number of periods, although each period serves a request.
\<close>

theorem snapshots_starve_other_requests:
  assumes "communicationInterface h \<noteq> None" and "handler_inv F h" and "\<not> replyReady h"
  shows "\<exists>h'. snapshot_every_period F e n h = Some h'
    \<and> frameRateCommandPending h' = frameRateCommandPending h
    \<and> frameRateQueryPending h' = frameRateQueryPending h
    \<and> currentFrameRate h' = currentFrameRate h
    \<and> length (infoLog h') = length (infoLog h) + n"
proof -
  have "between_cycles F h \<Longrightarrow> \<exists>h'. snapshot_every_period F e n h = Some h'
      \<and> mailbox_of h' = (mailbox_of h)\<lparr>mb_snapshot := if n = 0 then snapshotRequested h else False\<rparr>
      \<and> length (infoLog h') = length (infoLog h) + n"
  proof (induction n arbitrary: h)
    case 0
    then show ?case by (simp add: mailbox_of_def)
  next
    case (Suc n)
    let ?h1 = "h\<lparr>snapshotRequested := True\<rparr>"
    let ?h2 = "snd (duty_cycle F ?h1)"
    have b1: "between_cycles F ?h1" using Suc.prems by (simp add: between_cycles_def)
    have m2: "mailbox_of ?h2 = (mailbox_of h)\<lparr>mb_snapshot := False\<rparr>"
      using duty_cycle_snapshot_frame [OF b1] by (simp add: mailbox_of_def)
    obtain xs where p: "handler_pending ?h1 = TAKE_SNAPSHOT # xs" by (simp add: mailbox_defs)
    note sv = duty_cycle_serves [OF b1 p]
    from Suc.IH [OF sv(3)] m2 show ?case
      by (auto simp: buildCommandFromCommand_snapshot sv(4) mailbox_of_def split: if_splits)
  qed
  with assms show ?thesis by (auto simp: between_cycles_def mailbox_of_def)
qed

theorem snapshots_starve_other_requests_witness:
  "\<exists>h'. snapshot_every_period sample_base Little_Endian 100 busy_handler = Some h' \<and> frameRateCommandPending h'
     \<and> currentFrameRate h' = 0"
proof -
  have "communicationInterface busy_handler \<noteq> None" "handler_inv sample_base busy_handler" "\<not> replyReady busy_handler"
    "frameRateCommandPending busy_handler" "currentFrameRate busy_handler = 0"
    by (simp_all add: sample_defs handler_inv_def)
  with snapshots_starve_other_requests [of busy_handler sample_base Little_Endian 100] show ?thesis by auto
qed

section \<open>Power cycles\<close>

text \<open>Shutdown, the transition command of the switch-off, start-up, the transition of the switch-on.\<close>

definition power_cycle :: "('b, 'm, 'w) device_handler_base \<Rightarrow> 'b WebcamDeviceHandler \<Rightarrow> 'b WebcamDeviceHandler" where
  "power_cycle F h =
     (let h1 = snd (snd (buildTransitionDeviceCommand F None (doShutDown F h)))
      in snd (snd (buildTransitionDeviceCommand F None (doStartUp F h1))))"

lemma power_cycle_frame:
  "mailbox_of (power_cycle F h) = mailbox_of h" "infoLog (power_cycle F h) = infoLog h"
  "upcoming_rate (power_cycle F h) = upcoming_rate h"
  "between_cycles F h \<Longrightarrow> between_cycles F (power_cycle F h)"
  by (simp_all add: power_cycle_def buildTransitionDeviceCommand_def doStartUp_def doShutDown_def Let_def
      mailbox_of_def upcoming_rate_def between_cycles_def)

text \<open>
  C21. A power cycle forgets nothing: requests posted before a shutdown are still pending after
  the next start-up, and the following periods serve them and print the same lines as if the
  device had never been switched off.
\<close>

theorem power_cycle_keeps_requests:
  assumes "communicationInterface h \<noteq> None" and "handler_inv F h" and "\<not> replyReady h"
  shows "fst (take_n (duty_cycle F) n (power_cycle F h)) = take n (handler_pending h)
    \<and> infoLog (snd (take_n (duty_cycle F) n (power_cycle F h))) = infoLog (snd (take_n (duty_cycle F) n h))
    \<and> requestedFrameRate (power_cycle F h) = requestedFrameRate h \<and> currentFrameRate (power_cycle F h) = currentFrameRate h"
proof -
  have b: "between_cycles F h" using assms by (simp add: between_cycles_def)
  note b' = power_cycle_frame(4) [OF b]
  have "requestedFrameRate (power_cycle F h) = requestedFrameRate h \<and> currentFrameRate (power_cycle F h) = currentFrameRate h"
    using power_cycle_frame(1) [of F h] by (simp add: mailbox_of_def)
  then show ?thesis
    by (simp add: duty.take_n_serves [OF b'] take_n_log [OF b] take_n_log [OF b'] power_cycle_frame)
qed

theorem power_cycle_keeps_requests_witness:
  "fst (take_n (duty_cycle sample_base) 3 (power_cycle sample_base busy_handler)) = [TAKE_SNAPSHOT, SET_FRAME_RATE, GET_FRAME_RATE]"
proof -
  have "communicationInterface busy_handler \<noteq> None" "handler_inv sample_base busy_handler" "\<not> replyReady busy_handler"
    by (simp_all add: sample_defs handler_inv_def)
  from power_cycle_keeps_requests [OF this, of 3] show ?thesis
    by (simp add: sample_defs mailbox_defs)
qed

end
