(* ===== verification/WebcamCommandingService.thy ===== *)
theory WebcamCommandingService
  imports WebcamDefinitions FsfwInterface
begin

text \<open>
  The PUS commanding service of the webcam (\<^verbatim>\<open>mission/tmtc/WebcamCommandingService\<close>): it
  validates telecommands, turns them into messages for the device handler (putting a payload
  into the IPC store), and turns the handler's replies into telemetry (freeing the store).

  State: the pointer to the IPC store with the store behind it, the telemetry channel that
  \<^verbatim>\<open>sendTmPacket\<close> feeds, and the error lines printed. \<^verbatim>\<open>CommandingServiceBase\<close>, the object
  manager and the IPC store are arguments.
\<close>

section \<open>Configuration and state\<close>

definition WEBCAM_PARAMETER_DOMAIN :: uint8 where [id_defs]:
  "WEBCAM_PARAMETER_DOMAIN = 0"

definition APID :: uint16 where [id_defs]:
  "APID = 0x01"

definition SERVICE_ID :: uint8 where [id_defs]:
  "SERVICE_ID = 200"

definition FSFW_CSB_FIFO_DEPTH :: uint8 where [id_defs]:
  "FSFW_CSB_FIFO_DEPTH = 6"

datatype Subservice = Subservice (subserviceRaw: uint8)

definition COMMAND_TAKE_SNAPSHOT :: Subservice where
  "COMMAND_TAKE_SNAPSHOT = Subservice 1"

definition COMMAND_SET_FRAME_RATE :: Subservice where
  "COMMAND_SET_FRAME_RATE = Subservice 2"

definition COMMAND_GET_FRAME_RATE :: Subservice where
  "COMMAND_GET_FRAME_RATE = Subservice 3"

definition PARAMETER_DUMP :: Subservice where
  "PARAMETER_DUMP = Subservice 4"

definition TM_PARAMETER_DUMP :: Subservice where
  "TM_PARAMETER_DUMP = Subservice 130"

definition TM_COMMAND_DATA_REPLY :: Subservice where
  "TM_COMMAND_DATA_REPLY = Subservice 131"

lemmas subservice_defs =
  COMMAND_TAKE_SNAPSHOT_def COMMAND_SET_FRAME_RATE_def COMMAND_GET_FRAME_RATE_def
  PARAMETER_DUMP_def TM_PARAMETER_DUMP_def TM_COMMAND_DATA_REPLY_def

text \<open>What the constructor passes to the base class; \<open>'r\<close> is the type of reporters.\<close>

record 'r service_config =
  svcObjectId :: object_id_t
  svcApid :: uint16
  svcServiceId :: uint8
  svcParallelCommands :: uint8
  svcCommandTimeout :: uint16
  svcQueueDepth :: nat
  svcReporter :: "'r option"

definition new_WebcamCommandingService :: "object_id_t \<Rightarrow> 'r option \<Rightarrow> 'r service_config" where
  "new_WebcamCommandingService objectId reporter =
     \<lparr>svcObjectId = objectId, svcApid = APID, svcServiceId = SERVICE_ID,
      svcParallelCommands = FSFW_CSB_FIFO_DEPTH, svcCommandTimeout = 60, svcQueueDepth = 20,
      svcReporter = reporter\<rparr>"

text \<open>Lines printed through \<^verbatim>\<open>sif::printError\<close>.\<close>

datatype error_line =
    BaseInitFailed ReturnValue_t
  | InitStoreUnavailable
  | CommandStoreUnavailable
  | ActionStoreUnavailable
  | ParameterStoreUnavailable

record ('s, 't) WebcamCommandingService =
  ipcStore :: "'s option"
  tmChannel :: 't
  errorLog :: "error_line list"

text \<open>The content of the telemetry packets the service sends.\<close>

datatype tm_content =
    DataReply object_id_t ActionId_t "uint8 list" uint16
  | ParameterDumpReply object_id_t ParameterId_t "uint8 list" nat

definition printError :: "error_line \<Rightarrow> ('s, 't) WebcamCommandingService \<Rightarrow> ('s, 't) WebcamCommandingService" where
  "printError l st = st\<lparr>errorLog := errorLog st @ [l]\<rparr>"

section \<open>Initialisation and addressing\<close>

text \<open>\<open>baseInitialize\<close> is \<^verbatim>\<open>CommandingServiceBase::initialize\<close>, which looks the store up.\<close>

definition initialize ::
  "(('s, 't) WebcamCommandingService \<Rightarrow> ReturnValue_t \<times> ('s, 't) WebcamCommandingService) \<Rightarrow>
   ('s, 't) WebcamCommandingService \<Rightarrow> ReturnValue_t \<times> ('s, 't) WebcamCommandingService" where
  "initialize baseInitialize st =
     (case baseInitialize st of
        (result, st') \<Rightarrow>
          if result \<noteq> OK then (result, printError (BaseInitFailed result) st')
          else if ipcStore st' = None then (FAILED, printError InitStoreUnavailable st')
          else (OK, st'))"

definition isValidSubservice :: "uint8 \<Rightarrow> ReturnValue_t" where
  "isValidSubservice subservice =
     (if Subservice subservice \<in> {COMMAND_TAKE_SNAPSHOT, COMMAND_SET_FRAME_RATE, COMMAND_GET_FRAME_RATE, PARAMETER_DUMP}
      then OK else TC_INVALID_SUBSERVICE)"

text \<open>
  The two object-manager lookups are arguments: the command queue of the object with the given
  id if it has the requested interface. \<open>qid\<close> and \<open>objectId\<close> are the caller's variables.
\<close>

definition getMessageQueueAndObject ::
  "(object_id_t \<Rightarrow> MessageQueueId_t option) \<Rightarrow> (object_id_t \<Rightarrow> MessageQueueId_t option) \<Rightarrow>
   uint8 \<Rightarrow> MessageQueueId_t \<Rightarrow> object_id_t \<Rightarrow> ReturnValue_t \<times> MessageQueueId_t \<times> object_id_t" where
  "getMessageQueueAndObject getDeviceHandler getParameterReceiver subservice qid objectId =
     (let objectId' = objectIdWebcamHandler
      in if Subservice subservice \<in> {COMMAND_TAKE_SNAPSHOT, COMMAND_SET_FRAME_RATE, COMMAND_GET_FRAME_RATE} then
           (case getDeviceHandler objectId' of
              None \<Rightarrow> (INVALID_OBJECT, qid, objectId')
            | Some q \<Rightarrow> (OK, q, objectId'))
         else if Subservice subservice = PARAMETER_DUMP then
           (case getParameterReceiver objectId' of
              None \<Rightarrow> (INVALID_OBJECT, qid, objectId')
            | Some q \<Rightarrow> (OK, q, objectId'))
         else (INVALID_TC, qid, objectId'))"

section \<open>Telecommand to message\<close>

text \<open>
  The common tail of \<^verbatim>\<open>prepareDeviceCommand\<close>, after the payload has been checked and copied:
  \<open>payload\<close> is the first \<^verbatim>\<open>parameterSize\<close> bytes of \<^verbatim>\<open>parameterBuffer\<close>.
\<close>

definition storeDeviceCommand ::
  "'m message_if \<Rightarrow> 's storage_if \<Rightarrow> 'm \<Rightarrow> CommandId \<Rightarrow> uint8 list \<Rightarrow>
   ('s, 't) WebcamCommandingService \<Rightarrow> ReturnValue_t \<times> 'm \<times> ('s, 't) WebcamCommandingService" where
  "storeDeviceCommand M S message command payload st =
     (case ipcStore st of
        None \<Rightarrow> (FAILED, message, printError CommandStoreUnavailable st)
      | Some s \<Rightarrow>
          (case getFreeElement S (length payload) s of
             (result, storeId, s1) \<Rightarrow>
               if result \<noteq> OK then (result, message, st\<lparr>ipcStore := Some s1\<rparr>)
               else
                 (let s2 = (if length payload > 0 then writeElement S storeId payload s1 else s1);
                      rawCommand = commandToRaw command;
                      messageId = makeCommandId M (DEVICE_HANDLER_COMMAND M) (ucast rawCommand)
                  in (OK, setMsgParameter M storeId (setCommand M messageId message),
                      st\<lparr>ipcStore := Some s2\<rparr>))))"

definition prepareDeviceCommand ::
  "'m message_if \<Rightarrow> 's storage_if \<Rightarrow> 'm \<Rightarrow> CommandId \<Rightarrow> uint8 list option \<Rightarrow> nat \<Rightarrow>
   ('s, 't) WebcamCommandingService \<Rightarrow> (ReturnValue_t \<times> 'm \<times> ('s, 't) WebcamCommandingService) cxx" where
  "prepareDeviceCommand M S message command tcData tcDataLen st =
     (if command = commandTakeSnapshot \<or> command = commandGetFrameRate then
        (if tcDataLen \<noteq> 0 then Some (INVALID_TC, message, st)
         else Some (storeDeviceCommand M S message command [] st))
      else if command = commandSetFrameRate then
        (if tcDataLen \<noteq> sizeof_double \<or> tcData = None then Some (INVALID_TC, message, st)
         else (case memcpy_from tcData sizeof_double of
                 None \<Rightarrow> None
               | Some parameterBuffer \<Rightarrow> Some (storeDeviceCommand M S message command parameterBuffer st)))
      else Some (INVALID_TC, message, st))"

definition prepareParameterDump ::
  "'m message_if \<Rightarrow> 'm \<Rightarrow> uint8 list option \<Rightarrow> nat \<Rightarrow> (ReturnValue_t \<times> 'm) cxx" where
  "prepareParameterDump M message tcData tcDataLen =
     (let dump = (\<lambda>parameterRaw.
            (OK, param_setDumpCommand M (getFullParameterId M WEBCAM_PARAMETER_DOMAIN parameterRaw 0) message))
      in if tcDataLen > 0 then
           (if tcDataLen \<noteq> 1 \<or> tcData = None then Some (INVALID_TC, message)
            else (case tcData of Some (b # _) \<Rightarrow> Some (dump b) | _ \<Rightarrow> None))
         else Some (dump PARAM_FRAME_RATE))"

definition prepareCommand ::
  "'m message_if \<Rightarrow> 's storage_if \<Rightarrow> 'm \<Rightarrow> uint8 \<Rightarrow> uint8 list option \<Rightarrow> nat \<Rightarrow>
   ('s, 't) WebcamCommandingService \<Rightarrow> (ReturnValue_t \<times> 'm \<times> ('s, 't) WebcamCommandingService) cxx" where
  "prepareCommand M S message subservice tcData tcDataLen st =
     (if Subservice subservice = COMMAND_TAKE_SNAPSHOT then
        prepareDeviceCommand M S message commandTakeSnapshot tcData tcDataLen st
      else if Subservice subservice = COMMAND_SET_FRAME_RATE then
        prepareDeviceCommand M S message commandSetFrameRate tcData tcDataLen st
      else if Subservice subservice = COMMAND_GET_FRAME_RATE then
        prepareDeviceCommand M S message commandGetFrameRate tcData tcDataLen st
      else if Subservice subservice = PARAMETER_DUMP then
        map_option (\<lambda>(r, m). (r, m, st)) (prepareParameterDump M message tcData tcDataLen)
      else Some (CSB_INVALID_SUBSERVICE, message, st))"

section \<open>Reply to telemetry\<close>

text \<open>\<open>sendTmPacket\<close> is the base-class function; \<open>isStep\<close> is the caller's flag.\<close>

definition handleActionReply ::
  "'m message_if \<Rightarrow> 's storage_if \<Rightarrow> (uint8 \<Rightarrow> tm_content \<Rightarrow> 't \<Rightarrow> ReturnValue_t \<times> 't) \<Rightarrow>
   'm \<Rightarrow> bool \<Rightarrow> ('s, 't) WebcamCommandingService \<Rightarrow>
   ReturnValue_t \<times> bool \<times> ('s, 't) WebcamCommandingService" where
  "handleActionReply M S sendTmPacket reply isStep st =
     (let replyId = getCommand M reply
      in if replyId = COMPLETION_SUCCESS M then (EXECUTION_COMPLETE, isStep, st)
         else if replyId = STEP_SUCCESS M then (OK, True, st)
         else if replyId = DATA_REPLY M then
           (case ipcStore st of
              None \<Rightarrow> (FAILED, True, printError ActionStoreUnavailable st)
            | Some s \<Rightarrow>
                (let storeId = action_getStoreId M reply
                 in case getData S storeId s of
                      (result, data) \<Rightarrow>
                        if result \<noteq> OK then (result, True, st)
                        else
                          (let dataReply = DataReply objectIdWebcamHandler (action_getActionId M reply) data
                                 (word_of_nat (length data));
                               (result', tm') = sendTmPacket (subserviceRaw TM_COMMAND_DATA_REPLY) dataReply (tmChannel st)
                           in (result', True,
                               st\<lparr>ipcStore := Some (snd (deleteData S storeId s)), tmChannel := tm'\<rparr>))))
         else if replyId = STEP_FAILED M then (action_getReturnCode M reply, True, st)
         else if replyId = COMPLETION_FAILED M then (action_getReturnCode M reply, isStep, st)
         else (INVALID_REPLY, isStep, st))"

definition handleParameterReply ::
  "'m message_if \<Rightarrow> 's storage_if \<Rightarrow> (uint8 \<Rightarrow> tm_content \<Rightarrow> 't \<Rightarrow> ReturnValue_t \<times> 't) \<Rightarrow>
   'm \<Rightarrow> object_id_t \<Rightarrow> ('s, 't) WebcamCommandingService \<Rightarrow>
   ReturnValue_t \<times> ('s, 't) WebcamCommandingService" where
  "handleParameterReply M S sendTmPacket reply objectId st =
     (if getCommand M reply \<noteq> REPLY_PARAMETER_DUMP M then (INVALID_REPLY, st)
      else
        (case ipcStore st of
           None \<Rightarrow> (FAILED, printError ParameterStoreUnavailable st)
         | Some s \<Rightarrow>
             (let storeId = param_getStoreId M reply
              in case getData S storeId s of
                   (result, data) \<Rightarrow>
                     if result \<noteq> OK then (result, st)
                     else
                       (let tmReply = ParameterDumpReply objectId (param_getParameterId M reply) data (length data);
                            (result', tm') = sendTmPacket (subserviceRaw TM_PARAMETER_DUMP) tmReply (tmChannel st)
                        in (result',
                            st\<lparr>ipcStore := Some (snd (deleteData S storeId s)), tmChannel := tm'\<rparr>)))))"

definition handleReply ::
  "'m message_if \<Rightarrow> 's storage_if \<Rightarrow> (uint8 \<Rightarrow> tm_content \<Rightarrow> 't \<Rightarrow> ReturnValue_t \<times> 't) \<Rightarrow>
   'm \<Rightarrow> object_id_t \<Rightarrow> bool \<Rightarrow> ('s, 't) WebcamCommandingService \<Rightarrow>
   ReturnValue_t \<times> bool \<times> ('s, 't) WebcamCommandingService" where
  "handleReply M S sendTmPacket reply objectId isStep st =
     (if getMessageType M reply = ACTION M then handleActionReply M S sendTmPacket reply isStep st
      else if getMessageType M reply = PARAMETER M then
        (case handleParameterReply M S sendTmPacket reply objectId st of (r, st') \<Rightarrow> (r, isStep, st'))
      else (INVALID_REPLY, isStep, st))"

end
