(* ===== verification/ServiceProperties.thy ===== *)
theory ServiceProperties
  imports WebcamCommandingService
begin

text \<open>
  The properties of the commanding service: which telecommands are accepted, what they leave in
  the IPC store and in the message, and that replies are forwarded as telemetry and their store
  elements freed. Telemetry in the witnesses is a list of packets.
\<close>

section \<open>The IPC store as the service sees it\<close>

definition ipc_elems ::
  "('s \<Rightarrow> store_address_t \<rightharpoonup> uint8 list) \<Rightarrow> ('s, 't) WebcamCommandingService \<Rightarrow> store_address_t \<rightharpoonup> uint8 list" where
  "ipc_elems elems st = (case ipcStore st of None \<Rightarrow> Map.empty | Some s \<Rightarrow> elems s)"

text \<open>The payload a command must come with, and what is stored for it.\<close>

definition valid_payload :: "CommandId \<Rightarrow> uint8 list option \<Rightarrow> nat \<Rightarrow> bool" where
  "valid_payload c tcData len \<longleftrightarrow>
     (c \<in> {commandTakeSnapshot, commandGetFrameRate} \<and> len = 0)
     \<or> (c = commandSetFrameRate \<and> len = sizeof_double \<and> tcData \<noteq> None)"

definition stored_payload :: "CommandId \<Rightarrow> uint8 list option \<Rightarrow> uint8 list" where
  "stored_payload c tcData = (if c = commandSetFrameRate then take sizeof_double (the tcData) else [])"

definition sample_send :: "uint8 \<Rightarrow> tm_content \<Rightarrow> (uint8 \<times> tm_content) list \<Rightarrow> ReturnValue_t \<times> (uint8 \<times> tm_content) list" where
  "sample_send sub content ch = (OK, ch @ [(sub, content)])"

definition sample_service :: "pool \<Rightarrow> (pool, (uint8 \<times> tm_content) list) WebcamCommandingService" where
  "sample_service p = \<lparr>ipcStore = Some p, tmChannel = [], errorLog = []\<rparr>"

lemma command_ids_distinct [simp]:
  "commandTakeSnapshot \<noteq> commandSetFrameRate" "commandSetFrameRate \<noteq> commandTakeSnapshot"
  "commandGetFrameRate \<noteq> commandSetFrameRate" "commandSetFrameRate \<noteq> commandGetFrameRate"
  "commandTakeSnapshot \<noteq> commandGetFrameRate" "commandGetFrameRate \<noteq> commandTakeSnapshot"
  by (simp_all add: id_defs)

lemma ipc_elems_upd [simp]:
  "ipc_elems elems (st\<lparr>ipcStore := Some s\<rparr>) = elems s"
  "ipc_elems elems (printError l st) = ipc_elems elems st"
  by (simp_all add: ipc_elems_def printError_def)

text \<open>The message a stored command produces.\<close>

definition command_message :: "'m message_if \<Rightarrow> CommandId \<Rightarrow> store_address_t \<Rightarrow> 'm \<Rightarrow> 'm" where
  "command_message M c a m =
     setMsgParameter M a (setCommand M (makeCommandId M (DEVICE_HANDLER_COMMAND M) (ucast (commandToRaw c))) m)"

text \<open>The store and write of an accepted payload.\<close>

lemma store_payload:
  assumes "storage_laws S elems" and "getFreeElement S (length payload) s = (OK, a, s1)"
  shows "elems s a = None"
    and "elems (if length payload > 0 then writeElement S a payload s1 else s1) = (elems s)(a \<mapsto> payload)"
proof -
  obtain bs where free: "elems s a = None" and len: "length bs = length payload" and s1: "elems s1 = (elems s)(a \<mapsto> bs)"
    using storage_getFree_OK [OF assms] .
  show "elems s a = None" by (rule free)
  have "elems (writeElement S a payload s1) = (elems s1)(a \<mapsto> payload @ drop (length payload) bs)"
    using assms(1) s1 len by (intro storage_write) simp_all
  with len s1 show "elems (if length payload > 0 then writeElement S a payload s1 else s1) = (elems s)(a \<mapsto> payload)"
    by (cases payload) simp_all
qed

lemma prepareDeviceCommand_invalid:
  "\<not> valid_payload c tcData len \<Longrightarrow> prepareDeviceCommand M S m c tcData len st = Some (INVALID_TC, m, st)"
  by (auto simp: prepareDeviceCommand_def valid_payload_def)

lemma prepareDeviceCommand_valid:
  assumes "valid_payload c tcData len" and "readable tcData len"
  shows "prepareDeviceCommand M S m c tcData len st = Some (storeDeviceCommand M S m c (stored_payload c tcData) st)"
proof (cases "c = commandSetFrameRate")
  case True
  with assms(1) have len: "len = sizeof_double" and data: "tcData \<noteq> None"
    by (simp_all add: valid_payload_def)
  have "memcpy_from tcData sizeof_double = Some (take sizeof_double (the tcData))"
    using memcpy_from_readable [OF assms(2) _ data, of sizeof_double] len by simp
  with True len data show ?thesis by (auto simp: prepareDeviceCommand_def stored_payload_def)
next
  case False
  with assms(1) show ?thesis by (simp add: valid_payload_def prepareDeviceCommand_def stored_payload_def)
qed

lemma storeDeviceCommand_free:
  assumes "ipcStore st = Some s" and "getFreeElement S (length payload) s = (r, a, s1)"
  shows "storeDeviceCommand M S m c payload st =
    (if r \<noteq> OK then (r, m, st\<lparr>ipcStore := Some s1\<rparr>)
     else (OK, command_message M c a m,
           st\<lparr>ipcStore := Some (if length payload > 0 then writeElement S a payload s1 else s1)\<rparr>))"
  using assms by (simp add: storeDeviceCommand_def command_message_def)

lemma storeDeviceCommand_no_trace:
  assumes "storage_laws S elems" and "storeDeviceCommand M S m c payload st = (r, m', st')" and "r \<noteq> OK"
  shows "m' = m \<and> ipc_elems elems st' = ipc_elems elems st"
proof (cases "ipcStore st")
  case None
  with assms(2) show ?thesis by (auto simp: storeDeviceCommand_def)
next
  case (Some s)
  obtain g a s1 where free: "getFreeElement S (length payload) s = (g, a, s1)"
    by (cases "getFreeElement S (length payload) s")
  have fail: "g \<noteq> OK" "r = g" "m' = m" "st' = st\<lparr>ipcStore := Some s1\<rparr>"
    using storeDeviceCommand_free [OF Some free, of M m c] assms(2,3) by (auto split: if_splits)
  then show ?thesis
    using storage_getFree_fail [OF assms(1) free] Some by (simp add: ipc_elems_def)
qed

lemma prepareDeviceCommand_stored:
  assumes "storage_laws S elems" and "message_laws M" and "ipcStore st = Some s"
    and "readable tcData len" and "valid_payload c tcData len"
    and "fst (getFreeElement S (length (stored_payload c tcData)) s) = OK"
  shows "\<exists>m' s' a. prepareDeviceCommand M S m c tcData len st = Some (OK, m', st\<lparr>ipcStore := Some s'\<rparr>)
    \<and> elems s a = None \<and> elems s' = (elems s)(a \<mapsto> stored_payload c tcData)
    \<and> getData S a s' = (OK, stored_payload c tcData)
    \<and> getMsgParameter M m' = a \<and> getMessageType M m' = DEVICE_HANDLER_COMMAND M
    \<and> getCommand M m' AND 0xff = ucast (ucast (commandToRaw c) :: uint8)"
proof -
  obtain a s1 where free: "getFreeElement S (length (stored_payload c tcData)) s = (OK, a, s1)"
    using assms(6) by (cases "getFreeElement S (length (stored_payload c tcData)) s") auto
  let ?s' = "if length (stored_payload c tcData) > 0 then writeElement S a (stored_payload c tcData) s1 else s1"
  have st: "elems s a = None" "elems ?s' = (elems s)(a \<mapsto> stored_payload c tcData)"
    using store_payload [OF assms(1) free] by simp_all
  then have data: "getData S a ?s' = (OK, stored_payload c tcData)"
    by (intro storage_getData [OF assms(1)]) simp
  let ?m' = "command_message M c a m"
  have cmd: "getCommand M ?m' = makeCommandId M (DEVICE_HANDLER_COMMAND M) (ucast (commandToRaw c))"
    and par: "getMsgParameter M ?m' = a"
    by (simp_all add: command_message_def message_lawsD [OF assms(2)])
  have mt: "getMessageType M ?m' = DEVICE_HANDLER_COMMAND M"
    using assms(2) cmd by (rule message_lawsD(4))
  have low: "getCommand M ?m' AND 0xff = ucast (ucast (commandToRaw c) :: uint8)"
    unfolding cmd using assms(2) by (rule message_lawsD(5))
  have "prepareDeviceCommand M S m c tcData len st = Some (OK, ?m', st\<lparr>ipcStore := Some ?s'\<rparr>)"
    by (simp add: prepareDeviceCommand_valid [OF assms(5,4)] storeDeviceCommand_free [OF assms(3) free])
  with st data par mt low show ?thesis by blast
qed

section \<open>Telecommands\<close>

text \<open>
  C11. Accepting a device command: with a readable payload of the right size and a free store
  element, the telecommand succeeds, exactly one element holding exactly the payload is added
  to the store, and the message names the command and that element.
\<close>

theorem prepareDeviceCommand_accepts:
  assumes "storage_laws S elems" and "message_laws M" and "ipcStore st = Some s"
    and "readable tcData len" and "valid_payload c tcData len"
    and "fst (getFreeElement S (length (stored_payload c tcData)) s) = OK"
  shows "\<exists>m' s' a. prepareDeviceCommand M S m c tcData len st = Some (OK, m', st\<lparr>ipcStore := Some s'\<rparr>)
    \<and> elems s a = None \<and> elems s' = (elems s)(a \<mapsto> stored_payload c tcData)
    \<and> getData S a s' = (OK, stored_payload c tcData)
    \<and> getMsgParameter M m' = a \<and> getMessageType M m' = DEVICE_HANDLER_COMMAND M
    \<and> getCommand M m' AND 0xff = ucast (ucast (commandToRaw c) :: uint8)"
  by (rule prepareDeviceCommand_stored [OF assms])

theorem prepareDeviceCommand_accepts_witness:
  "\<exists>m' s'. prepareDeviceCommand sample_messages pool_storage \<lparr>sm_command = 0, sm_first = 0, sm_second = 0\<rparr>
       commandSetFrameRate (Some [1, 2, 3, 4, 5, 6, 7, 8]) 8 (sample_service [Some [], None])
     = Some (OK, m', sample_service s')
   \<and> (\<exists>a. getData pool_storage a s' = (OK, [1, 2, 3, 4, 5, 6, 7, 8]))"
proof -
  let ?st = "sample_service [Some [], None]" and ?d = "Some [1, 2, 3, 4, 5, 6, 7, 8] :: uint8 list option"
  let ?m = "\<lparr>sm_command = 0, sm_first = 0, sm_second = 0\<rparr> :: sample_message"
  have "ipcStore ?st = Some [Some [], None]" "readable ?d 8" "valid_payload commandSetFrameRate ?d 8"
    "fst (getFreeElement pool_storage (length (stored_payload commandSetFrameRate ?d)) [Some [], None]) = OK"
    by (simp_all add: sample_service_def valid_payload_def sizeof_double_def pool_storage_def)
  from prepareDeviceCommand_accepts [OF pool_storage_laws sample_message_laws this, of ?m]
  obtain m' s' a where p: "prepareDeviceCommand sample_messages pool_storage ?m commandSetFrameRate ?d 8 ?st = Some (OK, m', ?st\<lparr>ipcStore := Some s'\<rparr>)"
    and g: "getData pool_storage a s' = (OK, stored_payload commandSetFrameRate ?d)" by blast
  have "?st\<lparr>ipcStore := Some s'\<rparr> = sample_service s'" by (simp add: sample_service_def)
  moreover have "stored_payload commandSetFrameRate ?d = [1, 2, 3, 4, 5, 6, 7, 8]"
    by (simp add: stored_payload_def sizeof_double_def)
  ultimately show ?thesis using p g by auto
qed

text \<open>
  C12. Rejecting leaves no trace: for every subservice and readable payload \<^verbatim>\<open>prepareCommand\<close>
  is free of out-of-bounds reads, and whenever it does not return \<^verbatim>\<open>OK\<close> the message is
  unchanged and the store holds the same elements, so no store element is leaked.
\<close>

theorem prepareCommand_error_leaves_no_trace:
  assumes "storage_laws S elems" and "readable tcData len"
  shows "\<exists>r m' st'. prepareCommand M S m subservice tcData len st = Some (r, m', st')
    \<and> (r \<noteq> OK \<longrightarrow> m' = m \<and> ipc_elems elems st' = ipc_elems elems st)"
proof -
  have dev: "\<exists>r m' st'. prepareDeviceCommand M S m c tcData len st = Some (r, m', st')
      \<and> (r \<noteq> OK \<longrightarrow> m' = m \<and> ipc_elems elems st' = ipc_elems elems st)" for c
  proof (cases "valid_payload c tcData len")
    case True
    obtain r m' st' where st: "storeDeviceCommand M S m c (stored_payload c tcData) st = (r, m', st')"
      by (cases "storeDeviceCommand M S m c (stored_payload c tcData) st")
    with storeDeviceCommand_no_trace [OF assms(1) st] show ?thesis
      by (auto simp: prepareDeviceCommand_valid [OF True assms(2)])
  qed (simp add: prepareDeviceCommand_invalid)
  have dump: "\<exists>r m'. prepareParameterDump M m tcData len = Some (r, m') \<and> (r \<noteq> OK \<longrightarrow> m' = m)"
    using assms(2) by (auto simp: prepareParameterDump_def readable_def Let_def neq_Nil_conv split: option.splits list.splits)
  show ?thesis
  proof (cases "Subservice subservice \<in> {COMMAND_TAKE_SNAPSHOT, COMMAND_SET_FRAME_RATE, COMMAND_GET_FRAME_RATE}")
    case True
    then obtain c where "prepareCommand M S m subservice tcData len st = prepareDeviceCommand M S m c tcData len st"
      by (auto simp: prepareCommand_def subservice_defs)
    with dev [of c] show ?thesis by simp
  next
    case False
    with dump show ?thesis by (auto simp: prepareCommand_def)
  qed
qed

theorem prepareCommand_error_leaves_no_trace_witness:
  "\<exists>r m' st'. prepareCommand sample_messages pool_storage \<lparr>sm_command = 7, sm_first = 0, sm_second = 0\<rparr> 2 (Some [1]) 1
       (sample_service [None]) = Some (r, m', st') \<and> r = INVALID_TC
     \<and> m' = \<lparr>sm_command = 7, sm_first = 0, sm_second = 0\<rparr> \<and> ipc_elems pool_elems st' = pool_elems [None]"
proof -
  let ?m = "\<lparr>sm_command = 7, sm_first = 0, sm_second = 0\<rparr> :: sample_message"
  have rd: "readable (Some [1]) 1" by simp
  from prepareCommand_error_leaves_no_trace [OF pool_storage_laws rd, of sample_messages ?m 2 "sample_service [None]"]
  obtain r m' st' where p: "prepareCommand sample_messages pool_storage ?m 2 (Some [1]) 1 (sample_service [None]) = Some (r, m', st')"
    and t: "r \<noteq> OK \<longrightarrow> m' = ?m \<and> ipc_elems pool_elems st' = ipc_elems pool_elems (sample_service [None])" by blast
  have "r = INVALID_TC"
    using p by (simp add: prepareCommand_def subservice_defs prepareDeviceCommand_def sizeof_double_def Let_def)
  with p t show ?thesis by (simp add: ipc_elems_def sample_service_def)
qed

text \<open>
  The three places that look at a subservice agree: exactly subservices 1 to 4 are valid;
  an invalid one (the telemetry subservices included) finds no target and is never prepared,
  a valid one always gets the handler as its target object and is refused for its target only
  when the object manager does not know it.
\<close>

lemma subservice_checks_agree:
  "(isValidSubservice sub = OK \<longleftrightarrow> sub \<in> {1, 2, 3, 4})
   \<and> (isValidSubservice sub \<noteq> OK \<longleftrightarrow> isValidSubservice sub = TC_INVALID_SUBSERVICE)
   \<and> (isValidSubservice sub \<noteq> OK \<longleftrightarrow> fst (getMessageQueueAndObject dh pr sub q oid) = INVALID_TC)
   \<and> (isValidSubservice sub \<noteq> OK \<longrightarrow> prepareCommand M S m sub d n st = Some (CSB_INVALID_SUBSERVICE, m, st))
   \<and> snd (snd (getMessageQueueAndObject dh pr sub q oid)) = objectIdWebcamHandler
   \<and> (fst (getMessageQueueAndObject dh pr sub q oid) = OK \<longleftrightarrow>
       (if sub = 4 then pr objectIdWebcamHandler else if sub \<in> {1, 2, 3} then dh objectIdWebcamHandler else None) \<noteq> None)"
  by (auto simp: isValidSubservice_def getMessageQueueAndObject_def prepareCommand_def subservice_defs Let_def
      split: option.splits)

lemma subservice_checks_agree_witness:
  "prepareCommand sample_messages pool_storage \<lparr>sm_command = 0, sm_first = 0, sm_second = 0\<rparr> 130 None 0 (sample_service [])
   = Some (CSB_INVALID_SUBSERVICE, \<lparr>sm_command = 0, sm_first = 0, sm_second = 0\<rparr>, sample_service [])"
  using subservice_checks_agree [where sub = 130 and M = sample_messages and S = pool_storage
      and m = "\<lparr>sm_command = 0, sm_first = 0, sm_second = 0\<rparr>" and d = None and n = 0 and st = "sample_service []"]
  by simp

text \<open>
  A parameter dump asks for the frame rate by default and otherwise for exactly the
  parameter the single payload byte names, in the webcam's domain; longer payloads and a
  missing buffer are rejected with the message unchanged.
\<close>

lemma prepareParameterDump_requests:
  assumes "readable tcData len"
  shows "prepareParameterDump M m tcData len =
    Some (if len = 0 then (OK, param_setDumpCommand M (getFullParameterId M 0 PARAM_FRAME_RATE 0) m)
          else if len = 1 \<and> tcData \<noteq> None then (OK, param_setDumpCommand M (getFullParameterId M 0 (hd (the tcData)) 0) m)
          else (INVALID_TC, m))"
  using assms
  by (auto simp: prepareParameterDump_def WEBCAM_PARAMETER_DOMAIN_def Let_def neq_Nil_conv
      split: option.splits list.splits)

lemma prepareParameterDump_requests_witness:
  "prepareParameterDump sample_messages \<lparr>sm_command = 0, sm_first = 0, sm_second = 0\<rparr> (Some [9]) 1
   = Some (OK, \<lparr>sm_command = 0x0601, sm_first = 0x00090000, sm_second = 0\<rparr>)"
proof -
  have rd: "readable (Some [9]) 1" by simp
  show ?thesis
    using prepareParameterDump_requests [OF rd, of sample_messages "\<lparr>sm_command = 0, sm_first = 0, sm_second = 0\<rparr>"]
    by (simp add: sample_messages_def)
qed

section \<open>Replies\<close>

text \<open>
  A data reply is forwarded and its store element freed: the telemetry packet carries the
  handler's id, the action id and the element's bytes; the element is gone afterwards whether
  or not the packet could be sent, every other element is kept, the reply counts as a step,
  and the result is that of sending the packet.
\<close>

lemma data_reply_forwarded_and_freed:
  assumes "storage_laws S elems" and "reply_labels_distinct M" and "ipcStore st = Some s"
    and "getMessageType M reply = ACTION M" and "getCommand M reply = DATA_REPLY M"
    and "elems s (action_getStoreId M reply) = Some data"
    and "sendTmPacket 131 (DataReply objectIdWebcamHandler (action_getActionId M reply) data (word_of_nat (length data)))
           (tmChannel st) = (r, tm')"
  shows "\<exists>st'. handleReply M S sendTmPacket reply oid isStep st = (r, True, st')
    \<and> ipc_elems elems st' = (elems s)(action_getStoreId M reply := None) \<and> tmChannel st' = tm'"
proof -
  have g: "getData S (action_getStoreId M reply) s = (OK, data)"
    using assms(1,6) by (rule storage_getData)
  have "handleReply M S sendTmPacket reply oid isStep st =
      (r, True, st\<lparr>ipcStore := Some (snd (deleteData S (action_getStoreId M reply) s)), tmChannel := tm'\<rparr>)"
    using assms(2-5,7) g
    by (auto simp: handleReply_def handleActionReply_def reply_labels_distinct_def subservice_defs Let_def)
  then show ?thesis
    using storage_delete [OF assms(1)] by (simp add: ipc_elems_def)
qed

lemma data_reply_forwarded_and_freed_witness:
  "\<exists>st'. handleReply sample_messages pool_storage sample_send \<lparr>sm_command = 0x0504, sm_first = 3, sm_second = 1\<rparr> 0 False
       (sample_service [Some [], Some [65, 66]]) = (OK, True, st')
     \<and> ipc_elems pool_elems st' 1 = None \<and> tmChannel st' = [(131, DataReply objectIdWebcamHandler 3 [65, 66] 2)]"
proof -
  let ?m = "\<lparr>sm_command = 0x0504, sm_first = 3, sm_second = 1\<rparr> :: sample_message"
  let ?st = "sample_service [Some [], Some [65, 66]]"
  have "ipcStore ?st = Some [Some [], Some [65, 66]]" "getMessageType sample_messages ?m = ACTION sample_messages"
    "getCommand sample_messages ?m = DATA_REPLY sample_messages"
    "pool_elems [Some [], Some [65, 66]] (action_getStoreId sample_messages ?m) = Some [65, 66]"
    "sample_send 131 (DataReply objectIdWebcamHandler (action_getActionId sample_messages ?m) [65, 66] (word_of_nat (length [65, 66 :: uint8])))
       (tmChannel ?st) = (OK, [(131, DataReply objectIdWebcamHandler 3 [65, 66] 2)])"
    by (simp_all add: sample_service_def sample_messages_def pool_elems_def sample_send_def)
  from data_reply_forwarded_and_freed [where sendTmPacket = sample_send, OF pool_storage_laws sample_reply_labels this, of 0 False]
  show ?thesis by (auto simp: sample_messages_def)
qed

text \<open>
  A parameter dump reply likewise: forwarded with the object and parameter id of the
  request, its element freed in any case, the step flag left alone.
\<close>

lemma parameter_reply_forwarded_and_freed:
  assumes "storage_laws S elems" and "reply_labels_distinct M" and "ipcStore st = Some s"
    and "getMessageType M reply = PARAMETER M" and "getCommand M reply = REPLY_PARAMETER_DUMP M"
    and "elems s (param_getStoreId M reply) = Some data"
    and "sendTmPacket 130 (ParameterDumpReply oid (param_getParameterId M reply) data (length data))
           (tmChannel st) = (r, tm')"
  shows "\<exists>st'. handleReply M S sendTmPacket reply oid isStep st = (r, isStep, st')
    \<and> ipc_elems elems st' = (elems s)(param_getStoreId M reply := None) \<and> tmChannel st' = tm'"
proof -
  have g: "getData S (param_getStoreId M reply) s = (OK, data)"
    using assms(1,6) by (rule storage_getData)
  have "handleReply M S sendTmPacket reply oid isStep st =
      (r, isStep, st\<lparr>ipcStore := Some (snd (deleteData S (param_getStoreId M reply) s)), tmChannel := tm'\<rparr>)"
    using assms(2-5,7) g
    by (auto simp: handleReply_def handleParameterReply_def reply_labels_distinct_def subservice_defs Let_def)
  then show ?thesis
    using storage_delete [OF assms(1)] by (simp add: ipc_elems_def)
qed

lemma parameter_reply_forwarded_and_freed_witness:
  "\<exists>st'. handleReply sample_messages pool_storage sample_send \<lparr>sm_command = 0x0602, sm_first = 8, sm_second = 0\<rparr> 5 True
       (sample_service [Some [1]]) = (OK, True, st')
     \<and> ipc_elems pool_elems st' 0 = None \<and> tmChannel st' = [(130, ParameterDumpReply 5 8 [1] 1)]"
proof -
  let ?m = "\<lparr>sm_command = 0x0602, sm_first = 8, sm_second = 0\<rparr> :: sample_message"
  let ?st = "sample_service [Some [1]]"
  have "ipcStore ?st = Some [Some [1]]" "getMessageType sample_messages ?m = PARAMETER sample_messages"
    "getCommand sample_messages ?m = REPLY_PARAMETER_DUMP sample_messages"
    "pool_elems [Some [1]] (param_getStoreId sample_messages ?m) = Some [1]"
    "sample_send 130 (ParameterDumpReply 5 (param_getParameterId sample_messages ?m) [1] (length [1 :: uint8]))
       (tmChannel ?st) = (OK, [(130, ParameterDumpReply 5 8 [1] 1)])"
    by (simp_all add: sample_service_def sample_messages_def pool_elems_def sample_send_def)
  from parameter_reply_forwarded_and_freed [where sendTmPacket = sample_send, OF pool_storage_laws sample_reply_labels this, of True]
  show ?thesis by (auto simp: sample_messages_def)
qed

text \<open>What handling a reply may do to the store: nothing, or free the element the reply names.\<close>

lemma handleActionReply_elems:
  assumes "storage_laws S elems" and "handleActionReply M S sendTmPacket reply isStep st = (r, isStep', st')"
  shows "ipc_elems elems st' = ipc_elems elems st
    \<or> (ipc_elems elems st' = (ipc_elems elems st)(action_getStoreId M reply := None)
       \<and> (\<exists>sub content. tmChannel st' = snd (sendTmPacket sub content (tmChannel st))))"
proof (cases "ipcStore st")
  case None
  with assms(2) show ?thesis
    by (auto simp: handleActionReply_def Let_def ipc_elems_def printError_def split: if_splits)
next
  case (Some s)
  obtain g data where "getData S (action_getStoreId M reply) s = (g, data)" by (cases "getData S (action_getStoreId M reply) s")
  with Some assms(2) storage_delete [OF assms(1), of "action_getStoreId M reply" s] show ?thesis
    by (simp add: handleActionReply_def Let_def ipc_elems_def split_beta split: if_splits) force
qed

lemma handleParameterReply_elems:
  assumes "storage_laws S elems" and "handleParameterReply M S sendTmPacket reply oid st = (r, st')"
  shows "ipc_elems elems st' = ipc_elems elems st
    \<or> (ipc_elems elems st' = (ipc_elems elems st)(param_getStoreId M reply := None)
       \<and> (\<exists>sub content. tmChannel st' = snd (sendTmPacket sub content (tmChannel st))))"
proof (cases "ipcStore st")
  case None
  with assms(2) show ?thesis
    by (auto simp: handleParameterReply_def Let_def ipc_elems_def printError_def split: if_splits)
next
  case (Some s)
  obtain g data where "getData S (param_getStoreId M reply) s = (g, data)" by (cases "getData S (param_getStoreId M reply) s")
  with Some assms(2) storage_delete [OF assms(1), of "param_getStoreId M reply" s] show ?thesis
    by (simp add: handleParameterReply_def Let_def ipc_elems_def split_beta split: if_splits) force
qed

text \<open>
  Handling a reply never allocates and touches at most the one element the reply names:
  any other store address keeps its content, nothing is freed without a telemetry packet having
  been handed to the base class, and replies of other types change nothing.
\<close>

lemma handleReply_frees_at_most_its_element:
  assumes "storage_laws S elems" and "handleReply M S sendTmPacket reply oid isStep st = (r, isStep', st')"
  shows "(ipc_elems elems st' a \<noteq> ipc_elems elems st a \<longrightarrow>
      ipc_elems elems st' a = None \<and> a \<in> {action_getStoreId M reply, param_getStoreId M reply}
      \<and> (\<exists>sub content. tmChannel st' = snd (sendTmPacket sub content (tmChannel st))))
    \<and> (getMessageType M reply \<notin> {ACTION M, PARAMETER M} \<longrightarrow> r = INVALID_REPLY \<and> isStep' = isStep \<and> st' = st)"
proof
  have "ipc_elems elems st' = ipc_elems elems st
    \<or> ((ipc_elems elems st' = (ipc_elems elems st)(action_getStoreId M reply := None)
        \<or> ipc_elems elems st' = (ipc_elems elems st)(param_getStoreId M reply := None))
       \<and> (\<exists>sub content. tmChannel st' = snd (sendTmPacket sub content (tmChannel st))))"
  proof (cases "getMessageType M reply = ACTION M")
    case True
    with assms(2) have "handleActionReply M S sendTmPacket reply isStep st = (r, isStep', st')"
      by (simp add: handleReply_def)
    from handleActionReply_elems [OF assms(1) this] show ?thesis by blast
  next
    case False
    then consider "st' = st" | "handleParameterReply M S sendTmPacket reply oid st = (r, st')"
      using assms(2) by (auto simp: handleReply_def split: if_splits prod.splits)
    then show ?thesis
    proof cases
      case 2
      from handleParameterReply_elems [OF assms(1) this] show ?thesis by blast
    qed simp
  qed
  then show "ipc_elems elems st' a \<noteq> ipc_elems elems st a \<longrightarrow>
      ipc_elems elems st' a = None \<and> a \<in> {action_getStoreId M reply, param_getStoreId M reply}
      \<and> (\<exists>sub content. tmChannel st' = snd (sendTmPacket sub content (tmChannel st)))"
    by (auto split: if_splits)
  show "getMessageType M reply \<notin> {ACTION M, PARAMETER M} \<longrightarrow> r = INVALID_REPLY \<and> isStep' = isStep \<and> st' = st"
    using assms(2) by (auto simp: handleReply_def)
qed

lemma handleReply_frees_at_most_its_element_witness:
  "handleReply sample_messages pool_storage sample_send \<lparr>sm_command = 0x0701, sm_first = 0, sm_second = 0\<rparr> 0 True (sample_service [Some [1]])
   = (INVALID_REPLY, True, sample_service [Some [1]])"
proof -
  let ?m = "\<lparr>sm_command = 0x0701, sm_first = 0, sm_second = 0\<rparr> :: sample_message"
  obtain r b st' where h: "handleReply sample_messages pool_storage sample_send ?m 0 True (sample_service [Some [1]]) = (r, b, st')"
    by (cases "handleReply sample_messages pool_storage sample_send ?m 0 True (sample_service [Some [1]])")
  have "getMessageType sample_messages ?m \<notin> {ACTION sample_messages, PARAMETER sample_messages}"
    by (simp add: sample_messages_def)
  with handleReply_frees_at_most_its_element [OF pool_storage_laws h] h show ?thesis by simp
qed

end
