(* ===== verification/Printf.thy ===== *)
theory Printf
  imports Prelude
begin

text \<open>
  The conversions of \<^verbatim>\<open>printf\<close> that the sources use, as exact text, and reading hex digits back.
\<close>

definition newline :: string where
  "newline = [CHR 0x0A]"

definition hex_digit :: "nat \<Rightarrow> char" where
  "hex_digit n = (if n < 10 then char_of (48 + n) else char_of (87 + n))"

text \<open>\<^verbatim>\<open>%u\<close> and \<^verbatim>\<open>%zu\<close>, \<^verbatim>\<open>%d\<close>, and \<^verbatim>\<open>%02x\<close>.\<close>

fun print_u :: "nat \<Rightarrow> string" where
  "print_u n = (if n < 10 then [char_of (48 + n)] else print_u (n div 10) @ [char_of (48 + n mod 10)])"

declare print_u.simps [simp del]

definition print_d :: "int \<Rightarrow> string" where
  "print_d i = (if i < 0 then ''-'' @ print_u (nat (- i)) else print_u (nat i))"

fun print_x :: "nat \<Rightarrow> string" where
  "print_x n = (if n < 16 then [hex_digit n] else print_x (n div 16) @ [hex_digit (n mod 16)])"

declare print_x.simps [simp del]

definition print_02x :: "nat \<Rightarrow> string" where
  "print_02x n = (if n < 16 then ''0'' @ print_x n else print_x n)"

text \<open>Reading two hex digits back.\<close>

definition hex_val :: "char \<Rightarrow> nat" where
  "hex_val c = (let n = of_char c in if n < 58 then n - 48 else n - 87)"

fun read_hex :: "string \<Rightarrow> uint8 list" where
  "read_hex (a # b # cs) = word_of_nat (16 * hex_val a + hex_val b) # read_hex cs"
| "read_hex _ = []"

lemma hex_val_digit [simp]: "n < 16 \<Longrightarrow> hex_val (hex_digit n) = n"
  by (auto simp: hex_val_def hex_digit_def Let_def of_char_of)

lemma print_02x_byte: "n < 256 \<Longrightarrow> print_02x n = [hex_digit (n div 16), hex_digit (n mod 16)]"
proof -
  assume n: "n < 256"
  have z: "hex_digit 0 = CHR ''0''" by (simp add: hex_digit_def char_of_def bit_0)
  show ?thesis
  proof (cases "n < 16")
    case True
    then show ?thesis by (simp add: print_02x_def print_x.simps [of n] z)
  next
    case False
    with n have "n div 16 < 16" by auto
    with False show ?thesis by (simp add: print_02x_def print_x.simps [of n] print_x.simps [of "n div 16"])
  qed
qed

lemma read_hex_print: "read_hex (concat (map (\<lambda>b. print_02x (unat b)) bs)) = bs"
proof (induction bs)
  case (Cons b bs)
  have b: "unat b < 256" using unsigned_less [of b, where ?'a = nat] by simp
  then have "16 * (unat b div 16) + unat b mod 16 = unat b" "unat b div 16 < 16" by auto
  with b Cons show ?case by (simp add: print_02x_byte)
qed simp

end
