(* ===== verification/TmtcInfrastructure.thy ===== *)
theory TmtcInfrastructure
  imports WebcamDefinitions FsfwInterface Printf
begin

text \<open>
  The ground side stand-ins (\<^verbatim>\<open>mission/tmtc/TmtcInfrastructure\<close>): a telemetry sink that prints and
  frees every packet it is sent, a receiver that prints verification reports, and a distributor
  that serialises telecommands into the TC store and posts them to the registered service.

  A component's queue and stores are held in its record, a null pointer being \<open>None\<close>. The
  framework's queue factory, packet reader and creator, and message sender are arguments.
  Output is the exact text passed to \<^verbatim>\<open>printf\<close>.
\<close>

section \<open>Telemetry sink\<close>

definition MAX_TM_PRINT_BYTES :: nat where
  "MAX_TM_PRINT_BYTES = 32"

definition QUEUE_DEPTH :: nat where
  "QUEUE_DEPTH = 10"

record ('q, 's, 't) StubTelemetrySink =
  sinkQueue :: "'q option"
  sinkTmStore :: "'s option"
  sinkTimeReader :: "'t option"
  sinkOutput :: string

definition new_StubTelemetrySink :: "('q, 's, 't) StubTelemetrySink" where
  "new_StubTelemetrySink = \<lparr>sinkQueue = None, sinkTmStore = None, sinkTimeReader = None, sinkOutput = []\<rparr>"

text \<open>
  \<open>createMessageQueue\<close> and \<open>deleteMessageQueue\<close> are those of \<^verbatim>\<open>QueueFactory\<close>, whose state is
  \<open>'f\<close>; \<open>maxMsg\<close> is \<^verbatim>\<open>MessageQueueMessage::MAX_MESSAGE_SIZE\<close>; \<open>tmStore\<close> and \<open>timeReader\<close>
  are what the object manager finds; \<open>baseResult\<close> is what \<^verbatim>\<open>SystemObject::initialize\<close> returns.
\<close>

definition sink_initialize ::
  "(nat \<Rightarrow> nat \<Rightarrow> 'f \<Rightarrow> 'q option \<times> 'f) \<Rightarrow> nat \<Rightarrow> 's option \<Rightarrow> 't option \<Rightarrow> ReturnValue_t \<Rightarrow>
   'f \<Rightarrow> ('q, 's, 't) StubTelemetrySink \<Rightarrow> ReturnValue_t \<times> 'f \<times> ('q, 's, 't) StubTelemetrySink" where
  "sink_initialize createMessageQueue maxMsg tmStore timeReader baseResult f sink =
     (case createMessageQueue QUEUE_DEPTH maxMsg f of
        (queue, f') \<Rightarrow>
          (baseResult, f', sink\<lparr>sinkQueue := queue, sinkTmStore := tmStore, sinkTimeReader := timeReader\<rparr>))"

definition sink_destroy :: "('q \<Rightarrow> 'f \<Rightarrow> 'f) \<Rightarrow> 'f \<Rightarrow> ('q, 's, 't) StubTelemetrySink \<Rightarrow> 'f" where
  "sink_destroy deleteMessageQueue f sink =
     (case sinkQueue sink of None \<Rightarrow> f | Some q \<Rightarrow> deleteMessageQueue q f)"

text \<open>
  The text printed for one packet. \<open>parse\<close> is \<^verbatim>\<open>PusTmReader\<close>: service, subservice and length of
  the user data if the packet parses.
\<close>

definition tm_report :: "('t option \<Rightarrow> uint8 list \<Rightarrow> (uint8 \<times> uint8 \<times> nat) option) \<Rightarrow> 't option \<Rightarrow> uint8 list \<Rightarrow> string" where
  "tm_report parse timeReader data =
     (case parse timeReader data of
        Some (service, subservice, userDataLen) \<Rightarrow>
          ''[TM] service '' @ print_u (unat service) @ '' subservice '' @ print_u (unat subservice) @
          '', '' @ print_u userDataLen @ '' bytes'' @ newline
      | None \<Rightarrow>
          (let sz = length data;
               bytesToPrint = (if sz < MAX_TM_PRINT_BYTES then sz else MAX_TM_PRINT_BYTES)
           in ''[TM] Received '' @ print_u sz @ '' bytes of telemetry (first '' @ print_u bytesToPrint @
              '' bytes): '' @ concat (map (\<lambda>idx. print_02x (unat (data ! idx))) [0..<bytesToPrint]) @ newline))"

text \<open>The body of the receive loop, on the store and the output; \<open>storageId\<close> reads the message.\<close>

definition sink_body ::
  "('t option \<Rightarrow> uint8 list \<Rightarrow> (uint8 \<times> uint8 \<times> nat) option) \<Rightarrow> 't option \<Rightarrow> 's storage_if \<Rightarrow>
   ('m \<Rightarrow> store_address_t) \<Rightarrow> 'm \<Rightarrow> 's \<times> string \<Rightarrow> 's \<times> string" where
  "sink_body parse timeReader S storageId message = (\<lambda>(s, out).
     case getData S (storageId message) s of
       (r, data) \<Rightarrow>
         if r = OK then (snd (deleteData S (storageId message) s), out @ tm_report parse timeReader data)
         else (s, out))"

definition sink_performOperation ::
  "('q, 'm) receive \<Rightarrow> ('t option \<Rightarrow> uint8 list \<Rightarrow> (uint8 \<times> uint8 \<times> nat) option) \<Rightarrow> 's storage_if \<Rightarrow>
   ('m \<Rightarrow> store_address_t) \<Rightarrow> uint8 \<Rightarrow> ('q, 's, 't) StubTelemetrySink \<Rightarrow>
   (ReturnValue_t \<times> ('q, 's, 't) StubTelemetrySink) option" where
  "sink_performOperation receiveMessage parse S storageId operationCode sink =
     (case (sinkQueue sink, sinkTmStore sink) of
        (Some q, Some s) \<Rightarrow>
          map_option (\<lambda>(q', s', out). (OK, sink\<lparr>sinkQueue := Some q', sinkTmStore := Some s', sinkOutput := out\<rparr>))
            (receive_loop receiveMessage (sink_body parse (sinkTimeReader sink) S storageId) q (s, sinkOutput sink))
      | _ \<Rightarrow> Some (OK, sink))"

definition getReportReceptionQueue ::
  "('q \<Rightarrow> MessageQueueId_t) \<Rightarrow> MessageQueueId_t \<Rightarrow> uint8 \<Rightarrow> ('q, 's, 't) StubTelemetrySink \<Rightarrow> MessageQueueId_t" where
  "getReportReceptionQueue getId NO_QUEUE virtualChannel sink =
     (case sinkQueue sink of None \<Rightarrow> NO_QUEUE | Some q \<Rightarrow> getId q)"

section \<open>Verification receiver\<close>

record 'q StubVerificationReceiver =
  rcvQueue :: "'q option"
  rcvOutput :: string

definition new_StubVerificationReceiver :: "'q StubVerificationReceiver" where
  "new_StubVerificationReceiver = \<lparr>rcvQueue = None, rcvOutput = []\<rparr>"

definition receiver_initialize ::
  "(nat \<Rightarrow> nat \<Rightarrow> 'f \<Rightarrow> 'q option \<times> 'f) \<Rightarrow> nat \<Rightarrow> ReturnValue_t \<Rightarrow>
   'f \<Rightarrow> 'q StubVerificationReceiver \<Rightarrow> ReturnValue_t \<times> 'f \<times> 'q StubVerificationReceiver" where
  "receiver_initialize createMessageQueue maxMsg baseResult f rcv =
     (if rcvQueue rcv = None
      then (case createMessageQueue QUEUE_DEPTH maxMsg f of (queue, f') \<Rightarrow> (baseResult, f', rcv\<lparr>rcvQueue := queue\<rparr>))
      else (baseResult, f, rcv))"

definition receiver_destroy :: "('q \<Rightarrow> 'f \<Rightarrow> 'f) \<Rightarrow> 'f \<Rightarrow> 'q StubVerificationReceiver \<Rightarrow> 'f" where
  "receiver_destroy deleteMessageQueue f rcv =
     (case rcvQueue rcv of None \<Rightarrow> f | Some q \<Rightarrow> deleteMessageQueue q f)"

text \<open>The fields of a verification message as \<^verbatim>\<open>printf\<close> receives them.\<close>

record 'm verification_if =
  getReportId :: "'m \<Rightarrow> nat"
  getAckFlags :: "'m \<Rightarrow> nat"
  getStep :: "'m \<Rightarrow> nat"
  getErrorCode :: "'m \<Rightarrow> int"

definition verification_report :: "'m verification_if \<Rightarrow> 'm \<Rightarrow> string" where
  "verification_report V message =
     ''[TMTC] Verification report '' @ print_u (getReportId V message) @ '' ack 0x'' @
     print_02x (getAckFlags V message) @ '' step '' @ print_u (getStep V message) @
     '' error '' @ print_d (getErrorCode V message) @ newline"

definition receiver_performOperation ::
  "('q, 'm) receive \<Rightarrow> 'm verification_if \<Rightarrow> uint8 \<Rightarrow> 'q StubVerificationReceiver \<Rightarrow>
   (ReturnValue_t \<times> 'q StubVerificationReceiver) option" where
  "receiver_performOperation receiveMessage V operationCode rcv =
     (case rcvQueue rcv of
        None \<Rightarrow> Some (OK, rcv)
      | Some q \<Rightarrow>
          map_option (\<lambda>(q', out). (OK, rcv\<lparr>rcvQueue := Some q', rcvOutput := out\<rparr>))
            (receive_loop receiveMessage (\<lambda>message out. out @ verification_report V message) q (rcvOutput rcv)))"

definition getVerificationQueue ::
  "(nat \<Rightarrow> nat \<Rightarrow> 'f \<Rightarrow> 'q option \<times> 'f) \<Rightarrow> nat \<Rightarrow> ('q \<Rightarrow> MessageQueueId_t) \<Rightarrow> MessageQueueId_t \<Rightarrow>
   'f \<Rightarrow> 'q StubVerificationReceiver \<Rightarrow> MessageQueueId_t \<times> 'f \<times> 'q StubVerificationReceiver" where
  "getVerificationQueue createMessageQueue maxMsg getId NO_QUEUE f rcv =
     (case (if rcvQueue rcv = None
            then (case createMessageQueue QUEUE_DEPTH maxMsg f of (queue, f') \<Rightarrow> (f', rcv\<lparr>rcvQueue := queue\<rparr>))
            else (f, rcv)) of
        (f', rcv') \<Rightarrow> (case rcvQueue rcv' of None \<Rightarrow> (NO_QUEUE, f', rcv') | Some q \<Rightarrow> (getId q, f', rcv')))"

section \<open>Telecommand distributor\<close>

record ('v, 's) StubPusDistributor =
  registeredService :: "'v option"
  serviceRequestQueue :: MessageQueueId_t
  registeredServiceId :: uint8
  tcStore :: "'s option"
  sequenceCounter :: uint16
  apid :: uint16

definition new_StubPusDistributor :: "MessageQueueId_t \<Rightarrow> ('v, 's) StubPusDistributor" where
  "new_StubPusDistributor NO_QUEUE =
     \<lparr>registeredService = None, serviceRequestQueue = NO_QUEUE, registeredServiceId = 0,
      tcStore = None, sequenceCounter = 0, apid = 0x01\<rparr>"

definition distributor_initialize ::
  "'s option \<Rightarrow> ReturnValue_t \<Rightarrow> ('v, 's) StubPusDistributor \<Rightarrow> ReturnValue_t \<times> ('v, 's) StubPusDistributor" where
  "distributor_initialize store baseResult d = (baseResult, d\<lparr>tcStore := store\<rparr>)"

definition registerService ::
  "('v \<Rightarrow> uint8) \<Rightarrow> ('v \<Rightarrow> MessageQueueId_t) \<Rightarrow> 'v option \<Rightarrow> ('v, 's) StubPusDistributor \<Rightarrow>
   ReturnValue_t \<times> ('v, 's) StubPusDistributor" where
  "registerService getIdentifier getRequestQueue service d =
     (case service of
        None \<Rightarrow> (FAILED, d)
      | Some v \<Rightarrow>
          (OK, d\<lparr>registeredService := Some v, registeredServiceId := getIdentifier v,
                 serviceRequestQueue := getRequestQueue v\<rparr>))"

text \<open>
  What determines a telecommand packet. As in \<^verbatim>\<open>PusTcParams\<close>, the application data are a pointer
  and a length; the bytes are read when the packet is serialised.
\<close>

record tc_packet =
  tcApid :: uint16
  tcSequenceCount :: uint16
  tcService :: uint8
  tcSubservice :: uint8
  tcAppData :: "uint8 list option"
  tcAppDataLen :: nat

text \<open>
  \<open>serializedSize\<close> and \<open>serializeBe\<close> are those of \<^verbatim>\<open>PusTcCreator\<close>; \<open>serializeBe p n\<close> gives its
  result and the bytes it wrote into a buffer of \<open>n\<close> bytes. \<open>send\<close> is
  \<^verbatim>\<open>MessageQueueSenderIF::sendMessage\<close> on the message queues \<open>'n\<close>.
\<close>

record ('s, 'n) tc_if =
  tcStorage :: "'s storage_if"
  serializedSize :: "tc_packet \<Rightarrow> nat"
  serializeBe :: "tc_packet \<Rightarrow> nat \<Rightarrow> ReturnValue_t \<times> uint8 list"
  send :: "MessageQueueId_t \<Rightarrow> store_address_t \<Rightarrow> 'n \<Rightarrow> ReturnValue_t \<times> 'n"

definition sendCommand ::
  "('s, 'n) tc_if \<Rightarrow> uint8 \<Rightarrow> uint8 list option \<Rightarrow> nat \<Rightarrow> ('v, 's) StubPusDistributor \<Rightarrow> 'n \<Rightarrow>
   (ReturnValue_t \<times> ('v, 's) StubPusDistributor \<times> 'n) cxx" where
  "sendCommand T subservice data dataLen d net =
     (case (registeredService d, tcStore d) of
        (Some _, Some s) \<Rightarrow>
          (let hasData = (data \<noteq> None \<and> dataLen > 0);
               packet = \<lparr>tcApid = apid d, tcSequenceCount = sequenceCounter d,
                 tcService = registeredServiceId d, tcSubservice = subservice,
                 tcAppData = (if hasData then data else None), tcAppDataLen = (if hasData then dataLen else 0)\<rparr>;
               d1 = d\<lparr>sequenceCounter := sequenceCounter d + 1\<rparr>;
               sz = serializedSize T packet
           in case getFreeElement (tcStorage T) sz s of
                (result, storeId, s1) \<Rightarrow>
                  if result \<noteq> OK then Some (result, d1\<lparr>tcStore := Some s1\<rparr>, net)
                  else if \<not> readable (tcAppData packet) (tcAppDataLen packet) then None
                  else
                    (case serializeBe T packet sz of
                       (result, bytes) \<Rightarrow>
                         (let s2 = writeElement (tcStorage T) storeId bytes s1
                          in if result \<noteq> OK
                             then Some (result, d1\<lparr>tcStore := Some (snd (deleteData (tcStorage T) storeId s2))\<rparr>, net)
                             else (case send T (serviceRequestQueue d1) storeId net of
                                     (result, net') \<Rightarrow> Some (result, d1\<lparr>tcStore := Some s2\<rparr>, net')))))
      | _ \<Rightarrow> Some (FAILED, d, net))"

end
