(* ===== verification/TmtcProperties.thy ===== *)
theory TmtcProperties
  imports TmtcInfrastructure
begin

text \<open>
  The properties of the telemetry sink, the verification receiver and the telecommand
  distributor: the receive loops return and handle every queued message in order, store
  elements are freed (or, on one path of the distributor, are not), and printed text is exact.
\<close>

section \<open>The telemetry sink\<close>

text \<open>Effect of the loop body on the elements of the store and on the output.\<close>

lemma sink_body_elems:
  assumes "storage_laws S elems"
  shows "elems (fst (sink_body parse tr S sid m (s, out))) = (elems s)(sid m := None)"
    and "snd (sink_body parse tr S sid m (s, out)) =
      out @ (case elems s (sid m) of None \<Rightarrow> [] | Some data \<Rightarrow> tm_report parse tr data)"
proof -
  obtain r data where g: "getData S (sid m) s = (r, data)" by (cases "getData S (sid m) s")
  have ok: "r = OK \<longleftrightarrow> elems s (sid m) \<noteq> None"
    using storage_getData_OK_iff [OF assms, of "sid m" s] g by simp
  show "elems (fst (sink_body parse tr S sid m (s, out))) = (elems s)(sid m := None)"
    using g ok storage_delete [OF assms, of "sid m" s] by (auto simp: sink_body_def)
  show "snd (sink_body parse tr S sid m (s, out)) =
      out @ (case elems s (sid m) of None \<Rightarrow> [] | Some data \<Rightarrow> tm_report parse tr data)"
    using g ok storage_getData_OK [OF assms, of "sid m" s] by (auto simp: sink_body_def split: option.splits)
qed

lemma fold_sink_body:
  assumes "storage_laws S elems"
  shows "elems (fst (fold (sink_body parse tr S sid) ms (s, out))) =
      (\<lambda>a. if a \<in> sid ` set ms then None else elems s a)
    \<and> (distinct (map sid ms) \<longrightarrow> snd (fold (sink_body parse tr S sid) ms (s, out)) =
      out @ concat (map (\<lambda>m. case elems s (sid m) of None \<Rightarrow> [] | Some data \<Rightarrow> tm_report parse tr data) ms))"
proof (induction ms arbitrary: s out)
  case (Cons m ms)
  obtain s1 out1 where b: "sink_body parse tr S sid m (s, out) = (s1, out1)"
    by (cases "sink_body parse tr S sid m (s, out)")
  have s1: "elems s1 = (elems s)(sid m := None)"
    and out1: "out1 = out @ (case elems s (sid m) of None \<Rightarrow> [] | Some data \<Rightarrow> tm_report parse tr data)"
    using sink_body_elems [OF assms, of parse tr sid m s out] b by simp_all
  have rest: "map (\<lambda>x. case elems s1 (sid x) of None \<Rightarrow> [] | Some data \<Rightarrow> tm_report parse tr data) ms =
      map (\<lambda>x. case elems s (sid x) of None \<Rightarrow> [] | Some data \<Rightarrow> tm_report parse tr data) ms"
    if "distinct (map sid (m # ms))"
    using that by (auto simp: s1 image_iff)
  show ?case
  proof (intro conjI impI)
    show "elems (fst (fold (sink_body parse tr S sid) (m # ms) (s, out))) =
        (\<lambda>a. if a \<in> sid ` set (m # ms) then None else elems s a)"
      using Cons.IH [of s1 out1] by (auto simp: b s1)
  next
    assume d: "distinct (map sid (m # ms))"
    with Cons.IH [of s1 out1] show "snd (fold (sink_body parse tr S sid) (m # ms) (s, out)) =
        out @ concat (map (\<lambda>m. case elems s (sid m) of None \<Rightarrow> [] | Some data \<Rightarrow> tm_report parse tr data) (m # ms))"
      by (simp add: b rest [OF d] out1 del: map_eq_conv)
  qed
qed simp

text \<open>The sample sink: messages are store addresses, nothing parses.\<close>

definition sample_sink :: "(store_address_t list, pool, unit) StubTelemetrySink" where
  "sample_sink = \<lparr>sinkQueue = Some [1, 0], sinkTmStore = Some [Some [255], Some [1, 171]], sinkTimeReader = None, sinkOutput = []\<rparr>"

lemma sink_operation_drains:
  assumes "fifo_laws receiveMessage queued" and "storage_laws S elems"
    and "sinkQueue sink = Some q" and "sinkTmStore sink = Some s"
  shows "\<exists>q' s' out. sink_performOperation receiveMessage parse S sid k sink =
      Some (OK, sink\<lparr>sinkQueue := Some q', sinkTmStore := Some s', sinkOutput := out\<rparr>)
    \<and> queued q' = []
    \<and> elems s' = (\<lambda>a. if a \<in> sid ` set (queued q) then None else elems s a)
    \<and> (distinct (map sid (queued q)) \<longrightarrow> out = sinkOutput sink @
        concat (map (\<lambda>m. case elems s (sid m) of None \<Rightarrow> [] | Some data \<Rightarrow> tm_report parse (sinkTimeReader sink) data) (queued q)))"
proof -
  let ?body = "sink_body parse (sinkTimeReader sink) S sid"
  let ?res = "fold ?body (queued q) (s, sinkOutput sink)"
  obtain q' where q': "receive_loop receiveMessage ?body q (s, sinkOutput sink) = Some (q', ?res)" "queued q' = []"
    using receive_loop_drains [OF assms(1), of ?body q "(s, sinkOutput sink)"] by blast
  obtain s' out where res: "?res = (s', out)" by (cases ?res)
  have "sink_performOperation receiveMessage parse S sid k sink =
      Some (OK, sink\<lparr>sinkQueue := Some q', sinkTmStore := Some s', sinkOutput := out\<rparr>)"
    using q'(1) res assms(3,4) by (simp add: sink_performOperation_def)
  then show ?thesis
    using q'(2) fold_sink_body [OF assms(2), of parse "sinkTimeReader sink" sid "queued q" s "sinkOutput sink"] res
    by auto
qed

text \<open>
  C16. The telemetry sink's operation returns and drains its queue: every queued message has been
  handled, the store element of each has been freed and no other, and when the messages name
  different elements the output is the report of each held packet in the order of the queue.
\<close>

theorem sink_drains_and_frees:
  assumes "fifo_laws receiveMessage queued" and "storage_laws S elems"
    and "sinkQueue sink = Some q" and "sinkTmStore sink = Some s"
  shows "\<exists>q' s' out. sink_performOperation receiveMessage parse S sid k sink =
      Some (OK, sink\<lparr>sinkQueue := Some q', sinkTmStore := Some s', sinkOutput := out\<rparr>)
    \<and> queued q' = []
    \<and> elems s' = (\<lambda>a. if a \<in> sid ` set (queued q) then None else elems s a)
    \<and> (distinct (map sid (queued q)) \<longrightarrow> out = sinkOutput sink @
        concat (map (\<lambda>m. case elems s (sid m) of None \<Rightarrow> [] | Some data \<Rightarrow> tm_report parse (sinkTimeReader sink) data) (queued q)))"
  using assms by (rule sink_operation_drains)

theorem sink_drains_and_frees_witness:
  "\<exists>q' s' out. sink_performOperation list_receive (\<lambda>_ _. None) pool_storage (\<lambda>m. m) 0 sample_sink =
      Some (OK, sample_sink\<lparr>sinkQueue := Some q', sinkTmStore := Some s', sinkOutput := out\<rparr>)
    \<and> q' = [] \<and> pool_elems s' 1 = None
    \<and> out = ''[TM] Received 2 bytes of telemetry (first 2 bytes): 01ab'' @ newline @
            ''[TM] Received 1 bytes of telemetry (first 1 bytes): ff'' @ newline"
proof -
  have s: "sinkQueue sample_sink = Some [1, 0]" "sinkTmStore sample_sink = Some [Some [255], Some [1, 171]]"
    "sinkTimeReader sample_sink = None" "sinkOutput sample_sink = []"
    by (simp_all add: sample_sink_def)
  have e: "pool_elems [Some [255], Some [1, 171]] 1 = Some [1, 171]" "pool_elems [Some [255], Some [1, 171]] 0 = Some [255]"
    by (simp_all add: pool_elems_def)
  have r: "tm_report (\<lambda>_ _. None) (None :: unit option) [1, 171] = ''[TM] Received 2 bytes of telemetry (first 2 bytes): 01ab'' @ newline"
      "tm_report (\<lambda>_ _. None) (None :: unit option) [255] = ''[TM] Received 1 bytes of telemetry (first 1 bytes): ff'' @ newline"
    by (simp_all add: tm_report_def MAX_TM_PRINT_BYTES_def print_u.simps print_02x_def print_x.simps hex_digit_def
        upt_rec char_of_def newline_def bit_0)
  from sink_drains_and_frees [OF list_receive_fifo pool_storage_laws s(1,2), of "\<lambda>_ _. None" "\<lambda>m. m" 0]
  obtain q' s' out where p: "sink_performOperation list_receive (\<lambda>_ _. None) pool_storage (\<lambda>m. m) 0 sample_sink =
      Some (OK, sample_sink\<lparr>sinkQueue := Some q', sinkTmStore := Some s', sinkOutput := out\<rparr>)"
    and q': "q' = []"
    and el: "pool_elems s' = (\<lambda>a. if a \<in> (\<lambda>m. m) ` set [1, 0] then None else pool_elems [Some [255], Some [1, 171]] a)"
    and out: "distinct (map (\<lambda>m. m) [1, 0 :: store_address_t]) \<longrightarrow> out = sinkOutput sample_sink @
      concat (map (\<lambda>m. case pool_elems [Some [255], Some [1, 171]] m of None \<Rightarrow> []
        | Some data \<Rightarrow> tm_report (\<lambda>_ _. None) (sinkTimeReader sample_sink) data) [1, 0])"
    by blast
  from el have el1: "pool_elems s' 1 = None" by simp
  from out have "out = tm_report (\<lambda>_ _. None) (None :: unit option) [1, 171] @ tm_report (\<lambda>_ _. None) (None :: unit option) [255]"
    by (simp add: e s)
  with p q' el1 show ?thesis unfolding r by auto
qed

section \<open>The hex dump\<close>

lemma dump_loop:
  assumes "n \<le> length data"
  shows "concat (map (\<lambda>idx. print_02x (unat (data ! idx))) [0..<n]) = concat (map (\<lambda>b. print_02x (unat b)) (take n data))"
proof -
  have "take n data = map (nth data) [0..<n]"
    using assms by (intro nth_equalityI) simp_all
  then show ?thesis by (simp add: comp_def)
qed

text \<open>
  C25. The dump of an unparsable packet is bounded and exact: it reads inside the packet, prints
  two digits for each of the first at most 32 bytes, and reading the digits back gives those
  bytes.
\<close>

theorem tm_dump_exact:
  assumes "parse tr data = None"
  shows "\<exists>dump. tm_report parse tr data =
      ''[TM] Received '' @ print_u (length data) @ '' bytes of telemetry (first '' @ print_u (min (length data) 32) @
      '' bytes): '' @ dump @ newline
    \<and> read_hex dump = take 32 data \<and> length dump = 2 * min (length data) 32"
proof -
  let ?n = "if length data < MAX_TM_PRINT_BYTES then length data else MAX_TM_PRINT_BYTES"
  have n: "?n = min (length data) 32" by (simp add: MAX_TM_PRINT_BYTES_def)
  let ?dump = "concat (map (\<lambda>b. print_02x (unat b)) (take 32 data))"
  have "concat (map (\<lambda>idx. print_02x (unat (data ! idx))) [0..<?n]) = ?dump"
    by (subst dump_loop) (simp_all add: MAX_TM_PRINT_BYTES_def)
  moreover have "length ?dump = 2 * min (length data) 32"
  proof -
    have "length (concat (map (\<lambda>b. print_02x (unat b)) bs)) = 2 * length bs" for bs :: "uint8 list"
    proof (induction bs)
      case (Cons b bs)
      have "unat b < 256" using unsigned_less [of b, where ?'a = nat] by simp
      with Cons show ?case by (simp add: print_02x_byte)
    qed simp
    from this [of "take 32 data"] show ?thesis by simp
  qed
  ultimately show ?thesis
    using assms read_hex_print [of "take 32 data"]
    by (intro exI [of _ ?dump]) (simp add: tm_report_def Let_def n)
qed

theorem tm_dump_exact_witness:
  "\<exists>dump. tm_report (\<lambda>_ _. None) (None :: unit option) (replicate 40 7) =
      ''[TM] Received '' @ print_u 40 @ '' bytes of telemetry (first '' @ print_u 32 @ '' bytes): '' @ dump @ newline
    \<and> length dump = 64"
proof -
  show ?thesis
    using tm_dump_exact [where parse = "\<lambda>_ _. None" and tr = "None :: unit option" and data = "replicate 40 7"] by auto
qed

section \<open>The sinks as executable objects\<close>

interpretation sink_object: executable_object
  "sink_performOperation receiveMessage parse S sid" "\<lambda>_. \<exists>queued. fifo_laws receiveMessage queued"
proof unfold_locales
  fix sink :: "('a, 'd, 'c) StubTelemetrySink" and k
  assume "\<exists>queued. fifo_laws receiveMessage queued"
  then obtain queued where fifo: "fifo_laws receiveMessage queued" by blast
  show "\<exists>s'. sink_performOperation receiveMessage parse S sid k sink = Some (OK, s') \<and> (\<exists>queued. fifo_laws receiveMessage queued)"
  proof (cases "sinkQueue sink = None \<or> sinkTmStore sink = None")
    case True
    with fifo show ?thesis by (auto simp: sink_performOperation_def split: option.splits)
  next
    case False
    then obtain q s where qs: "sinkQueue sink = Some q" "sinkTmStore sink = Some s" by auto
    from receive_loop_drains [OF fifo, of "sink_body parse (sinkTimeReader sink) S sid" q "(s, sinkOutput sink)"] fifo qs
    show ?thesis by (auto simp: sink_performOperation_def split_beta)
  qed
qed (simp add: sink_performOperation_def)

interpretation receiver_object: executable_object
  "receiver_performOperation receiveMessage V" "\<lambda>_. \<exists>queued. fifo_laws receiveMessage queued"
proof unfold_locales
  fix rcv :: "'a StubVerificationReceiver" and k
  assume "\<exists>queued. fifo_laws receiveMessage queued"
  then obtain queued where fifo: "fifo_laws receiveMessage queued" by blast
  show "\<exists>s'. receiver_performOperation receiveMessage V k rcv = Some (OK, s') \<and> (\<exists>queued. fifo_laws receiveMessage queued)"
  proof (cases "rcvQueue rcv")
    case None
    with fifo show ?thesis by (auto simp: receiver_performOperation_def)
  next
    case (Some q)
    from receive_loop_drains [OF fifo, of "\<lambda>message out. out @ verification_report V message" q "rcvOutput rcv"] fifo Some
    show ?thesis by (auto simp: receiver_performOperation_def)
  qed
qed (simp add: receiver_performOperation_def)

text \<open>
  Both sinks run forever without failing: over any number of periods every operation of
  the telemetry sink and of the verification receiver returns and reports \<^verbatim>\<open>OK\<close>, whatever is
  queued, with or without a queue or a store.
\<close>

lemma sinks_always_return_OK:
  assumes "fifo_laws receiveTm queuedTm" and "fifo_laws receiveReport queuedReport"
  shows "(\<exists>sink'. run_periods (sink_performOperation receiveTm parse S sid) n sink = Some (replicate n OK, sink'))
    \<and> (\<exists>rcv'. run_periods (receiver_performOperation receiveReport V) n rcv = Some (replicate n OK, rcv'))"
  using sink_object.run_periods_OK [of receiveTm parse S sid n sink]
    receiver_object.run_periods_OK [of receiveReport V n rcv] assms by blast

definition sample_reports :: "(nat \<times> nat \<times> nat \<times> int) verification_if" where
  "sample_reports = \<lparr>getReportId = fst, getAckFlags = fst \<circ> snd, getStep = fst \<circ> snd \<circ> snd, getErrorCode = snd \<circ> snd \<circ> snd\<rparr>"

lemma sinks_always_return_OK_witness:
  "\<exists>sink'. run_periods (sink_performOperation list_receive (\<lambda>_ _. None) pool_storage (\<lambda>m. m)) 3 sample_sink =
     Some ([OK, OK, OK], sink')"
  using sinks_always_return_OK [OF list_receive_fifo list_receive_fifo,
      where parse = "\<lambda>_ _. None" and S = pool_storage and sid = "\<lambda>m. m" and n = 3 and sink = sample_sink
        and V = sample_reports and rcv = "\<lparr>rcvQueue = Some [], rcvOutput = []\<rparr>"]
  by (auto simp: eval_nat_numeral)

text \<open>
  C24. The verification receiver prints one line per queued report, in the order of the queue,
  and empties the queue.
\<close>

theorem receiver_prints_all_reports:
  assumes "fifo_laws receiveMessage queued" and "rcvQueue rcv = Some q"
  shows "\<exists>q'. receiver_performOperation receiveMessage V k rcv =
      Some (OK, rcv\<lparr>rcvQueue := Some q', rcvOutput := rcvOutput rcv @ concat (map (verification_report V) (queued q))\<rparr>)
    \<and> queued q' = []"
proof -
  have "fold (\<lambda>m out. out @ verification_report V m) ms out = out @ concat (map (verification_report V) ms)" for ms out
    by (induction ms arbitrary: out) simp_all
  with receive_loop_drains [OF assms(1), of "\<lambda>message out. out @ verification_report V message" q "rcvOutput rcv"] assms(2)
  show ?thesis by (auto simp: receiver_performOperation_def)
qed

theorem receiver_prints_all_reports_witness:
  "receiver_performOperation list_receive sample_reports 0 \<lparr>rcvQueue = Some [(1, 10, 0, 0), (7, 255, 2, -1)], rcvOutput = []\<rparr>
   = Some (OK, \<lparr>rcvQueue = Some [], rcvOutput =
       ''[TMTC] Verification report 1 ack 0x0a step 0 error 0'' @ newline @
       ''[TMTC] Verification report 7 ack 0xff step 2 error -1'' @ newline\<rparr>)"
proof -
  let ?ms = "[(1, 10, 0, 0), (7, 255, 2, -1)] :: (nat \<times> nat \<times> nat \<times> int) list"
  let ?r = "\<lparr>rcvQueue = Some ?ms, rcvOutput = []\<rparr>"
  have q: "rcvQueue ?r = Some ?ms" by simp
  have "concat (map (verification_report sample_reports) ?ms) =
       ''[TMTC] Verification report 1 ack 0x0a step 0 error 0'' @ newline @
       ''[TMTC] Verification report 7 ack 0xff step 2 error -1'' @ newline"
    by (simp add: verification_report_def sample_reports_def print_u.simps print_02x_def print_x.simps print_d_def
        hex_digit_def char_of_def bit_0)
  with receiver_prints_all_reports [OF list_receive_fifo q, of sample_reports 0] show ?thesis by auto
qed

section \<open>The verification queue\<close>

text \<open>Any sequence of \<^verbatim>\<open>initialize\<close> (\<open>True\<close>) and \<^verbatim>\<open>getVerificationQueue\<close> (\<open>False\<close>) calls.\<close>

primrec receiver_calls ::
  "(nat \<Rightarrow> nat \<Rightarrow> 'f \<Rightarrow> 'q option \<times> 'f) \<Rightarrow> nat \<Rightarrow> bool list \<Rightarrow> 'f \<Rightarrow> 'q StubVerificationReceiver \<Rightarrow>
   'f \<times> 'q StubVerificationReceiver" where
  "receiver_calls create maxMsg [] f rcv = (f, rcv)"
| "receiver_calls create maxMsg (c # cs) f rcv =
     (if c then (case receiver_initialize create maxMsg OK f rcv of (_, f', rcv') \<Rightarrow> receiver_calls create maxMsg cs f' rcv')
      else (case getVerificationQueue create maxMsg (\<lambda>_. 0) 0 f rcv of (_, f', rcv') \<Rightarrow> receiver_calls create maxMsg cs f' rcv'))"

lemma receiver_calls_keep:
  "rcvQueue rcv = Some q \<Longrightarrow> receiver_calls create maxMsg cs f rcv = (f, rcv)"
  by (induction cs arbitrary: f rcv) (auto simp: receiver_initialize_def getVerificationQueue_def)

text \<open>
  The verification queue is created exactly once: whichever of \<^verbatim>\<open>initialize\<close> and
  \<^verbatim>\<open>getVerificationQueue\<close> comes first creates it, with depth 10, and no later call creates
  another.
\<close>

lemma verification_queue_created_once:
  assumes "rcvQueue rcv = None" and "create 10 maxMsg f = (Some q, f')" and "cs \<noteq> []"
  shows "receiver_calls create maxMsg cs f rcv = (f', rcv\<lparr>rcvQueue := Some q\<rparr>)"
proof (cases cs)
  case (Cons c cs')
  then show ?thesis
    using assms(1,2) receiver_calls_keep [of "rcv\<lparr>rcvQueue := Some q\<rparr>" q]
    by (cases c) (simp_all add: receiver_initialize_def getVerificationQueue_def QUEUE_DEPTH_def)
qed (use assms(3) in simp)

lemma verification_queue_created_once_witness:
  "receiver_calls (\<lambda>d m f. (Some f, Suc f)) 64 [False, True, False] (5 :: nat) new_StubVerificationReceiver
   = (6, \<lparr>rcvQueue = Some 5, rcvOutput = []\<rparr>)"
  using verification_queue_created_once [of new_StubVerificationReceiver "\<lambda>d m f. (Some f, Suc f)" 64 "5 :: nat" 5 6 "[False, True, False]"]
  by (simp add: new_StubVerificationReceiver_def)

section \<open>The telecommand distributor\<close>

text \<open>The packet a command is turned into.\<close>

definition command_packet :: "uint8 \<Rightarrow> uint8 list option \<Rightarrow> nat \<Rightarrow> ('v, 's) StubPusDistributor \<Rightarrow> tc_packet" where
  "command_packet subservice data dataLen d =
     \<lparr>tcApid = apid d, tcSequenceCount = sequenceCounter d, tcService = registeredServiceId d, tcSubservice = subservice,
      tcAppData = (if data \<noteq> None \<and> dataLen > 0 then data else None),
      tcAppDataLen = (if data \<noteq> None \<and> dataLen > 0 then dataLen else 0)\<rparr>"

abbreviation tc_elems ::
  "('s \<Rightarrow> store_address_t \<rightharpoonup> uint8 list) \<Rightarrow> ('v, 's) StubPusDistributor \<Rightarrow> store_address_t \<rightharpoonup> uint8 list" where
  "tc_elems elems d \<equiv> (case tcStore d of None \<Rightarrow> Map.empty | Some s \<Rightarrow> elems s)"

lemma sendCommand_stages:
  assumes "registeredService d \<noteq> None" and "tcStore d = Some s" and "readable data dataLen"
    and "getFreeElement (tcStorage T) (serializedSize T (command_packet sub data dataLen d)) s = (r1, a, s1)"
    and "serializeBe T (command_packet sub data dataLen d) (serializedSize T (command_packet sub data dataLen d)) = (r2, bytes)"
    and "send T (serviceRequestQueue d) a net = (r3, net')"
  shows "sendCommand T sub data dataLen d net =
    (let d1 = d\<lparr>sequenceCounter := sequenceCounter d + 1\<rparr>; s2 = writeElement (tcStorage T) a bytes s1
     in Some (if r1 \<noteq> OK then (r1, d1\<lparr>tcStore := Some s1\<rparr>, net)
              else if r2 \<noteq> OK then (r2, d1\<lparr>tcStore := Some (snd (deleteData (tcStorage T) a s2))\<rparr>, net)
              else (r3, d1\<lparr>tcStore := Some s2\<rparr>, net')))"
proof -
  obtain v where v: "registeredService d = Some v" using assms(1) by blast
  have rd: "readable (if data \<noteq> None \<and> dataLen > 0 then data else None) (if data \<noteq> None \<and> dataLen > 0 then dataLen else 0)"
    using assms(3) by simp
  show ?thesis
    using assms(2,4-6) v rd unfolding command_packet_def
    by (simp add: sendCommand_def Let_def)
qed

text \<open>A readable payload never leads to undefined behaviour, and every attempt counts.\<close>

lemma sendCommand_total:
  assumes "readable data dataLen"
  shows "\<exists>r d' net'. sendCommand T sub data dataLen d net = Some (r, d', net')
    \<and> registeredService d' = registeredService d \<and> (tcStore d' = None \<longleftrightarrow> tcStore d = None)
    \<and> sequenceCounter d' = (if registeredService d \<noteq> None \<and> tcStore d \<noteq> None then sequenceCounter d + 1 else sequenceCounter d)"
proof (cases "registeredService d = None \<or> tcStore d = None")
  case True
  then show ?thesis by (auto simp: sendCommand_def split: option.splits)
next
  case False
  then obtain s where reg: "registeredService d \<noteq> None" and s: "tcStore d = Some s" by auto
  let ?p = "command_packet sub data dataLen d"
  obtain r1 a s1 where g: "getFreeElement (tcStorage T) (serializedSize T ?p) s = (r1, a, s1)"
    by (cases "getFreeElement (tcStorage T) (serializedSize T ?p) s")
  obtain r2 bytes where z: "serializeBe T ?p (serializedSize T ?p) = (r2, bytes)"
    by (cases "serializeBe T ?p (serializedSize T ?p)")
  obtain r3 net' where n: "send T (serviceRequestQueue d) a net = (r3, net')"
    by (cases "send T (serviceRequestQueue d) a net")
  from sendCommand_stages [OF reg s assms g z n] reg s show ?thesis by (auto simp: Let_def)
qed

definition sample_tc :: "(pool, store_address_t list) tc_if" where
  "sample_tc = \<lparr>tcStorage = pool_storage, serializedSize = (\<lambda>p. 3 + tcAppDataLen p),
     serializeBe = (\<lambda>p n. (OK, tcService p # tcSubservice p # ucast (tcSequenceCount p) #
        take (tcAppDataLen p) (case tcAppData p of None \<Rightarrow> [] | Some bs \<Rightarrow> bs))),
     send = (\<lambda>q a net. if length net < 2 then (OK, net @ [a]) else (Code 3, net))\<rparr>"

definition sample_distributor :: "(unit, pool) StubPusDistributor" where
  "sample_distributor = \<lparr>registeredService = Some (), serviceRequestQueue = 77, registeredServiceId = 200,
     tcStore = Some [None, None], sequenceCounter = 65535, apid = 1\<rparr>"

lemma sample_tc_laws: "storage_laws (tcStorage sample_tc) pool_elems"
  by (simp add: sample_tc_def pool_storage_laws)

lemma sample_tc_free:
  "getFreeElement (tcStorage sample_tc) n [None, None] = (OK, 0, [Some (replicate n 0), None])"
  by (simp add: sample_tc_def pool_storage_def)

text \<open>
  Sending a command: with a registered service, a readable payload, a free store element and
  a successful serialisation, exactly one element holding exactly the packet's bytes is added to
  the TC store, its address is posted to the service's request queue, and the packet carries the
  current sequence count, which is then advanced (modulo 65536).
\<close>

lemma sendCommand_stores_and_posts:
  assumes "storage_laws (tcStorage T) elems" and "registeredService d \<noteq> None" and "tcStore d = Some s"
    and "readable data dataLen" and "p = command_packet sub data dataLen d"
    and "getFreeElement (tcStorage T) (serializedSize T p) s = (OK, a, s1)"
    and "serializeBe T p (serializedSize T p) = (OK, bytes)" and "length bytes = serializedSize T p"
    and "send T (serviceRequestQueue d) a net = (r, net')"
  shows "\<exists>d'. sendCommand T sub data dataLen d net = Some (r, d', net')
    \<and> elems s a = None \<and> tc_elems elems d' = (elems s)(a \<mapsto> bytes)
    \<and> tcSequenceCount p = sequenceCounter d \<and> sequenceCounter d' = sequenceCounter d + 1"
proof -
  obtain old where free: "elems s a = None" and old: "length old = serializedSize T p" "elems s1 = (elems s)(a \<mapsto> old)"
    using storage_getFree_OK [OF assms(1,6)] .
  have "elems (writeElement (tcStorage T) a bytes s1) = (elems s1)(a \<mapsto> bytes @ drop (length bytes) old)"
    using old assms(8) by (intro storage_write [OF assms(1)]) simp_all
  then have el: "elems (writeElement (tcStorage T) a bytes s1) = (elems s)(a \<mapsto> bytes)"
    using old assms(8) by simp
  note stages = sendCommand_stages [OF assms(2-4) assms(6,7) [unfolded assms(5)] assms(9)]
  show ?thesis
    using free el stages by (simp add: Let_def assms(5) command_packet_def)
qed

lemma sendCommand_stores_and_posts_witness:
  "\<exists>d'. sendCommand sample_tc 2 (Some [9]) 1 sample_distributor [] = Some (OK, d', [0])
     \<and> tc_elems pool_elems d' 0 = Some [200, 2, 255, 9] \<and> sequenceCounter d' = 0"
proof -
  let ?p = "command_packet 2 (Some [9]) 1 sample_distributor"
  have "registeredService sample_distributor \<noteq> None"
    "tcStore sample_distributor = Some [None, None]" "readable (Some [9]) 1" "?p = ?p"
    "getFreeElement (tcStorage sample_tc) (serializedSize sample_tc ?p) [None, None] = (OK, 0, [Some (replicate 4 0), None])"
    "serializeBe sample_tc ?p (serializedSize sample_tc ?p) = (OK, [200, 2, 255, 9])"
    "length [200, 2, 255, 9 :: uint8] = serializedSize sample_tc ?p"
    "send sample_tc (serviceRequestQueue sample_distributor) 0 [] = (OK, [0])"
    by (simp_all add: sample_tc_free, simp_all add: sample_tc_def sample_distributor_def command_packet_def)
  from sendCommand_stores_and_posts [OF sample_tc_laws this] show ?thesis
    by (auto simp: sample_distributor_def)
qed

text \<open>
  C17. A command that fails before it is posted leaves no element behind: without a service or a
  store nothing changes at all; when the store is full or the serialisation fails, the store
  holds the same elements as before and no queue is touched.
\<close>

theorem sendCommand_failure_frees:
  assumes "storage_laws (tcStorage T) elems" and "readable data dataLen" and "p = command_packet sub data dataLen d"
  shows "(registeredService d = None \<or> tcStore d = None \<longrightarrow> sendCommand T sub data dataLen d net = Some (FAILED, d, net))
    \<and> (\<forall>s. registeredService d \<noteq> None \<and> tcStore d = Some s
        \<and> (fst (getFreeElement (tcStorage T) (serializedSize T p) s) \<noteq> OK
           \<or> fst (serializeBe T p (serializedSize T p)) \<noteq> OK \<and> length (snd (serializeBe T p (serializedSize T p))) \<le> serializedSize T p)
        \<longrightarrow> (\<exists>r d'. sendCommand T sub data dataLen d net = Some (r, d', net) \<and> r \<noteq> OK \<and> tc_elems elems d' = elems s))"
proof (intro conjI allI impI)
  assume "registeredService d = None \<or> tcStore d = None"
  then show "sendCommand T sub data dataLen d net = Some (FAILED, d, net)"
    by (auto simp: sendCommand_def split: option.splits)
next
  fix s
  assume h: "registeredService d \<noteq> None \<and> tcStore d = Some s
    \<and> (fst (getFreeElement (tcStorage T) (serializedSize T p) s) \<noteq> OK
       \<or> fst (serializeBe T p (serializedSize T p)) \<noteq> OK \<and> length (snd (serializeBe T p (serializedSize T p))) \<le> serializedSize T p)"
  obtain r1 a s1 where g: "getFreeElement (tcStorage T) (serializedSize T p) s = (r1, a, s1)"
    by (cases "getFreeElement (tcStorage T) (serializedSize T p) s")
  obtain r2 bytes where z: "serializeBe T p (serializedSize T p) = (r2, bytes)"
    by (cases "serializeBe T p (serializedSize T p)")
  obtain r3 net' where n: "send T (serviceRequestQueue d) a net = (r3, net')"
    by (cases "send T (serviceRequestQueue d) a net")
  note stages = sendCommand_stages [OF _ _ assms(2) g [unfolded assms(3)] z [unfolded assms(3)] n]
  show "\<exists>r d'. sendCommand T sub data dataLen d net = Some (r, d', net) \<and> r \<noteq> OK \<and> tc_elems elems d' = elems s"
  proof (cases "r1 = OK")
    case False
    with h stages storage_getFree_fail [OF assms(1) g False] show ?thesis by (simp add: Let_def)
  next
    case True
    with h g z have bad: "r2 \<noteq> OK" "length bytes \<le> serializedSize T p" by auto
    obtain old where old: "elems s a = None" "length old = serializedSize T p" "elems s1 = (elems s)(a \<mapsto> old)"
      using storage_getFree_OK [OF assms(1) g [unfolded True]] .
    have "elems (writeElement (tcStorage T) a bytes s1) = (elems s1)(a \<mapsto> bytes @ drop (length bytes) old)"
      using old bad by (intro storage_write [OF assms(1)]) simp_all
    then have "elems (snd (deleteData (tcStorage T) a (writeElement (tcStorage T) a bytes s1))) = elems s"
      using storage_delete [OF assms(1)] old by (auto simp: fun_eq_iff)
    with h stages True bad show ?thesis by (simp add: Let_def)
  qed
qed

theorem sendCommand_failure_frees_witness:
  "\<exists>r d'. sendCommand sample_tc 2 (Some [9]) 1 (sample_distributor\<lparr>tcStore := Some [Some []]\<rparr>) [] = Some (r, d', [])
     \<and> r \<noteq> OK \<and> tc_elems pool_elems d' = pool_elems [Some []]"
proof -
  have rd: "readable (Some [9]) 1" by simp
  from sendCommand_failure_frees [OF sample_tc_laws rd refl, where sub = 2
      and d = "sample_distributor\<lparr>tcStore := Some [Some []]\<rparr>" and net = "[]"]
  show ?thesis by (auto simp: sample_tc_def pool_storage_def sample_distributor_def)
qed



end
