(* ===== verification/ObjectFactory.thy ===== *)
theory ObjectFactory
  imports WebcamLink WebcamCommandingService TmtcProperties
begin

text \<open>
  Creation and wiring of the mission objects (\<^verbatim>\<open>mission/ObjectFactory\<close>): which objects exist after
  \<^verbatim>\<open>createMissionObjects\<close> and who owns the cookie. \<open>'s\<close> is the TC store of the distributor.

  The namespace-scope \<^verbatim>\<open>unique_ptr\<close>s are the fields of one record. \<open>constructed\<close> lists the object
  ids passed to the constructors, in order: each constructor registers its object under its id
  with the object manager. The ids of the framework's own objects are arguments.
\<close>

section \<open>The objects\<close>

record framework_ids =
  IPC_STORE :: object_id_t
  TC_STORE :: object_id_t
  TM_STORE :: object_id_t
  TIME_STAMPER :: object_id_t
  VERIFICATION_REPORTER :: object_id_t

text \<open>A pool is configured by pairs of a number of elements and their size.\<close>

record local_pool =
  poolObjectId :: object_id_t
  poolConfig :: "(nat \<times> nat) list"
  poolRegistered :: bool
  poolSpillsToHigher :: bool

record verification_reporter =
  reporterObjectId :: object_id_t
  reporterReceiver :: "object_id_t option"

record handler_args =
  handlerObjectId :: object_id_t
  handlerComIF :: object_id_t
  handlerCookie :: "WebcamCookie option"
  handlerHasFdir :: bool
  handlerQueueSize :: nat

record service_object =
  serviceConfig :: "object_id_t service_config"
  servicePacketSource :: "object_id_t option"
  servicePacketDestination :: "object_id_t option"

record 's MissionObjects =
  ipcStorePtr :: "local_pool option"
  tcStorePtr :: "local_pool option"
  tmStorePtr :: "local_pool option"
  timeStamperPtr :: "object_id_t option"
  verificationReporterPtr :: "verification_reporter option"
  telemetrySinkPtr :: "object_id_t option"
  verificationReceiverPtr :: "object_id_t option"
  pusDistributorPtr :: "(service_object, 's) StubPusDistributor option"
  webcamComIFPtr :: "WebcamComIF option"
  webcamCookiePtr :: "WebcamCookie option"
  webcamHandlerPtr :: "handler_args option"
  webcamServicePtr :: "service_object option"
  serviceRegistered :: bool
  constructed :: "object_id_t list"

definition no_objects :: "'s MissionObjects" where
  "no_objects =
     \<lparr>ipcStorePtr = None, tcStorePtr = None, tmStorePtr = None, timeStamperPtr = None,
      verificationReporterPtr = None, telemetrySinkPtr = None, verificationReceiverPtr = None,
      pusDistributorPtr = None, webcamComIFPtr = None, webcamCookiePtr = None, webcamHandlerPtr = None,
      webcamServicePtr = None, serviceRegistered = False, constructed = []\<rparr>"

definition construct :: "object_id_t \<Rightarrow> 's MissionObjects \<Rightarrow> 's MissionObjects" where
  "construct i s = s\<lparr>constructed := constructed s @ [i]\<rparr>"

section \<open>createMissionObjects\<close>

definition createStores :: "framework_ids \<Rightarrow> 's MissionObjects \<Rightarrow> 's MissionObjects" where
  "createStores ids s0 =
     (let s1 = (if ipcStorePtr s0 = None
                then construct (IPC_STORE ids) (s0\<lparr>ipcStorePtr :=
                  Some \<lparr>poolObjectId = IPC_STORE ids, poolConfig = [(40, 32), (20, 64), (10, 128)],
                        poolRegistered = True, poolSpillsToHigher = True\<rparr>\<rparr>)
                else s0);
          s2 = (if tcStorePtr s1 = None
                then construct (TC_STORE ids) (s1\<lparr>tcStorePtr :=
                  Some \<lparr>poolObjectId = TC_STORE ids, poolConfig = [(20, 256), (10, 512)],
                        poolRegistered = True, poolSpillsToHigher = True\<rparr>\<rparr>)
                else s1);
          s3 = (if tmStorePtr s2 = None
                then construct (TM_STORE ids) (s2\<lparr>tmStorePtr :=
                  Some \<lparr>poolObjectId = TM_STORE ids, poolConfig = [(20, 256), (10, 512)],
                        poolRegistered = True, poolSpillsToHigher = True\<rparr>\<rparr>)
                else s2)
      in if timeStamperPtr s3 = None
         then construct (TIME_STAMPER ids) (s3\<lparr>timeStamperPtr := Some (TIME_STAMPER ids)\<rparr>)
         else s3)"

definition createTmtc :: "framework_ids \<Rightarrow> MessageQueueId_t \<Rightarrow> 's MissionObjects \<Rightarrow> 's MissionObjects" where
  "createTmtc ids NO_QUEUE s0 =
     (let s1 = (if verificationReceiverPtr s0 = None
                then construct objectIdWebcamVerificationSink
                       (s0\<lparr>verificationReceiverPtr := Some objectIdWebcamVerificationSink\<rparr>)
                else s0);
          s2 = (if verificationReporterPtr s1 = None
                then construct (VERIFICATION_REPORTER ids) (s1\<lparr>verificationReporterPtr :=
                  Some \<lparr>reporterObjectId = VERIFICATION_REPORTER ids, reporterReceiver = verificationReceiverPtr s1\<rparr>\<rparr>)
                else s1);
          s3 = (if telemetrySinkPtr s2 = None
                then construct objectIdWebcamTelemetrySink
                       (s2\<lparr>telemetrySinkPtr := Some objectIdWebcamTelemetrySink\<rparr>)
                else s2)
      in if pusDistributorPtr s3 = None
         then construct objectIdWebcamTcDistributor
                (s3\<lparr>pusDistributorPtr := Some (new_StubPusDistributor NO_QUEUE)\<rparr>)
         else s3)"

text \<open>
  The cookie's initial rate is 30.0. \<^verbatim>\<open>webcamCookie.release()\<close> hands the cookie to the handler and
  clears the pointer.
\<close>

definition createDevice :: "'s MissionObjects \<Rightarrow> 's MissionObjects" where
  "createDevice s0 =
     (let s1 = (if webcamComIFPtr s0 = None
                then construct objectIdWebcamComIF (s0\<lparr>webcamComIFPtr := Some (new_WebcamComIF objectIdWebcamComIF)\<rparr>)
                else s0);
          s2 = (if webcamCookiePtr s1 = None \<and> webcamHandlerPtr s1 = None
                then construct objectIdWebcamCookie
                       (s1\<lparr>webcamCookiePtr := Some (new_WebcamCookie ''/dev/video0'' 0x403E000000000000)\<rparr>)
                else s1)
      in if webcamHandlerPtr s2 = None \<and> webcamCookiePtr s2 \<noteq> None
         then construct objectIdWebcamHandler
                (s2\<lparr>webcamHandlerPtr := Some \<lparr>handlerObjectId = objectIdWebcamHandler,
                      handlerComIF = objectIdWebcamComIF, handlerCookie = webcamCookiePtr s2,
                      handlerHasFdir = False, handlerQueueSize = 20\<rparr>,
                    webcamCookiePtr := None\<rparr>)
         else s2)"

text \<open>\<open>getIdentifier\<close> and \<open>getRequestQueue\<close> are those of \<^verbatim>\<open>CommandingServiceBase\<close>.\<close>

definition createService ::
  "(service_object \<Rightarrow> uint8) \<Rightarrow> (service_object \<Rightarrow> MessageQueueId_t) \<Rightarrow> 's MissionObjects \<Rightarrow> 's MissionObjects" where
  "createService getIdentifier getRequestQueue s0 =
     (let s1 = (if webcamServicePtr s0 = None
                then construct objectIdWebcamCommandingService
                       (s0\<lparr>webcamServicePtr :=
                          Some \<lparr>serviceConfig = new_WebcamCommandingService objectIdWebcamCommandingService
                                  (case verificationReporterPtr s0 of None \<Rightarrow> None | Some r \<Rightarrow> Some (reporterObjectId r)),
                                servicePacketSource = Some objectIdWebcamTcDistributor,
                                servicePacketDestination = Some objectIdWebcamTelemetrySink\<rparr>\<rparr>)
                else s0)
      in case (pusDistributorPtr s1, webcamServicePtr s1) of
           (Some d, Some v) \<Rightarrow>
             if \<not> serviceRegistered s1
             then s1\<lparr>pusDistributorPtr := Some (snd (registerService getIdentifier getRequestQueue (Some v) d)),
                     serviceRegistered := True\<rparr>
             else s1
         | _ \<Rightarrow> s1)"

definition createMissionObjects ::
  "framework_ids \<Rightarrow> MessageQueueId_t \<Rightarrow> (service_object \<Rightarrow> uint8) \<Rightarrow> (service_object \<Rightarrow> MessageQueueId_t) \<Rightarrow>
   's MissionObjects \<Rightarrow> 's MissionObjects" where
  "createMissionObjects ids NO_QUEUE getIdentifier getRequestQueue s =
     createService getIdentifier getRequestQueue (createDevice (createTmtc ids NO_QUEUE (createStores ids s)))"

section \<open>Properties\<close>

lemmas factory_defs = createMissionObjects_def createStores_def createTmtc_def createDevice_def createService_def construct_def

text \<open>After the factory ran, every pointer is set and the service is registered; the cookie is the handler's.\<close>

definition complete :: "'s MissionObjects \<Rightarrow> bool" where
  "complete s \<longleftrightarrow>
     ipcStorePtr s \<noteq> None \<and> tcStorePtr s \<noteq> None \<and> tmStorePtr s \<noteq> None \<and> timeStamperPtr s \<noteq> None
     \<and> verificationReporterPtr s \<noteq> None \<and> telemetrySinkPtr s \<noteq> None \<and> verificationReceiverPtr s \<noteq> None
     \<and> pusDistributorPtr s \<noteq> None \<and> webcamComIFPtr s \<noteq> None \<and> webcamHandlerPtr s \<noteq> None
     \<and> webcamServicePtr s \<noteq> None \<and> serviceRegistered s"

lemma createStores_complete:
  "ipcStorePtr (createStores ids s) \<noteq> None" "tcStorePtr (createStores ids s) \<noteq> None"
  "tmStorePtr (createStores ids s) \<noteq> None" "timeStamperPtr (createStores ids s) \<noteq> None"
  by (simp_all add: createStores_def construct_def Let_def)

lemma createTmtc_complete:
  "verificationReporterPtr (createTmtc ids nq s) \<noteq> None" "telemetrySinkPtr (createTmtc ids nq s) \<noteq> None"
  "verificationReceiverPtr (createTmtc ids nq s) \<noteq> None" "pusDistributorPtr (createTmtc ids nq s) \<noteq> None"
  "ipcStorePtr (createTmtc ids nq s) = ipcStorePtr s" "tcStorePtr (createTmtc ids nq s) = tcStorePtr s"
  "tmStorePtr (createTmtc ids nq s) = tmStorePtr s" "timeStamperPtr (createTmtc ids nq s) = timeStamperPtr s"
  by (simp_all add: createTmtc_def construct_def Let_def)

lemma createDevice_complete:
  "webcamComIFPtr (createDevice s) \<noteq> None" "webcamHandlerPtr (createDevice s) \<noteq> None"
  "ipcStorePtr (createDevice s) = ipcStorePtr s" "tcStorePtr (createDevice s) = tcStorePtr s"
  "tmStorePtr (createDevice s) = tmStorePtr s" "timeStamperPtr (createDevice s) = timeStamperPtr s"
  "verificationReporterPtr (createDevice s) = verificationReporterPtr s" "telemetrySinkPtr (createDevice s) = telemetrySinkPtr s"
  "verificationReceiverPtr (createDevice s) = verificationReceiverPtr s" "pusDistributorPtr (createDevice s) = pusDistributorPtr s"
  by (simp_all add: createDevice_def construct_def Let_def) auto

lemma createService_complete:
  assumes "pusDistributorPtr s \<noteq> None"
  shows "webcamServicePtr (createService gi gq s) \<noteq> None \<and> serviceRegistered (createService gi gq s)
    \<and> pusDistributorPtr (createService gi gq s) \<noteq> None"
    and "ipcStorePtr (createService gi gq s) = ipcStorePtr s" "tcStorePtr (createService gi gq s) = tcStorePtr s"
    "tmStorePtr (createService gi gq s) = tmStorePtr s" "timeStamperPtr (createService gi gq s) = timeStamperPtr s"
    "verificationReporterPtr (createService gi gq s) = verificationReporterPtr s"
    "telemetrySinkPtr (createService gi gq s) = telemetrySinkPtr s"
    "verificationReceiverPtr (createService gi gq s) = verificationReceiverPtr s"
    "webcamComIFPtr (createService gi gq s) = webcamComIFPtr s" "webcamHandlerPtr (createService gi gq s) = webcamHandlerPtr s"
  using assms by (auto simp: createService_def construct_def Let_def)

lemma createMissionObjects_complete: "complete (createMissionObjects ids nq gi gq s)"
proof -
  let ?s = "createDevice (createTmtc ids nq (createStores ids s))"
  have "pusDistributorPtr ?s \<noteq> None"
    unfolding createDevice_complete by (rule createTmtc_complete)
  note svc = createService_complete [OF this, of gi gq]
  show ?thesis
    unfolding complete_def createMissionObjects_def svc(2-) createDevice_complete(3-) createTmtc_complete(5-)
    by (intro conjI createStores_complete createTmtc_complete(1-4) createDevice_complete(1,2)) (simp_all only: svc(1) not_False_eq_True)
qed

lemma complete_stable: "complete s \<Longrightarrow> createMissionObjects ids nq gi gq s = s"
proof -
  assume c: "complete s"
  have "createStores ids s = s"
    unfolding createStores_def Let_def using c by (simp only: complete_def if_False simp_thms)
  moreover have "createTmtc ids nq s = s"
    unfolding createTmtc_def Let_def using c by (simp only: complete_def if_False simp_thms)
  moreover have "createDevice s = s"
    unfolding createDevice_def Let_def using c by (simp only: complete_def if_False simp_thms)
  moreover have "createService gi gq s = s"
    unfolding createService_def Let_def using c by (auto simp: complete_def)
  ultimately show ?thesis by (simp add: createMissionObjects_def)
qed

text \<open>
  Creating the mission objects is idempotent from every state: the first call completes the
  set of objects, and any further call constructs nothing, registers nothing and changes nothing.
\<close>

lemma createMissionObjects_idempotent:
  "complete (createMissionObjects ids nq gi gq s)
   \<and> createMissionObjects ids nq gi gq (createMissionObjects ids nq gi gq s) = createMissionObjects ids nq gi gq s"
  by (intro conjI createMissionObjects_complete complete_stable)

text \<open>
  C23. The wiring of the mission: starting with no objects, every object is constructed exactly
  once, under pairwise different ids; the cookie for \<^verbatim>\<open>/dev/video0\<close> has exactly one owner, the
  handler; the handler talks to the constructed interface; the distributor sends to the webcam
  service under its service id, and the service reports to the constructed reporter and
  telemetry sink.
\<close>

theorem mission_wiring:
  assumes "distinct ([IPC_STORE ids, TC_STORE ids, TM_STORE ids, TIME_STAMPER ids, VERIFICATION_REPORTER ids] @
      [objectIdWebcamHandler, objectIdWebcamCookie, objectIdWebcamComIF, objectIdWebcamCommandingService,
       objectIdWebcamTcDistributor, objectIdWebcamTelemetrySink, objectIdWebcamVerificationSink])"
    and "s = createMissionObjects ids nq gi gq no_objects"
    and "\<forall>v. gi v = svcServiceId (serviceConfig v)"
  shows "distinct (constructed s) \<and> length (constructed s) = 12
    \<and> webcamCookiePtr s = None
    \<and> (\<exists>h c d v. webcamHandlerPtr s = Some h \<and> handlerCookie h = Some c \<and> getDevicePath c = ''/dev/video0''
        \<and> handlerComIF h \<in> set (constructed s) \<and> map_option comIFObjectId (webcamComIFPtr s) = Some (handlerComIF h)
        \<and> webcamServicePtr s = Some v \<and> pusDistributorPtr s = Some d
        \<and> registeredService d = Some v \<and> registeredServiceId d = SERVICE_ID
        \<and> serviceRequestQueue d = gq v \<and> apid d = svcApid (serviceConfig v)
        \<and> svcReporter (serviceConfig v) = map_option reporterObjectId (verificationReporterPtr s)
        \<and> servicePacketDestination v = telemetrySinkPtr s)"
proof -
  have c: "constructed s = [IPC_STORE ids, TC_STORE ids, TM_STORE ids, TIME_STAMPER ids, objectIdWebcamVerificationSink,
      VERIFICATION_REPORTER ids, objectIdWebcamTelemetrySink, objectIdWebcamTcDistributor, objectIdWebcamComIF,
      objectIdWebcamCookie, objectIdWebcamHandler, objectIdWebcamCommandingService]"
    by (simp add: assms(2) factory_defs no_objects_def Let_def)
  have "distinct (constructed s)" unfolding c using assms(1) by auto
  moreover have "length (constructed s) = 12" "webcamCookiePtr s = None"
    by (simp_all add: c, simp add: assms(2) factory_defs no_objects_def Let_def)
  ultimately show ?thesis
    using assms(3) by (simp add: c, simp add: assms(2) factory_defs no_objects_def Let_def getDevicePath_def new_WebcamCookie_def
        new_WebcamComIF_def registerService_def new_StubPusDistributor_def new_WebcamCommandingService_def APID_def)
qed

definition sample_ids :: framework_ids where
  "sample_ids = \<lparr>IPC_STORE = 1, TC_STORE = 2, TM_STORE = 3, TIME_STAMPER = 4, VERIFICATION_REPORTER = 5\<rparr>"

theorem mission_wiring_witness:
  "distinct (constructed (createMissionObjects sample_ids 0 (\<lambda>v. svcServiceId (serviceConfig v)) (\<lambda>v. 7) (no_objects :: pool MissionObjects)))"
proof -
  have "distinct ([IPC_STORE sample_ids, TC_STORE sample_ids, TM_STORE sample_ids, TIME_STAMPER sample_ids,
      VERIFICATION_REPORTER sample_ids] @
      [objectIdWebcamHandler, objectIdWebcamCookie, objectIdWebcamComIF, objectIdWebcamCommandingService,
       objectIdWebcamTcDistributor, objectIdWebcamTelemetrySink, objectIdWebcamVerificationSink])"
    by (simp add: sample_ids_def id_defs)
  from mission_wiring [OF this, of "createMissionObjects sample_ids 0 (\<lambda>v. svcServiceId (serviceConfig v)) (\<lambda>v. 7) (no_objects :: pool MissionObjects)"]
  show ?thesis by simp
qed

end
