(* ===== verification/Interleaving.thy ===== *)
theory Interleaving
  imports Prelude
begin

text \<open>
  Threads that share a \<^verbatim>\<open>std::mutex\<close>. A program is a function giving the next atomic action of
  each thread, \<open>None\<close> when the thread is blocked; any thread that is not blocked may be scheduled
  next. The contract \<open>lock_discipline\<close> says how a program uses one mutex; its clients are the two
  workshop programs.
\<close>

section \<open>Interleaved execution\<close>

definition interleaved :: "('t \<Rightarrow> 's \<Rightarrow> 's option) \<Rightarrow> 's \<Rightarrow> 's \<Rightarrow> bool" where
  "interleaved exec s s' \<longleftrightarrow> (\<exists>t. exec t s = Some s')"

text \<open>Running a given schedule; \<open>None\<close> if it picks a blocked thread.\<close>

primrec run_schedule :: "('t \<Rightarrow> 's \<Rightarrow> 's option) \<Rightarrow> 't list \<Rightarrow> 's \<Rightarrow> 's option" where
  "run_schedule exec [] s = Some s"
| "run_schedule exec (t # ts) s = (case exec t s of None \<Rightarrow> None | Some s' \<Rightarrow> run_schedule exec ts s')"

lemma reachable_trans:
  "reachable_from step t u \<Longrightarrow> reachable_from step s t \<Longrightarrow> reachable_from step s u"
  by (induction rule: reachable_from.induct) (auto intro: reach_step)

lemma run_schedule_reachable:
  "run_schedule exec ts s = Some s' \<Longrightarrow> reachable_from (interleaved exec) s s'"
proof (induction ts arbitrary: s)
  case Nil
  then show ?case by (simp add: reach_start)
next
  case (Cons t ts)
  then obtain s1 where s1: "exec t s = Some s1" and "run_schedule exec ts s1 = Some s'"
    by (auto split: option.splits)
  then have "reachable_from (interleaved exec) s1 s'" by (blast intro: Cons.IH)
  moreover have "reachable_from (interleaved exec) s s1"
    using s1 by (intro reach_step [OF reach_start]) (auto simp: interleaved_def)
  ultimately show ?case by (rule reachable_trans)
qed

section \<open>The discipline of one mutex\<close>

text \<open>
  \<open>owner\<close> is the holder of the mutex, \<open>critical t\<close> says that thread \<open>t\<close> is between its lock and
  its unlock. A thread enters only when the mutex is free and then owns it, keeps it inside,
  frees it on leaving, and never moves another thread.
\<close>

locale lock_discipline =
  fixes exec :: "'t \<Rightarrow> 's \<Rightarrow> 's option"
    and owner :: "'s \<Rightarrow> 't option"
    and critical :: "'t \<Rightarrow> 's \<Rightarrow> bool"
  assumes enter: "exec t s = Some s' \<Longrightarrow> \<not> critical t s \<Longrightarrow> critical t s' \<Longrightarrow> owner s = None \<and> owner s' = Some t"
    and inside: "exec t s = Some s' \<Longrightarrow> critical t s \<Longrightarrow> critical t s' \<Longrightarrow> owner s' = owner s"
    and leave: "exec t s = Some s' \<Longrightarrow> critical t s \<Longrightarrow> \<not> critical t s' \<Longrightarrow> owner s' = None"
    and outside: "exec t s = Some s' \<Longrightarrow> \<not> critical t s \<Longrightarrow> \<not> critical t s' \<Longrightarrow> owner s' = owner s"
    and others: "exec t s = Some s' \<Longrightarrow> u \<noteq> t \<Longrightarrow> critical u s' = critical u s"
    and blocked: "exec t s = None \<Longrightarrow> \<not> critical t s \<and> owner s \<noteq> None"
begin

definition owned :: "'s \<Rightarrow> bool" where
  "owned s \<longleftrightarrow> (\<forall>t. critical t s \<longleftrightarrow> owner s = Some t)"

lemma owned_step:
  assumes "interleaved exec s s'" and "owned s"
  shows "owned s'"
proof -
  from assms(1) obtain t where t: "exec t s = Some s'" by (auto simp: interleaved_def)
  have o: "critical u s \<longleftrightarrow> owner s = Some u" for u using assms(2) by (simp add: owned_def)
  have u: "critical u s' = critical u s" if "u \<noteq> t" for u using others [OF t that] .
  show ?thesis
    unfolding owned_def
  proof
    fix u
    show "critical u s' \<longleftrightarrow> owner s' = Some u"
      using o [of t] o [of u] u [of u] enter [OF t] inside [OF t] leave [OF t] outside [OF t]
      by (cases "u = t"; cases "critical t s"; cases "critical t s'") auto
  qed
qed

text \<open>The holder can always move, so the system never deadlocks.\<close>

lemma never_stuck:
  assumes "owned s"
  shows "\<exists>t s'. exec t s = Some s'"
proof (cases "owner s")
  case None
  then show ?thesis using blocked [of undefined s] by auto
next
  case (Some t)
  then have "critical t s" using assms by (simp add: owned_def)
  then show ?thesis using blocked [of t s] by auto
qed

lemma exclusive:
  assumes "owned s" and "critical t s" and "critical u s"
  shows "t = u"
  using assms by (simp add: owned_def)

end

text \<open>The discipline makes ownership an invariant of every interleaving.\<close>

sublocale lock_discipline \<subseteq> locked: invariant_system "interleaved exec" owned
  by unfold_locales (rule owned_step)

end
