(* ===== verification/SharedCounter.thy ===== *)
theory SharedCounter
  imports Interleaving
begin

text \<open>
  The first IPC workshop program (\<^verbatim>\<open>ws-ipc/ipc-solutions/main-01.cpp\<close>): two threads increment and
  print a shared counter under a mutex, one with explicit lock and unlock calls, one with a lock
  guard. The increment is modelled as a load and a store, and a printed line as two writes, so
  that the mutex has something to protect.
\<close>

section \<open>The program\<close>

datatype task = Task0 | Task1

text \<open>
  Program points of one loop iteration, in order. For \<^verbatim>\<open>task1\<close> the constructor and the destructor
  of the lock guard are the points \<open>Lock\<close> and \<open>Unlock\<close>.
\<close>

datatype counter_pc = Lock | PrintText | Load | Store | PrintValue | Unlock | Sleep

text \<open>Writes to the output: the text of a line, and the number with the end of the line.\<close>

datatype chunk = Text task | Value uint32

record counter_state =
  SHARED_LOCK :: "task option"
  SHARED_COUNTER :: uint32
  counterOutput :: "chunk list"
  counterPc :: "task \<Rightarrow> counter_pc"
  counterReg :: "task \<Rightarrow> uint32"

definition counter_start :: counter_state where
  "counter_start =
     \<lparr>SHARED_LOCK = None, SHARED_COUNTER = 0, counterOutput = [], counterPc = (\<lambda>_. Lock), counterReg = (\<lambda>_. 0)\<rparr>"

definition goto_pc :: "task \<Rightarrow> counter_pc \<Rightarrow> counter_state \<Rightarrow> counter_state" where
  "goto_pc t p s = s\<lparr>counterPc := (counterPc s)(t := p)\<rparr>"

text \<open>The next action of a thread; \<^verbatim>\<open>lock()\<close> blocks while the mutex is held.\<close>

definition counter_exec :: "task \<Rightarrow> counter_state \<Rightarrow> counter_state option" where
  "counter_exec t s =
     (case counterPc s t of
        Lock \<Rightarrow> if SHARED_LOCK s = None then Some (goto_pc t PrintText (s\<lparr>SHARED_LOCK := Some t\<rparr>)) else None
      | PrintText \<Rightarrow> Some (goto_pc t Load (s\<lparr>counterOutput := counterOutput s @ [Text t]\<rparr>))
      | Load \<Rightarrow> Some (goto_pc t Store (s\<lparr>counterReg := (counterReg s)(t := SHARED_COUNTER s)\<rparr>))
      | Store \<Rightarrow> Some (goto_pc t PrintValue (s\<lparr>SHARED_COUNTER := counterReg s t + 1\<rparr>))
      | PrintValue \<Rightarrow> Some (goto_pc t Unlock (s\<lparr>counterOutput := counterOutput s @ [Value (SHARED_COUNTER s)]\<rparr>))
      | Unlock \<Rightarrow> Some (goto_pc t Sleep (s\<lparr>SHARED_LOCK := None\<rparr>))
      | Sleep \<Rightarrow> Some (goto_pc t Lock s))"

definition counter_critical :: "task \<Rightarrow> counter_state \<Rightarrow> bool" where
  "counter_critical t s \<longleftrightarrow> counterPc s t \<notin> {Lock, Sleep}"

interpretation counter_lock: lock_discipline counter_exec SHARED_LOCK counter_critical
  by unfold_locales
    (auto simp: counter_exec_def counter_critical_def goto_pc_def split: counter_pc.splits if_splits)

section \<open>What is printed\<close>

text \<open>The complete lines of the tasks \<open>ts\<close>, numbered from one; the number wraps.\<close>

primrec numbered_lines :: "nat \<Rightarrow> task list \<Rightarrow> chunk list" where
  "numbered_lines k [] = []"
| "numbered_lines k (t # ts) = Text t # Value (word_of_nat (Suc k)) # numbered_lines (Suc k) ts"

lemma numbered_lines_snoc:
  "numbered_lines k (ts @ [t]) = numbered_lines k ts @ [Text t, Value (word_of_nat (Suc (k + length ts)))]"
  by (induction ts arbitrary: k) simp_all

text \<open>
  The state of the shared data at each program point of the holder, after the lines of \<open>ts\<close>.
\<close>

definition counter_data :: "task list \<Rightarrow> counter_state \<Rightarrow> bool" where
  "counter_data ts s \<longleftrightarrow>
     (let done = counterOutput s = numbered_lines 0 ts;
          begun = (\<lambda>t. counterOutput s = numbered_lines 0 ts @ [Text t]);
          n = (word_of_nat (length ts) :: uint32)
      in case SHARED_LOCK s of
           None \<Rightarrow> done \<and> SHARED_COUNTER s = n
         | Some t \<Rightarrow>
             (case counterPc s t of
                Load \<Rightarrow> begun t \<and> SHARED_COUNTER s = n
              | Store \<Rightarrow> begun t \<and> SHARED_COUNTER s = n \<and> counterReg s t = n
              | PrintValue \<Rightarrow> begun t \<and> SHARED_COUNTER s = n + 1
              | _ \<Rightarrow> done \<and> SHARED_COUNTER s = n))"

definition counter_inv :: "counter_state \<Rightarrow> bool" where
  "counter_inv s \<longleftrightarrow> counter_lock.owned s \<and> (\<exists>ts. counter_data ts s)"

lemma counter_data_frame:
  "SHARED_LOCK s \<noteq> Some t \<Longrightarrow> counter_data ts (s\<lparr>counterPc := (counterPc s)(t := p)\<rparr>) = counter_data ts s"
  by (auto simp: counter_data_def Let_def split: option.splits counter_pc.splits)

lemma counter_data_step:
  assumes "counter_exec t s = Some s'" and "counter_lock.owned s" and "counter_data ts s"
  shows "counter_data ts s' \<or> counter_data (ts @ [t]) s'"
proof -
  have o: "SHARED_LOCK s = Some t \<longleftrightarrow> counterPc s t \<notin> {Lock, Sleep}"
    using assms(2) by (simp add: counter_lock.owned_def counter_critical_def)
  show ?thesis
  proof (cases "counterPc s t = Sleep")
    case True
    with assms(1,3) o show ?thesis by (auto simp: counter_exec_def goto_pc_def counter_data_frame)
  next
    case False
    with assms(1,3) o show ?thesis
      by (cases "counterPc s t"; cases "SHARED_LOCK s")
        (auto simp: counter_exec_def goto_pc_def counter_data_def Let_def numbered_lines_snoc split: if_splits)
  qed
qed

interpretation counter_runs: invariant_system "interleaved counter_exec" counter_inv
proof unfold_locales
  fix s s'
  assume st: "interleaved counter_exec s s'" and inv: "counter_inv s"
  then obtain t ts where "counter_exec t s = Some s'" "counter_lock.owned s" "counter_data ts s"
    by (auto simp: interleaved_def counter_inv_def)
  with counter_data_step [of t s s' ts] counter_lock.owned_step [OF st] show "counter_inv s'"
    by (auto simp: counter_inv_def)
qed

lemma counter_start_inv: "counter_inv counter_start"
  unfolding counter_inv_def
proof (intro conjI exI)
  show "counter_lock.owned counter_start"
    by (simp add: counter_lock.owned_def counter_start_def counter_critical_def)
  show "counter_data [] counter_start" by (simp add: counter_data_def counter_start_def)
qed

section \<open>Properties\<close>

text \<open>
  C26. No increment is lost and no line is torn: in every interleaving at most one task is between
  lock and unlock, some task can always move, and the output is a sequence of whole lines
  numbered 1, 2, 3 and so on (modulo the width of the counter), followed at most by the text of
  the line the holder is printing; when the mutex is free the counter is the number of lines.
\<close>

theorem counter_lines_consecutive:
  assumes "reachable_from (interleaved counter_exec) counter_start s"
  shows "(counter_critical t s \<and> counter_critical u s \<longrightarrow> t = u)
    \<and> (\<exists>t' s'. counter_exec t' s = Some s')
    \<and> (\<exists>ts rest. counterOutput s = numbered_lines 0 ts @ rest
        \<and> (rest = [] \<or> (\<exists>h. SHARED_LOCK s = Some h \<and> rest = [Text h]))
        \<and> (SHARED_LOCK s = None \<longrightarrow> rest = [] \<and> SHARED_COUNTER s = word_of_nat (length ts)))"
proof -
  have "counter_inv s" using assms counter_start_inv by (rule counter_runs.reachable_inv)
  then obtain ts where o: "counter_lock.owned s" and d: "counter_data ts s" by (auto simp: counter_inv_def)
  have out: "\<exists>ts rest. counterOutput s = numbered_lines 0 ts @ rest
      \<and> (rest = [] \<or> (\<exists>h. SHARED_LOCK s = Some h \<and> rest = [Text h]))
      \<and> (SHARED_LOCK s = None \<longrightarrow> rest = [] \<and> SHARED_COUNTER s = word_of_nat (length ts))"
  proof (cases "SHARED_LOCK s")
    case None
    with d show ?thesis by (intro exI [of _ ts] exI [of _ "[]"]) (simp add: counter_data_def Let_def)
  next
    case (Some h)
    with d have "counterOutput s = numbered_lines 0 ts \<or> counterOutput s = numbered_lines 0 ts @ [Text h]"
      by (cases "counterPc s h") (simp_all add: counter_data_def Let_def)
    with Some show ?thesis by (intro exI [of _ ts]) auto
  qed
  with counter_lock.exclusive [OF o] counter_lock.never_stuck [OF o] show ?thesis by blast
qed

theorem counter_lines_consecutive_witness:
  "\<exists>s. run_schedule counter_exec (replicate 4 Task0 @ [Task1, Task1]) counter_start = None
     \<and> run_schedule counter_exec (replicate 6 Task0 @ replicate 6 Task1) counter_start = Some s
     \<and> counterOutput s = [Text Task0, Value 1, Text Task1, Value 2] \<and> SHARED_LOCK s = None
     \<and> (\<exists>ts. counterOutput s = numbered_lines 0 ts)"
proof -
  have "run_schedule counter_exec (replicate 4 Task0 @ [Task1, Task1]) counter_start = None"
    by (simp add: eval_nat_numeral counter_exec_def counter_start_def goto_pc_def)
  moreover obtain s where s: "run_schedule counter_exec (replicate 6 Task0 @ replicate 6 Task1) counter_start = Some s"
    "counterOutput s = [Text Task0, Value 1, Text Task1, Value 2]" "SHARED_LOCK s = None"
    by (simp add: eval_nat_numeral counter_exec_def counter_start_def goto_pc_def)
  moreover have "\<exists>ts. counterOutput s = numbered_lines 0 ts"
    using counter_lines_consecutive [OF run_schedule_reachable [OF s(1)]] s(3) by auto
  ultimately show ?thesis by blast
qed

end
