(* ===== verification/IntQueue.thy ===== *)
theory IntQueue
  imports Interleaving
begin

text \<open>
  The second IPC workshop program (\<^verbatim>\<open>ws-ipc/ipc-solutions/main-02.cpp\<close>): a sender pushes the
  integers 1, 2, 3 and so on into a queue, a receiver takes one value per round. The receiver
  reads the back of the queue but removes its front, so it hands out the newest value and drops
  the oldest one; the two coincide only while the queue holds a single value.
\<close>

section \<open>The program\<close>

datatype queue_thread = IntSender | IntReceiver

datatype sender_pc = SendLock | SendPush | SendUnlock | SendPrint | SendSleep

datatype receiver_pc = RecvLock | RecvTake | RecvUnlock | RecvPrint | RecvSleep

text \<open>
  Output is kept per thread, as the values printed. \<open>pushed\<close> and \<open>taken\<close> are the histories of the
  values that went into the queue and of the fronts removed from it; no action reads them.
\<close>

record queue_state =
  QUEUE_MUTEX :: "queue_thread option"
  INT_QUEUE :: "int list"
  SENT_INTS :: uint32
  optInt :: "int option"
  senderPc :: sender_pc
  receiverPc :: receiver_pc
  senderOutput :: "uint32 list"
  receiverOutput :: "int list"
  pushed :: "int list"
  taken :: "int list"

definition queue_start :: queue_state where
  "queue_start =
     \<lparr>QUEUE_MUTEX = None, INT_QUEUE = [], SENT_INTS = 0, optInt = None, senderPc = SendLock, receiverPc = RecvLock,
      senderOutput = [], receiverOutput = [], pushed = [], taken = []\<rparr>"

text \<open>\<^verbatim>\<open>push\<close> converts the counter to \<^verbatim>\<open>int\<close>: the signed value of the same bits.\<close>

definition intSender :: "queue_state \<Rightarrow> queue_state option" where
  "intSender s =
     (case senderPc s of
        SendLock \<Rightarrow> if QUEUE_MUTEX s = None then Some (s\<lparr>QUEUE_MUTEX := Some IntSender, senderPc := SendPush\<rparr>) else None
      | SendPush \<Rightarrow>
          (let v = SENT_INTS s + 1
           in Some (s\<lparr>SENT_INTS := v, INT_QUEUE := INT_QUEUE s @ [sint v], pushed := pushed s @ [sint v], senderPc := SendUnlock\<rparr>))
      | SendUnlock \<Rightarrow> Some (s\<lparr>QUEUE_MUTEX := None, senderPc := SendPrint\<rparr>)
      | SendPrint \<Rightarrow> Some (s\<lparr>senderOutput := senderOutput s @ [SENT_INTS s], senderPc := SendSleep\<rparr>)
      | SendSleep \<Rightarrow> Some (s\<lparr>senderPc := SendLock\<rparr>))"

text \<open>\<^verbatim>\<open>optInt\<close> is declared inside the loop, so every round starts with an empty one.\<close>

definition intReceiver :: "queue_state \<Rightarrow> queue_state option" where
  "intReceiver s =
     (case receiverPc s of
        RecvLock \<Rightarrow> if QUEUE_MUTEX s = None then Some (s\<lparr>QUEUE_MUTEX := Some IntReceiver, receiverPc := RecvTake\<rparr>) else None
      | RecvTake \<Rightarrow>
          Some (if INT_QUEUE s \<noteq> []
                then s\<lparr>optInt := Some (last (INT_QUEUE s)), INT_QUEUE := tl (INT_QUEUE s), taken := taken s @ [hd (INT_QUEUE s)],
                       receiverPc := RecvUnlock\<rparr>
                else s\<lparr>receiverPc := RecvUnlock\<rparr>)
      | RecvUnlock \<Rightarrow> Some (s\<lparr>QUEUE_MUTEX := None, receiverPc := RecvPrint\<rparr>)
      | RecvPrint \<Rightarrow>
          Some (s\<lparr>receiverOutput := receiverOutput s @ (case optInt s of None \<Rightarrow> [] | Some v \<Rightarrow> [v]), receiverPc := RecvSleep\<rparr>)
      | RecvSleep \<Rightarrow> Some (s\<lparr>optInt := None, receiverPc := RecvLock\<rparr>))"

definition queue_exec :: "queue_thread \<Rightarrow> queue_state \<Rightarrow> queue_state option" where
  "queue_exec t = (case t of IntSender \<Rightarrow> intSender | IntReceiver \<Rightarrow> intReceiver)"

definition queue_critical :: "queue_thread \<Rightarrow> queue_state \<Rightarrow> bool" where
  "queue_critical t s \<longleftrightarrow>
     (case t of IntSender \<Rightarrow> senderPc s \<in> {SendPush, SendUnlock} | IntReceiver \<Rightarrow> receiverPc s \<in> {RecvTake, RecvUnlock})"

lemmas queue_defs = queue_exec_def intSender_def intReceiver_def queue_critical_def

interpretation queue_lock: lock_discipline queue_exec QUEUE_MUTEX queue_critical
  by unfold_locales
    (auto simp: queue_defs Let_def split: queue_thread.splits sender_pc.splits receiver_pc.splits if_splits)

section \<open>What is in the queue\<close>

text \<open>The last \<open>n\<close> values sent, oldest first, when \<open>k\<close> is the last one.\<close>

definition last_sent :: "uint32 \<Rightarrow> nat \<Rightarrow> int list" where
  "last_sent k n = map (\<lambda>j. sint (k - word_of_nat j)) (rev [0..<n])"

lemma last_sent_0 [simp]: "last_sent k 0 = []"
  by (simp add: last_sent_def)

lemma length_last_sent [simp]: "length (last_sent k n) = n"
  by (simp add: last_sent_def)

lemma last_sent_Suc: "last_sent k (Suc n) = sint (k - word_of_nat n) # last_sent k n"
  by (simp add: last_sent_def)

lemma last_sent_push: "last_sent (k + 1) (Suc n) = last_sent k n @ [sint (k + 1)]"
  by (induction n) (simp_all add: last_sent_Suc algebra_simps)

lemma last_last_sent: "last (last_sent k (Suc n)) = sint k"
proof (induction n)
  case (Suc n)
  have "last_sent k (Suc n) \<noteq> []" by (simp add: last_sent_Suc)
  with Suc show ?case by (subst last_sent_Suc) simp
qed (simp add: last_sent_Suc)

definition queue_inv :: "queue_state \<Rightarrow> bool" where
  "queue_inv s \<longleftrightarrow> queue_lock.owned s \<and> INT_QUEUE s = last_sent (SENT_INTS s) (length (INT_QUEUE s))
     \<and> pushed s = taken s @ INT_QUEUE s"

lemma queue_exec_inv:
  assumes "queue_exec t s = Some s'"
    and "INT_QUEUE s = last_sent (SENT_INTS s) (length (INT_QUEUE s))" and "pushed s = taken s @ INT_QUEUE s"
  shows "INT_QUEUE s' = last_sent (SENT_INTS s') (length (INT_QUEUE s')) \<and> pushed s' = taken s' @ INT_QUEUE s'"
proof -
  have tl: "tl (INT_QUEUE s) = last_sent (SENT_INTS s) (length (INT_QUEUE s) - 1)"
    using assms(2) by (cases "length (INT_QUEUE s)") (simp_all add: last_sent_Suc)
  have push: "INT_QUEUE s @ [sint (SENT_INTS s + 1)] = last_sent (SENT_INTS s + 1) (Suc (length (INT_QUEUE s)))"
    using assms(2) last_sent_push [of "SENT_INTS s" "length (INT_QUEUE s)"] by simp
  have hd: "hd (INT_QUEUE s) # last_sent (SENT_INTS s) (length (INT_QUEUE s) - 1) = INT_QUEUE s" if "INT_QUEUE s \<noteq> []"
    using that tl by (metis list.collapse)
  show ?thesis
    using assms(1) assms(2,3) tl push hd
    by (auto simp: queue_defs Let_def split: queue_thread.splits sender_pc.splits receiver_pc.splits if_splits)
qed

interpretation queue_runs: invariant_system "interleaved queue_exec" queue_inv
proof unfold_locales
  fix s s'
  assume st: "interleaved queue_exec s s'" and inv: "queue_inv s"
  then obtain t where t: "queue_exec t s = Some s'" by (auto simp: interleaved_def)
  from inv queue_exec_inv [OF t] queue_lock.owned_step [OF st] show "queue_inv s'" by (simp add: queue_inv_def)
qed

lemma queue_start_inv: "queue_inv queue_start"
  by (simp add: queue_inv_def queue_lock.owned_def queue_start_def queue_critical_def split: queue_thread.splits)

section \<open>Properties\<close>

lemma last_sent_head:
  assumes "INT_QUEUE s = last_sent (SENT_INTS s) (length (INT_QUEUE s))" and "INT_QUEUE s \<noteq> []"
  shows "hd (INT_QUEUE s) = sint (SENT_INTS s - word_of_nat (length (INT_QUEUE s) - 1))"
    and "last (INT_QUEUE s) = sint (SENT_INTS s)"
proof -
  obtain n where n: "length (INT_QUEUE s) = Suc n" using assms(2) by (cases "INT_QUEUE s") auto
  with assms(1) show "hd (INT_QUEUE s) = sint (SENT_INTS s - word_of_nat (length (INT_QUEUE s) - 1))"
    by (metis diff_Suc_1 last_sent_Suc list.sel(1))
  from assms(1) n show "last (INT_QUEUE s) = sint (SENT_INTS s)" by (metis last_last_sent)
qed

lemma sint_diff_eq_iff: "n < 2 ^ 32 \<Longrightarrow> sint (k - word_of_nat n :: uint32) = sint k \<longleftrightarrow> n = 0"
  by (auto simp: word_eq_iff_signed [symmetric] word_of_nat_eq_0_iff dest: nat_dvd_not_less [rotated])

text \<open>
  The receiver hands out the newest value and discards the oldest: whenever it finds values in
  the queue, the value it will print is the last one sent while the value removed is the first
  one still queued; the two agree only if the queue holds exactly one value (below the point
  where the 32-bit counter wraps).
\<close>

lemma receiver_takes_newest:
  assumes "reachable_from (interleaved queue_exec) queue_start s"
    and "receiverPc s = RecvTake" and "INT_QUEUE s \<noteq> []" and "length (INT_QUEUE s) < 2 ^ 32"
  shows "\<exists>s'. queue_exec IntReceiver s = Some s' \<and> optInt s' = Some (sint (SENT_INTS s))
    \<and> taken s' = taken s @ [hd (INT_QUEUE s)] \<and> INT_QUEUE s' = tl (INT_QUEUE s)
    \<and> (optInt s' = Some (hd (INT_QUEUE s)) \<longleftrightarrow> length (INT_QUEUE s) = 1)"
proof -
  have "queue_inv s" using assms(1) queue_start_inv by (rule queue_runs.reachable_inv)
  then have q: "INT_QUEUE s = last_sent (SENT_INTS s) (length (INT_QUEUE s))" by (simp add: queue_inv_def)
  note hd = last_sent_head [OF q assms(3)]
  obtain n where n: "length (INT_QUEUE s) = Suc n" using assms(3) by (cases "INT_QUEUE s") auto
  have "sint (SENT_INTS s) = hd (INT_QUEUE s) \<longleftrightarrow> n = 0"
    using sint_diff_eq_iff [of n "SENT_INTS s"] assms(4) hd(1) by (auto simp: n)
  then have "sint (SENT_INTS s) = hd (INT_QUEUE s) \<longleftrightarrow> length (INT_QUEUE s) = 1" by (simp add: n)
  then show ?thesis using assms(2,3) hd(2) by (simp add: queue_defs)
qed


lemma late_receiver_take:
  "\<exists>s. run_schedule queue_exec (replicate 10 IntSender @ [IntReceiver]) queue_start = Some s
     \<and> receiverPc s = RecvTake \<and> INT_QUEUE s = [1, 2] \<and> SENT_INTS s = 2"
  by (simp add: eval_nat_numeral queue_defs queue_start_def)

lemma receiver_takes_newest_witness:
  "\<exists>s s'. run_schedule queue_exec (replicate 10 IntSender @ [IntReceiver]) queue_start = Some s
     \<and> queue_exec IntReceiver s = Some s' \<and> INT_QUEUE s = [1, 2] \<and> optInt s' = Some 2 \<and> INT_QUEUE s' = [2]"
proof -
  obtain s where s: "run_schedule queue_exec (replicate 10 IntSender @ [IntReceiver]) queue_start = Some s"
    "receiverPc s = RecvTake" "INT_QUEUE s = [1, 2]" "SENT_INTS s = 2" using late_receiver_take by blast
  have "INT_QUEUE s \<noteq> []" "length (INT_QUEUE s) < 2 ^ 32" by (simp_all add: s(3))
  from receiver_takes_newest [OF run_schedule_reachable [OF s(1)] s(2) this] s show ?thesis by auto
qed


section \<open>Keeping pace\<close>

text \<open>
  Executions in which the receiver keeps pace, so that the queue never holds more than one value
  (the intent of its shorter sleep).
\<close>

definition paced :: "queue_state \<Rightarrow> queue_state \<Rightarrow> bool" where
  "paced s s' \<longleftrightarrow> interleaved queue_exec s s' \<and> length (INT_QUEUE s') \<le> 1"

primrec run_paced :: "queue_thread list \<Rightarrow> queue_state \<Rightarrow> queue_state option" where
  "run_paced [] s = Some s"
| "run_paced (t # ts) s =
     (case queue_exec t s of None \<Rightarrow> None | Some s' \<Rightarrow> if length (INT_QUEUE s') \<le> 1 then run_paced ts s' else None)"

lemma run_paced_reachable: "run_paced ts s = Some s' \<Longrightarrow> reachable_from paced s s'"
proof (induction ts arbitrary: s)
  case (Cons t ts)
  then obtain s1 where s1: "queue_exec t s = Some s1" "length (INT_QUEUE s1) \<le> 1" and "run_paced ts s1 = Some s'"
    by (auto split: option.splits if_splits)
  then have "reachable_from paced s1 s'" by (blast intro: Cons.IH)
  moreover have "reachable_from paced s s1"
    using s1 by (intro reach_step [OF reach_start]) (auto simp: paced_def interleaved_def)
  ultimately show ?case by (rule reachable_trans)
qed (simp add: reach_start)

text \<open>The value taken but not yet printed.\<close>

definition in_hand :: "queue_state \<Rightarrow> int list" where
  "in_hand s =
     (if receiverPc s \<in> {RecvUnlock, RecvPrint} then (case optInt s of None \<Rightarrow> [] | Some v \<Rightarrow> [v]) else [])"

text \<open>The values \<open>1\<close> to \<open>n\<close> as the sender's 32-bit counter produces them.\<close>

definition first_ints :: "nat \<Rightarrow> int list" where
  "first_ints n = map (\<lambda>k. sint (word_of_nat k :: uint32)) [1..<Suc n]"

lemma first_ints_0 [simp]: "first_ints 0 = []"
  by (simp add: first_ints_def)

lemma first_ints_Suc [simp]: "first_ints (Suc n) = first_ints n @ [sint (word_of_nat n + 1 :: uint32)]"
  by (simp add: first_ints_def add.commute)

definition paced_inv :: "queue_state \<Rightarrow> bool" where
  "paced_inv s \<longleftrightarrow>
     receiverOutput s @ in_hand s @ INT_QUEUE s = pushed s \<and> length (INT_QUEUE s) \<le> 1
     \<and> (receiverPc s \<in> {RecvLock, RecvTake} \<longrightarrow> optInt s = None)
     \<and> first_ints (length (pushed s)) = pushed s
     \<and> SENT_INTS s = word_of_nat (length (pushed s))"

lemma paced_inv_frame:
  "paced_inv (s\<lparr>QUEUE_MUTEX := m\<rparr>) = paced_inv s" "paced_inv (s\<lparr>senderPc := p\<rparr>) = paced_inv s"
  "paced_inv (s\<lparr>senderOutput := l\<rparr>) = paced_inv s"
  by (simp_all add: paced_inv_def in_hand_def)

lemma paced_exec_inv:
  assumes "queue_exec t s = Some s'" and "paced_inv s" and "length (INT_QUEUE s') \<le> 1"
  shows "paced_inv s'"
proof (cases t)
  case IntSender
  show ?thesis
  proof (cases "senderPc s = SendPush")
    case True
    with IntSender assms(1) have s': "s' = s\<lparr>SENT_INTS := SENT_INTS s + 1, INT_QUEUE := INT_QUEUE s @ [sint (SENT_INTS s + 1)],
        pushed := pushed s @ [sint (SENT_INTS s + 1)], senderPc := SendUnlock\<rparr>"
      by (simp add: queue_defs Let_def)
    from assms(2) have i: "receiverOutput s @ in_hand s @ INT_QUEUE s = pushed s" "first_ints (length (pushed s)) = pushed s"
      "SENT_INTS s = word_of_nat (length (pushed s))" "receiverPc s \<in> {RecvLock, RecvTake} \<longrightarrow> optInt s = None"
      by (simp_all add: paced_inv_def)
    have h: "in_hand s' = in_hand s" by (simp add: s' in_hand_def)
    have out: "receiverOutput s @ in_hand s @ INT_QUEUE s @ [sint (SENT_INTS s + 1)] = pushed s @ [sint (SENT_INTS s + 1)]"
      unfolding i(1) [symmetric] by simp
    have fi: "first_ints (length (pushed s @ [sint (SENT_INTS s + 1)])) = pushed s @ [sint (SENT_INTS s + 1)]"
      using i(2,3) by simp
    show ?thesis
      unfolding paced_inv_def h using out fi i(3,4) assms(3) by (simp add: s')
  next
    case False
    with IntSender assms show ?thesis
      by (cases "senderPc s") (auto simp: queue_defs paced_inv_frame split: if_splits)
  qed
next
  case IntReceiver
  show ?thesis
  proof (cases "receiverPc s = RecvTake \<and> INT_QUEUE s \<noteq> []")
    case True
    with assms(2) obtain v where v: "INT_QUEUE s = [v]"
      by (cases "INT_QUEUE s") (auto simp: paced_inv_def)
    with True IntReceiver assms(1)
    have s': "s' = s\<lparr>optInt := Some v, INT_QUEUE := [], taken := taken s @ [v], receiverPc := RecvUnlock\<rparr>"
      by (simp add: queue_defs)
    from True v assms(2) show ?thesis by (simp add: paced_inv_def in_hand_def s')
  next
    case False
    with IntReceiver assms show ?thesis
      by (cases "receiverPc s") (auto simp: queue_defs paced_inv_def in_hand_def split: if_splits)
  qed
qed

interpretation paced_runs: invariant_system paced paced_inv
  by unfold_locales (auto simp: paced_def interleaved_def intro: paced_exec_inv)

text \<open>
  While the receiver keeps pace the program does what it is meant to: the values received are
  exactly the values sent, 1, 2, 3 and so on, in order, except that the last one may still be
  queued or about to be printed.
\<close>

lemma paced_receiver_prints_all:
  assumes "reachable_from paced queue_start s"
  shows "\<exists>n. pushed s = first_ints n
    \<and> receiverOutput s @ in_hand s @ INT_QUEUE s = pushed s
    \<and> length (INT_QUEUE s) \<le> 1"
proof -
  have "paced_inv queue_start" by (simp add: paced_inv_def queue_start_def in_hand_def)
  with assms have "paced_inv s" by (rule paced_runs.reachable_inv)
  then show ?thesis unfolding paced_inv_def by metis
qed

lemma paced_receiver_prints_all_witness:
  "\<exists>s. reachable_from paced queue_start s \<and> receiverOutput s = [1] \<and> (\<exists>n. receiverOutput s @ in_hand s @ INT_QUEUE s = first_ints n)"
proof -
  obtain s where s: "run_paced (replicate 3 IntSender @ replicate 4 IntReceiver) queue_start = Some s" "receiverOutput s = [1]"
    by (simp add: eval_nat_numeral queue_defs queue_start_def)
  from paced_receiver_prints_all [OF run_paced_reachable [OF s(1)]] s run_paced_reachable [OF s(1)] show ?thesis by metis
qed

end
