(* ===== verification/DoubleRounding.thy ===== *)
theory DoubleRounding
  imports Prelude Complex_Main "HOL-Library.Log_Nat"
begin

text \<open>
  Finite \<^verbatim>\<open>double\<close> arithmetic as the V4L2 program uses it: every operation is the exact rational
  result rounded to 53 significant bits, to nearest with ties to even (IEEE 754 binary64 in the
  default mode, each operation rounded by itself). Overflow to infinity is out of reach for the
  values the program computes with.
\<close>

section \<open>Rounding\<close>

definition round_half_even :: "rat \<Rightarrow> int" where
  "round_half_even x =
     (let n = \<lfloor>x\<rfloor>; d = x - of_int n
      in if d < 1 / 2 then n else if 1 / 2 < d then n + 1 else if even n then n else n + 1)"

definition pow2 :: "int \<Rightarrow> rat" where
  "pow2 p = (if 0 \<le> p then 2 ^ nat p else 1 / 2 ^ nat (- p))"

text \<open>How often a number below one has to be doubled to reach one, at most \<open>n\<close> times.\<close>

primrec shift_up :: "nat \<Rightarrow> rat \<Rightarrow> nat" where
  "shift_up 0 x = 0"
| "shift_up (Suc n) x = (if 1 \<le> \<bar>x\<bar> then 0 else Suc (shift_up n (2 * x)))"

text \<open>The exponent of the last of the 53 bits of \<open>x\<close>; it does not drop below that of subnormals.\<close>

definition ulp_exponent :: "rat \<Rightarrow> int" where
  "ulp_exponent x =
     (if 1 \<le> \<bar>x\<bar> then int (floorlog 2 (nat \<lfloor>\<bar>x\<bar>\<rfloor>)) - 53 else - int (shift_up 1022 x) - 52)"

definition fl :: "rat \<Rightarrow> rat" where
  "fl x = (let p = ulp_exponent x in of_int (round_half_even (x / pow2 p)) * pow2 p)"

text \<open>Conversion of a floating value to \<^verbatim>\<open>int\<close> discards the fraction.\<close>

definition truncate :: "rat \<Rightarrow> int" where
  "truncate x = (if 0 \<le> x then \<lfloor>x\<rfloor> else \<lceil>x\<rceil>)"

section \<open>Rounding error\<close>

lemma round_half_even_error: "\<bar>of_int (round_half_even x) - x\<bar> \<le> 1 / 2"
proof -
  have "of_int \<lfloor>x\<rfloor> \<le> x" "x < of_int \<lfloor>x\<rfloor> + 1" by linarith+
  then show ?thesis by (auto simp: round_half_even_def Let_def abs_le_iff)
qed

lemma round_half_even_int [simp]: "round_half_even (of_int n) = n"
  by (simp add: round_half_even_def Let_def)

lemma pow2_pos [simp]: "0 < pow2 p"
  by (simp add: pow2_def)

lemma pow2_nonzero [simp]: "pow2 p \<noteq> 0"
  using pow2_pos [of p] by linarith

lemma pow2_mono: "p \<le> q \<Longrightarrow> pow2 p \<le> pow2 q"
proof -
  assume le: "p \<le> q"
  have one: "(1 :: rat) \<le> 2 ^ n" for n by simp
  consider "0 \<le> p" | "p < 0" "0 \<le> q" | "q < 0" using le by linarith
  then show ?thesis
  proof cases
    case 1
    then show ?thesis using le by (simp add: pow2_def power_increasing nat_mono)
  next
    case 2
    have "1 / 2 ^ nat (- p) \<le> (1 :: rat)" by simp
    also have "1 \<le> (2 :: rat) ^ nat q" by (rule one)
    finally show ?thesis using 2 by (simp add: pow2_def)
  next
    case 3
    then have "(2 :: rat) ^ nat (- q) \<le> 2 ^ nat (- p)" using le by (simp add: power_increasing)
    with 3 le show ?thesis by (simp add: pow2_def frac_le)
  qed
qed

lemma fl_error_ulp: "\<bar>fl x - x\<bar> \<le> pow2 (ulp_exponent x) / 2"
proof -
  let ?u = "pow2 (ulp_exponent x)"
  have "fl x - x = (of_int (round_half_even (x / ?u)) - x / ?u) * ?u"
    by (simp add: fl_def Let_def left_diff_distrib)
  then have "\<bar>fl x - x\<bar> = \<bar>of_int (round_half_even (x / ?u)) - x / ?u\<bar> * ?u"
    by (simp add: abs_mult abs_of_pos)
  also have "\<dots> \<le> 1 / 2 * ?u"
    by (rule mult_right_mono [OF round_half_even_error]) (simp add: less_imp_le)
  finally show ?thesis by simp
qed

lemma ulp_exponent_bound:
  assumes "\<bar>x\<bar> < 2 ^ n" and "1 \<le> n"
  shows "ulp_exponent x \<le> int n - 53"
proof (cases "1 \<le> \<bar>x\<bar>")
  case True
  have "nat \<lfloor>\<bar>x\<bar>\<rfloor> < 2 ^ n"
  proof -
    have "\<bar>x\<bar> < of_int (2 ^ n)" using assms(1) by simp
    then have "\<lfloor>\<bar>x\<bar>\<rfloor> < 2 ^ n" by (simp only: floor_less_iff)
    then show ?thesis using True by (simp add: nat_less_iff)
  qed
  moreover have "0 < nat \<lfloor>\<bar>x\<bar>\<rfloor>" using True by simp
  ultimately have "floorlog 2 (nat \<lfloor>\<bar>x\<bar>\<rfloor>) \<le> n"
    by (simp add: floorlog_le_iff)
  with True show ?thesis by (simp add: ulp_exponent_def)
next
  case False
  with assms(2) show ?thesis by (simp add: ulp_exponent_def)
qed

text \<open>The error of one operation whose exact result is below \<open>2 ^ n\<close>.\<close>

lemma fl_error:
  assumes "\<bar>x\<bar> < 2 ^ n" and "1 \<le> n"
  shows "\<bar>fl x - x\<bar> \<le> pow2 (int n - 53) / 2"
  using fl_error_ulp [of x] pow2_mono [OF ulp_exponent_bound [OF assms]] by linarith

lemma fl_int:
  assumes "\<bar>k\<bar> < 2 ^ 53"
  shows "fl (of_int k) = of_int k"
proof (cases "k = 0")
  case True
  then show ?thesis using round_half_even_int [of 0] by (simp add: fl_def Let_def)
next
  case False
  have "\<bar>of_int k :: rat\<bar> < 2 ^ 53"
  proof -
    have "\<bar>of_int k :: rat\<bar> = of_int \<bar>k\<bar>" by simp
    also have "\<dots> < of_int (2 ^ 53)" using assms by (simp only: of_int_less_iff)
    finally show ?thesis by simp
  qed
  then have "ulp_exponent (of_int k) \<le> 0" using ulp_exponent_bound [of "of_int k" 53] by simp
  then have "of_int k / pow2 (ulp_exponent (of_int k)) = of_int (k * 2 ^ nat (- ulp_exponent (of_int k)))"
    by (auto simp: pow2_def)
  then have "fl (of_int k) = of_int (k * 2 ^ nat (- ulp_exponent (of_int k))) * pow2 (ulp_exponent (of_int k))"
    unfolding fl_def Let_def by (simp only: round_half_even_int)
  also have "\<dots> = of_int k / pow2 (ulp_exponent (of_int k)) * pow2 (ulp_exponent (of_int k))"
    using \<open>of_int k / pow2 (ulp_exponent (of_int k)) = of_int (k * 2 ^ nat (- ulp_exponent (of_int k)))\<close> by simp
  finally show ?thesis by (simp add: less_imp_neq [symmetric])
qed

section \<open>Computing a rounded value\<close>

lemma round_half_even_near:
  assumes "\<bar>x - of_int n\<bar> < 1 / 2"
  shows "round_half_even x = n"
proof -
  have "\<bar>of_int (round_half_even x) - of_int n :: rat\<bar> < 1"
    using assms round_half_even_error [of x] by linarith
  then have "of_int \<bar>round_half_even x - n\<bar> < (of_int 1 :: rat)" by simp
  then have "\<bar>round_half_even x - n\<bar> < 1" by (simp only: of_int_less_iff)
  then show ?thesis by simp
qed

lemma fl_nearest:
  assumes "ulp_exponent x = p" and "\<bar>x / pow2 p - of_int n\<bar> < 1 / 2"
  shows "fl x = of_int n * pow2 p"
  using assms by (simp add: fl_def round_half_even_near)

text \<open>A tie goes to the even neighbour.\<close>

lemma fl_tie:
  assumes "ulp_exponent x = p" and "x / pow2 p = of_int n + 1 / 2" and "even n"
  shows "fl x = of_int n * pow2 p"
proof -
  have "\<lfloor>of_int n + 1 / 2 :: rat\<rfloor> = n" by (simp add: floor_eq_iff)
  with assms show ?thesis by (simp add: fl_def round_half_even_def Let_def)
qed

lemma ulp_exponent_ge_1:
  assumes "2 ^ k \<le> \<bar>x\<bar>" and "\<bar>x\<bar> < 2 ^ Suc k"
  shows "ulp_exponent x = int k - 52"
proof -
  have one: "1 \<le> \<bar>x\<bar>" using assms(1) one_le_power [of "2 :: rat" k] by linarith
  have "of_int (2 ^ k) \<le> \<bar>x\<bar>" using assms(1) by simp
  then have "2 ^ k \<le> \<lfloor>\<bar>x\<bar>\<rfloor>" by (simp only: le_floor_iff)
  then have "2 ^ k \<le> nat \<lfloor>\<bar>x\<bar>\<rfloor>" by (simp add: le_nat_iff)
  then have "Suc k \<le> floorlog 2 (nat \<lfloor>\<bar>x\<bar>\<rfloor>)" by (rule floorlog_ge_SucI) simp
  moreover have "ulp_exponent x \<le> int (Suc k) - 53" by (rule ulp_exponent_bound [OF assms(2)]) simp
  ultimately show ?thesis using one by (simp add: ulp_exponent_def)
qed

section \<open>Truncation\<close>

text \<open>
  Truncation is insensitive to an error smaller than the distance of a fraction with denominator
  \<open>q\<close> from the integers, except at the integers themselves.
\<close>

lemma truncate_stable:
  assumes "0 < q" and "\<bar>a - of_int m / of_int q\<bar> < 1 / of_int q" and "\<not> q dvd m"
  shows "truncate a = truncate (of_int m / of_int q)"
proof -
  define n where "n = m div q"
  define r where "r = m mod q"
  have m: "m = q * n + r" and r: "0 < r" "r < q"
    using assms(1,3) by (simp_all add: n_def r_def dvd_eq_mod_eq_0 pos_mod_bound le_neq_trans [OF pos_mod_sign])
  let ?x = "of_int m / of_int q :: rat"
  have x: "?x = of_int n + of_int r / of_int q" using assms(1) by (simp add: m field_simps)
  have lo1: "1 / of_int q \<le> (of_int r / of_int q :: rat)" using assms(1) r by (simp add: divide_right_mono)
  have lo2: "of_int r / of_int q \<le> (1 - 1 / of_int q :: rat)"
  proof -
    have "(of_int r :: rat) \<le> of_int (q - 1)" using r(2) by (simp only: of_int_le_iff)
    then have "of_int r / of_int q \<le> (of_int (q - 1) / of_int q :: rat)" using assms(1) by (simp add: divide_right_mono)
    also have "\<dots> = 1 - 1 / of_int q" using assms(1) by (simp add: field_simps)
    finally show ?thesis .
  qed
  have lo: "of_int n < a" "a < of_int n + 1" "of_int n < ?x" "?x < of_int n + 1"
  proof -
    have pos: "0 < 1 / (of_int q :: rat)" using assms(1) by simp
    have "a - ?x < 1 / of_int q" "?x - a < 1 / of_int q" using assms(2) by linarith+
    with lo1 lo2 pos x show "of_int n < a" "a < of_int n + 1" "of_int n < ?x" "?x < of_int n + 1" by linarith+
  qed
  then have "\<lfloor>a\<rfloor> = n" "\<lfloor>?x\<rfloor> = n" "\<lceil>a\<rceil> = n + 1" "\<lceil>?x\<rceil> = n + 1" by linarith+
  moreover have "0 \<le> a \<longleftrightarrow> 0 \<le> n" "0 \<le> ?x \<longleftrightarrow> 0 \<le> n"
  proof -
    have ge: "(0 :: rat) \<le> of_int n \<longleftrightarrow> 0 \<le> n" by simp
    have le: "n \<le> -1 \<Longrightarrow> (of_int n :: rat) + 1 \<le> 0" by (simp add: of_int_le_iff [of "n + 1" 0, simplified])
    show "0 \<le> a \<longleftrightarrow> 0 \<le> n" "0 \<le> ?x \<longleftrightarrow> 0 \<le> n" using lo ge le by linarith+
  qed
  ultimately show ?thesis by (simp add: truncate_def)
qed

lemma truncate_near:
  assumes "\<bar>a - x\<bar> < 1"
  shows "\<bar>truncate a - truncate x\<bar> \<le> 1"
proof -
  have "\<lfloor>a\<rfloor> \<le> \<lfloor>x\<rfloor> + 1" "\<lfloor>x\<rfloor> \<le> \<lfloor>a\<rfloor> + 1" "\<lceil>a\<rceil> \<le> \<lceil>x\<rceil> + 1" "\<lceil>x\<rceil> \<le> \<lceil>a\<rceil> + 1"
    using assms by linarith+
  moreover have "0 \<le> a \<Longrightarrow> x < 0 \<Longrightarrow> \<lfloor>a\<rfloor> = 0 \<and> \<lceil>x\<rceil> = 0"
    using assms by (auto simp: floor_eq_iff ceiling_eq_iff)
  moreover have "0 \<le> x \<Longrightarrow> a < 0 \<Longrightarrow> \<lfloor>x\<rfloor> = 0 \<and> \<lceil>a\<rceil> = 0"
    using assms by (auto simp: floor_eq_iff ceiling_eq_iff)
  ultimately show ?thesis by (auto simp: truncate_def)
qed

lemma truncate_int [simp]: "truncate (of_int n) = n"
  by (simp add: truncate_def)

end
