(* ===== verification/YuyvConversion.thy ===== *)
theory YuyvConversion
  imports DoubleRounding
begin

text \<open>
  The colour conversion of the V4L2 program (\<^verbatim>\<open>test/webcam.cpp\<close>, \<^verbatim>\<open>yuyv_to_rgb\<close>): a loop that reads
  four bytes (two pixels) and writes six, computing with \<^verbatim>\<open>double\<close> constants. Shows that the
  floating-point result is the exact rational one truncated, up to two chroma values, that the loop
  is memory safe and correct for an even number of pixels, and that it writes past its output for an
  odd one.
\<close>

section \<open>One pixel\<close>

text \<open>The three assignments of the lambda \<^verbatim>\<open>conv\<close>; decimal literals are rounded when compiled.\<close>

definition conv_r :: "int \<Rightarrow> int \<Rightarrow> int" where
  "conv_r y v = truncate (fl (of_int y + fl (fl (1402 / 1000) * of_int v)))"

definition conv_g :: "int \<Rightarrow> int \<Rightarrow> int \<Rightarrow> int" where
  "conv_g y u v =
     truncate (fl (fl (of_int y - fl (fl (344136 / 1000000) * of_int u)) - fl (fl (714136 / 1000000) * of_int v)))"

definition conv_b :: "int \<Rightarrow> int \<Rightarrow> int" where
  "conv_b y u = truncate (fl (of_int y + fl (fl (1772 / 1000) * of_int u)))"

definition clamp :: "int \<Rightarrow> uint8" where
  "clamp x = word_of_int (min 255 (max 0 x))"

section \<open>The conversion loop\<close>

text \<open>The six bytes written for four bytes read.\<close>

definition yuyv_pair :: "uint8 \<Rightarrow> uint8 \<Rightarrow> uint8 \<Rightarrow> uint8 \<Rightarrow> uint8 list" where
  "yuyv_pair b0 b1 b2 b3 =
     (let y0 = uint b0; u = uint b1 - 128; y1 = uint b2; v = uint b3 - 128
      in [clamp (conv_r y0 v), clamp (conv_g y0 u v), clamp (conv_b y0 u),
          clamp (conv_r y1 v), clamp (conv_g y1 u v), clamp (conv_b y1 u)])"

text \<open>\<^verbatim>\<open>int\<close> arithmetic that overflows is undefined.\<close>

definition int_ok :: "int \<Rightarrow> bool" where
  "int_ok x \<longleftrightarrow> - (2 ^ 31) \<le> x \<and> x < 2 ^ 31"

text \<open>
  \<open>ip\<close> and \<open>op\<close> are the offsets of the pointers \<^verbatim>\<open>in\<close> and \<^verbatim>\<open>out\<close> into their buffers; accesses outside
  a buffer are undefined.
\<close>

function yuyv_loop :: "int \<Rightarrow> int \<Rightarrow> nat \<Rightarrow> nat \<Rightarrow> uint8 list \<Rightarrow> uint8 list \<Rightarrow> uint8 list cxx" where
  "yuyv_loop n i ip op inp out =
     (if i < n then
        (if ip + 4 \<le> length inp \<and> op + 6 \<le> length out \<and> int_ok (i + 2) then
           yuyv_loop n (i + 2) (ip + 4) (op + 6) inp
             (take op out @ yuyv_pair (inp ! ip) (inp ! (ip + 1)) (inp ! (ip + 2)) (inp ! (ip + 3)) @ drop (op + 6) out)
         else None)
      else Some out)"
  by pat_completeness auto
termination by (relation "measure (\<lambda>(n, i, ip, op, inp, out). nat (n - i))") auto

declare yuyv_loop.simps [simp del]

definition yuyv_to_rgb :: "uint8 list \<Rightarrow> uint8 list \<Rightarrow> int \<Rightarrow> int \<Rightarrow> uint8 list cxx" where
  "yuyv_to_rgb inp out w h = (if int_ok (w * h) then yuyv_loop (w * h) 0 0 0 inp out else None)"

section \<open>Floating-point against exact arithmetic\<close>

lemma fl_small_error: "\<bar>x\<bar> < 1024 \<Longrightarrow> \<bar>fl x - x\<bar> \<le> 1 / 2 ^ 44"
  using fl_error [of x 10] by (simp add: pow2_def)

lemma fl_coefficient_error: "\<bar>k\<bar> < 2 \<Longrightarrow> \<bar>fl k - k\<bar> \<le> 1 / 2 ^ 53"
  using fl_error [of k 1] by (simp add: pow2_def)

text \<open>A product of a coefficient and a chroma value.\<close>

lemma fl_product_error:
  assumes "\<bar>k\<bar> < 2" and "\<bar>v\<bar> \<le> 128"
  shows "\<bar>fl (fl k * of_int v) - k * of_int v\<bar> \<le> 1 / 2 ^ 43" and "\<bar>fl (fl k * of_int v)\<bar> \<le> 257"
proof -
  have v: "\<bar>of_int v :: rat\<bar> \<le> 128" using assms(2) by (simp flip: of_int_abs)
  have "\<bar>fl k * of_int v - k * of_int v\<bar> = \<bar>fl k - k\<bar> * \<bar>of_int v\<bar>"
    by (simp add: abs_mult flip: left_diff_distrib)
  also have "\<dots> \<le> 1 / 2 ^ 53 * 128"
    using fl_coefficient_error [OF assms(1)] v by (intro mult_mono) simp_all
  finally have e1: "\<bar>fl k * of_int v - k * of_int v\<bar> \<le> 1 / 2 ^ 46" by simp
  have "\<bar>k * of_int v\<bar> \<le> 2 * 128"
    unfolding abs_mult using assms(1) v by (intro mult_mono) simp_all
  then have kv: "\<bar>k * of_int v\<bar> \<le> 256" by simp
  with e1 have "\<bar>fl k * of_int v\<bar> < 1024" by (simp add: abs_if split: if_splits)
  then have e2: "\<bar>fl (fl k * of_int v) - fl k * of_int v\<bar> \<le> 1 / 2 ^ 44" by (rule fl_small_error)
  have "(1 :: rat) / 2 ^ 44 + 1 / 2 ^ 46 \<le> 1 / 2 ^ 43" by simp
  with e1 e2 show e: "\<bar>fl (fl k * of_int v) - k * of_int v\<bar> \<le> 1 / 2 ^ 43" by linarith
  have "(1 :: rat) / 2 ^ 43 \<le> 1" by simp
  with e kv show "\<bar>fl (fl k * of_int v)\<bar> \<le> 257" by linarith
qed

lemma luma_bound: "0 \<le> y \<Longrightarrow> y \<le> 255 \<Longrightarrow> \<bar>of_int y :: rat\<bar> \<le> 255"
  by (simp flip: of_int_abs)

lemma fl_zero [simp]: "fl 0 = 0"
  using fl_int [of 0] by simp

text \<open>Red and blue: one product.\<close>

lemma one_term_exact:
  assumes "0 \<le> y" "y \<le> 255" "\<bar>v\<bar> \<le> 128" and k: "k = of_int c / of_int q" "\<bar>k\<bar> < 2" "coprime q c" "128 < q" "q \<le> 1000"
  shows "truncate (fl (of_int y + fl (fl k * of_int v))) = truncate (of_int y + k * of_int v)"
proof (cases "v = 0")
  case True
  then show ?thesis using assms(1,2) by (simp add: fl_int)
next
  case False
  have q: "0 < q" "(of_int q :: rat) \<le> 1000" using k(4,5) by (simp_all add: of_int_le_iff [of q 1000, simplified])
  let ?p = "fl (fl k * of_int v)"
  note p = fl_product_error [OF k(2) assms(3)] and y = luma_bound [OF assms(1,2)]
  have "\<bar>of_int y + ?p\<bar> < 1024" using p(2) y by linarith
  note s = fl_small_error [OF this]
  have x: "of_int y + k * of_int v = of_int (q * y + c * v) / of_int q" using q by (simp add: k(1) field_simps)
  have "1 / (1000 :: rat) \<le> 1 / of_int q" using q by (simp add: frac_le)
  moreover have "(1 :: rat) / 2 ^ 44 + 1 / 2 ^ 43 < 1 / 1000" by simp
  ultimately have close: "\<bar>fl (of_int y + ?p) - of_int (q * y + c * v) / of_int q\<bar> < 1 / of_int q"
    using s p(1) unfolding x [symmetric] by linarith
  have "\<not> q dvd q * y + c * v"
  proof
    assume "q dvd q * y + c * v"
    then have "q dvd v" using k(3) by (simp add: coprime_dvd_mult_right_iff dvd_add_right_iff)
    then show False using False assms(3) k(4) by (auto dest: dvd_imp_le_int)
  qed
  from truncate_stable [OF q(1) close this] show ?thesis by (simp add: x)
qed

lemma conv_r_exact:
  assumes "0 \<le> y" "y \<le> 255" "\<bar>v\<bar> \<le> 128"
  shows "conv_r y v = truncate (of_int y + 1402 / 1000 * of_int v)"
proof -
  have "coprime (500 :: int) 701" unfolding coprime_iff_gcd_eq_1 by code_simp
  with one_term_exact [OF assms, of "1402 / 1000" 701 500] show ?thesis by (simp add: conv_r_def)
qed

lemma conv_b_exact:
  assumes "0 \<le> y" "y \<le> 255" "\<bar>u\<bar> \<le> 128"
  shows "conv_b y u = truncate (of_int y + 1772 / 1000 * of_int u)"
proof -
  have "coprime (250 :: int) 443" unfolding coprime_iff_gcd_eq_1 by code_simp
  with one_term_exact [OF assms, of "1772 / 1000" 443 250] show ?thesis by (simp add: conv_b_def)
qed

text \<open>
  Green: the exact value is an integer for two chroma pairs besides the neutral one, and only there
  can rounding carry the result across an integer.
\<close>

definition green_exception :: "int \<Rightarrow> int \<Rightarrow> bool" where
  "green_exception u v \<longleftrightarrow> u = 100 \<and> v = -100 \<or> u = -100 \<and> v = 100"

lemma green_residues:
  "list_all (\<lambda>u. \<bar>(13749 * u + 62500) mod 125000 - 62500\<bar> \<le> 128 \<longrightarrow> u = 0 \<or> u = 100 \<or> u = -100) [-128..128]"
  by code_simp

lemma green_integer_points:
  assumes "\<bar>u\<bar> \<le> 128" "\<bar>v\<bar> \<le> 128" and "(125000 :: int) dvd 43017 * u + 89267 * v"
  shows "u = 0 \<and> v = 0 \<or> green_exception u v"
proof -
  from assms(3) obtain k where k: "43017 * u + 89267 * v = 125000 * k" by auto
  define j where "j = 31524 * u + 65417 * v - 91603 * k"
  have "91603 * (43017 * u + 89267 * v) = 91603 * (125000 * k)" using k by simp
  then have "13749 * u + 62500 = (v + 62500) + 125000 * j" unfolding j_def by (simp add: algebra_simps)
  then have "(13749 * u + 62500) mod 125000 = (v + 62500) mod 125000"
    by (simp only: mod_mult_self2)
  also have "\<dots> = v + 62500" using assms(2) by (intro mod_pos_pos_trivial) linarith+
  finally have v: "(13749 * u + 62500) mod 125000 - 62500 = v" by simp
  have "u \<in> set [-128..128]" unfolding set_upto atLeastAtMost_iff using assms(1) by linarith
  with green_residues v assms(2) have "u = 0 \<or> u = 100 \<or> u = -100"
    unfolding list_all_iff by blast
  with v show ?thesis by (auto simp: green_exception_def)
qed

lemma conv_g_error:
  assumes "0 \<le> y" "y \<le> 255" "\<bar>u\<bar> \<le> 128" "\<bar>v\<bar> \<le> 128"
  shows "\<bar>fl (fl (of_int y - fl (fl (344136 / 1000000) * of_int u)) - fl (fl (714136 / 1000000) * of_int v)) -
      of_int (125000 * y - 43017 * u - 89267 * v) / 125000\<bar> < 1 / 125000"
proof -
  let ?k = "344136 / 1000000 :: rat" and ?l = "714136 / 1000000 :: rat"
  let ?p = "fl (fl ?k * of_int u)" and ?r = "fl (fl ?l * of_int v)"
  have "\<bar>?k\<bar> < 2" "\<bar>?l\<bar> < 2" by simp_all
  note p = fl_product_error [OF this(1) assms(3)] and r = fl_product_error [OF this(2) assms(4)]
  have "\<bar>of_int y - ?p\<bar> < 1024" using p(2) luma_bound [OF assms(1,2)] by linarith
  note s1 = fl_small_error [OF this]
  have "(1 :: rat) / 2 ^ 44 \<le> 1" by simp
  then have "\<bar>fl (of_int y - ?p) - ?r\<bar> < 1024" using s1 p(2) r(2) luma_bound [OF assms(1,2)] by linarith
  note s2 = fl_small_error [OF this]
  have x: "of_int (125000 * y - 43017 * u - 89267 * v) / 125000 = of_int y - ?k * of_int u - ?l * of_int v"
    by (simp add: field_simps)
  have "(1 :: rat) / 2 ^ 44 + 1 / 2 ^ 44 + 1 / 2 ^ 43 + 1 / 2 ^ 43 < 1 / 125000" by simp
  with s1 s2 p(1) r(1) show ?thesis unfolding x by linarith
qed

lemma conv_g_exact:
  assumes "0 \<le> y" "y \<le> 255" "\<bar>u\<bar> \<le> 128" "\<bar>v\<bar> \<le> 128"
  shows "green_exception u v \<or> conv_g y u v = truncate (of_int y - 344136 / 1000000 * of_int u - 714136 / 1000000 * of_int v)"
    and "\<bar>conv_g y u v - truncate (of_int y - 344136 / 1000000 * of_int u - 714136 / 1000000 * of_int v)\<bar> \<le> 1"
proof -
  let ?m = "125000 * y - 43017 * u - 89267 * v"
  let ?x = "of_int y - 344136 / 1000000 * of_int u - 714136 / 1000000 * of_int v :: rat"
  have x: "?x = of_int ?m / of_int 125000" by (simp add: field_simps)
  note err = conv_g_error [OF assms]
  show "green_exception u v \<or> conv_g y u v = truncate ?x"
  proof (cases "125000 dvd ?m")
    case True
    have "43017 * u + 89267 * v = 125000 * y - ?m" by simp
    with True have "125000 dvd 43017 * u + 89267 * v" by (metis dvd_diff dvd_triv_left)
    from green_integer_points [OF assms(3,4) this] show ?thesis
      using assms(1,2) by (auto simp: conv_g_def fl_int)
  next
    case False
    have "conv_g y u v = truncate (of_int ?m / of_int 125000)"
      unfolding conv_g_def by (rule truncate_stable [OF _ _ False]) (use err in simp_all)
    then show ?thesis unfolding x by blast
  qed
  have "(1 :: rat) / 125000 < 1" by simp
  with err show "\<bar>conv_g y u v - truncate ?x\<bar> \<le> 1"
    unfolding conv_g_def x by (intro truncate_near) (simp only: of_int_numeral)
qed

section \<open>The loop\<close>

text \<open>The bytes for the \<open>j\<close>-th group of four input bytes from offset \<open>ip\<close> on.\<close>

definition pair_at :: "uint8 list \<Rightarrow> nat \<Rightarrow> uint8 list" where
  "pair_at inp ip = yuyv_pair (inp ! ip) (inp ! (ip + 1)) (inp ! (ip + 2)) (inp ! (ip + 3))"

lemma length_pair_at [simp]: "length (pair_at inp ip) = 6"
  by (simp add: pair_at_def yuyv_pair_def Let_def)

lemma yuyv_loop_pairs:
  assumes "n - i = 2 * int k" "0 \<le> i" "n < 2 ^ 31" "ip + 4 * k \<le> length inp" "op + 6 * k \<le> length out"
  shows "yuyv_loop n i ip op inp out =
    Some (take op out @ concat (map (\<lambda>j. pair_at inp (ip + 4 * j)) [0..<k]) @ drop (op + 6 * k) out)"
  using assms
proof (induction k arbitrary: i ip op out)
  case 0
  then show ?case by (simp add: yuyv_loop.simps)
next
  case (Suc k)
  let ?out = "take op out @ pair_at inp ip @ drop (op + 6) out"
  have fit: "op \<le> length out" "length ?out = length out" using Suc.prems(5) by simp_all
  have ok: "int_ok (i + 2)" "i < n" using Suc.prems by (simp_all add: int_ok_def)
  have "yuyv_loop n (i + 2) (ip + 4) (op + 6) inp ?out =
      Some (take (op + 6) ?out @ concat (map (\<lambda>j. pair_at inp (ip + 4 + 4 * j)) [0..<k]) @ drop (op + 6 + 6 * k) ?out)"
    by (rule Suc.IH) (use Suc.prems fit in simp_all)
  moreover have "take (op + 6) ?out = take op out @ pair_at inp ip" using fit by simp
  moreover have "drop (op + 6 + 6 * k) ?out = drop (op + 6 * Suc k) out" using fit(1) by (simp add: ac_simps)
  moreover have "concat (map (\<lambda>j. pair_at inp (ip + 4 * j)) [0..<Suc k]) =
      pair_at inp ip @ concat (map (\<lambda>j. pair_at inp (ip + 4 + 4 * j)) [0..<k])"
    by (simp add: upt_conv_Cons map_Suc_upt [symmetric] comp_def add.assoc del: upt_Suc)
  ultimately show ?case
    using Suc.prems ok by (subst yuyv_loop.simps) (simp add: pair_at_def)
qed

text \<open>With fewer than six bytes left for a group, the loop writes outside the output.\<close>

lemma yuyv_loop_overrun:
  assumes "n - i = 2 * int k + 1" "0 \<le> i" "length out < op + 6 * Suc k"
  shows "yuyv_loop n i ip op inp out = None"
  using assms
proof (induction k arbitrary: i ip op out)
  case 0
  then show ?case by (subst yuyv_loop.simps) simp
next
  case (Suc k)
  let ?out = "take op out @ pair_at inp ip @ drop (op + 6) out"
  have "yuyv_loop n (i + 2) (ip + 4) (op + 6) inp ?out = None" if "op + 6 \<le> length out"
    by (rule Suc.IH) (use Suc.prems that in simp_all)
  then show ?case
    using Suc.prems by (subst yuyv_loop.simps) (simp add: pair_at_def)
qed

section \<open>Properties\<close>

text \<open>The literals and products of the green channel at the chroma pair \<open>(-100, 100)\<close>, and luma 222.\<close>

lemma green_rounding:
  "fl (344136 / 1000000) = 1549850761364773 / 2 ^ 52"
  "fl (714136 / 1000000) = 6432365246983713 / 2 ^ 53"
  "fl (1549850761364773 / 2 ^ 52 * - 100) = - 1210820907316229 / 2 ^ 45"
  "fl (222 + 1210820907316229 / 2 ^ 45) = 2255437877759233 / 2 ^ 43"
  "fl (6432365246983713 / 2 ^ 53 * 100) = 2512642674603013 / 2 ^ 45"
  "fl (2255437877759233 / 2 ^ 43 - 2512642674603013 / 2 ^ 45) = 6509108836433919 / 2 ^ 45"
  using fl_nearest [of "344136 / 1000000" "- 54" "6199403045459092"]
    fl_nearest [of "714136 / 1000000" "- 53" "6432365246983713"]
    fl_nearest [of "1549850761364773 / 2 ^ 52 * - 100" "- 47" "- 4843283629264916"]
    ulp_exponent_ge_1 [of 5 "1549850761364773 / 2 ^ 52 * - 100"]
    fl_tie [of "222 + 1210820907316229 / 2 ^ 45" "- 44" "4510875755518466"]
    ulp_exponent_ge_1 [of 8 "222 + 1210820907316229 / 2 ^ 45"]
    fl_nearest [of "6432365246983713 / 2 ^ 53 * 100" "- 46" "5025285349206026"]
    ulp_exponent_ge_1 [of 6 "6432365246983713 / 2 ^ 53 * 100"]
    fl_nearest [of "2255437877759233 / 2 ^ 43 - 2512642674603013 / 2 ^ 45" "- 45" "6509108836433919"]
    ulp_exponent_ge_1 [of 7 "2255437877759233 / 2 ^ 43 - 2512642674603013 / 2 ^ 45"]
  by (simp_all add: ulp_exponent_def pow2_def eval_nat_numeral)

lemma green_exception_example: "conv_g 222 (- 100) 100 = 184"
proof -
  have "(184 :: rat) \<le> 6509108836433919 / 2 ^ 45" "6509108836433919 / 2 ^ 45 < (185 :: rat)" by simp_all
  then have "\<lfloor>6509108836433919 / 2 ^ 45 :: rat\<rfloor> = 184" by (simp add: floor_eq_iff)
  then have t: "truncate (6509108836433919 / 2 ^ 45) = 184" by (simp add: truncate_def)
  have s: "222 - - 1210820907316229 / 2 ^ 45 = (222 + 1210820907316229 / 2 ^ 45 :: rat)" by simp
  show ?thesis
    unfolding conv_g_def of_int_numeral of_int_minus green_rounding(1-3) s green_rounding(4-6) by (rule t)
qed

text \<open>
  C29. The floating-point conversion computes the exact colour, truncated: for every byte of luma and
  chroma, red and blue are the exact rational values truncated, green too unless the chroma pair
  is (-100, 100) or (100, -100), and it is never off by more than one. The exception is real: at
  luma 222 and chroma (-100, 100) the code computes 184 where the exact value is 185.
\<close>

theorem rgb_conversion_exact:
  "let y = uint (b0 :: uint8); u = uint (b1 :: uint8) - 128; v = uint (b3 :: uint8) - 128 in
    conv_r y v = truncate (of_int y + 1402 / 1000 * of_int v)
    \<and> conv_b y u = truncate (of_int y + 1772 / 1000 * of_int u)
    \<and> (green_exception u v \<or> conv_g y u v = truncate (of_int y - 344136 / 1000000 * of_int u - 714136 / 1000000 * of_int v))
    \<and> \<bar>conv_g y u v - truncate (of_int y - 344136 / 1000000 * of_int u - 714136 / 1000000 * of_int v)\<bar> \<le> 1
    \<and> conv_g 222 (- 100) 100 = 184 \<and> truncate (222 - 344136 / 1000000 * - 100 - 714136 / 1000000 * 100) = 185"
proof -
  have b: "0 \<le> uint b \<and> uint b < 256" for b :: uint8 using uint_lt2p [of b] by simp
  have r: "0 \<le> uint b0" "uint b0 \<le> 255" "\<bar>uint b1 - 128\<bar> \<le> 128" "\<bar>uint b3 - 128\<bar> \<le> 128"
    using b [of b0] b [of b1] b [of b3] by linarith+
  have "truncate (222 - 344136 / 1000000 * - 100 - 714136 / 1000000 * 100) = 185"
    using truncate_int [of 185] by simp
  then show ?thesis
    unfolding Let_def using conv_r_exact [OF r(1,2,4)] conv_b_exact [OF r(1,2,3)] conv_g_exact [OF r] green_exception_example by blast
qed

text \<open>The pixel \<open>j\<close> of a frame: its own luma byte and the chroma bytes it shares with its neighbour.\<close>

definition rgb_pixel :: "uint8 list \<Rightarrow> nat \<Rightarrow> uint8 list" where
  "rgb_pixel inp j =
     (let y = uint (inp ! (2 * j)); u = uint (inp ! (4 * (j div 2) + 1)) - 128; v = uint (inp ! (4 * (j div 2) + 3)) - 128
      in [clamp (conv_r y v), clamp (conv_g y u v), clamp (conv_b y u)])"

lemma pair_pixels: "pair_at inp (4 * j) = rgb_pixel inp (2 * j) @ rgb_pixel inp (Suc (2 * j))"
proof -
  have "4 * j + 2 = 2 * Suc (2 * j)" by simp
  then show ?thesis by (simp add: pair_at_def yuyv_pair_def rgb_pixel_def Let_def)
qed

lemma concat_pair_pixels:
  "concat (map (\<lambda>j. pair_at inp (4 * j)) [0..<k]) = concat (map (rgb_pixel inp) [0..<2 * k])"
  by (induction k) (simp_all add: pair_pixels)

lemma yuyv_to_rgb_even:
  assumes "w * h = int n" and "even n" and "w * h < 2 ^ 31" and "2 * n \<le> length inp" and "3 * n \<le> length out"
  shows "yuyv_to_rgb inp out w h = Some (concat (map (rgb_pixel inp) [0..<n]) @ drop (3 * n) out)"
proof -
  obtain k where k: "n = 2 * k" using assms(2) by blast
  have "yuyv_loop (w * h) 0 0 0 inp out =
      Some (take 0 out @ concat (map (\<lambda>j. pair_at inp (0 + 4 * j)) [0..<k]) @ drop (0 + 6 * k) out)"
    by (rule yuyv_loop_pairs) (use assms k in simp_all)
  with assms(1,3) k show ?thesis by (simp add: yuyv_to_rgb_def int_ok_def concat_pair_pixels)
qed

text \<open>
  C15. The conversion loop ends, stays inside its buffers and is correct for every frame with an even
  number of pixels (below the range of \<^verbatim>\<open>int\<close>): given two bytes of input and three of output per
  pixel it writes exactly the colours of the pixels in order, and leaves the rest of the output
  buffer as it was.
\<close>

theorem yuyv_to_rgb_correct:
  assumes "w * h = int n" and "even n" and "w * h < 2 ^ 31" and "2 * n \<le> length inp" and "3 * n \<le> length out"
  shows "yuyv_to_rgb inp out w h = Some (concat (map (rgb_pixel inp) [0..<n]) @ drop (3 * n) out)"
  by (rule yuyv_to_rgb_even [OF assms])

theorem yuyv_to_rgb_correct_witness:
  "yuyv_to_rgb [16, 128, 235, 128] (replicate 7 0) 2 1 = Some [16, 16, 16, 235, 235, 235, 0]"
proof -
  have "yuyv_to_rgb [16, 128, 235, 128] (replicate 7 0) 2 1 =
      Some (concat (map (rgb_pixel [16, 128, 235, 128]) [0..<2]) @ drop (3 * 2) (replicate 7 0))"
    by (rule yuyv_to_rgb_correct) simp_all
  moreover have "conv_r y 0 = y" "conv_g y 0 0 = y" "conv_b y 0 = y" if "0 \<le> y" "y \<le> 255" for y
    using that by (simp_all add: conv_r_def conv_g_def conv_b_def fl_int)
  ultimately show ?thesis by (simp add: rgb_pixel_def clamp_def upt_rec)
qed

lemma yuyv_to_rgb_odd:
  assumes "w * h = int n" and "odd n" and "length out = 3 * n"
  shows "yuyv_to_rgb inp out w h = None"
proof -
  obtain k where k: "n = 2 * k + 1" using assms(2) by (rule oddE)
  have "yuyv_loop (w * h) 0 0 0 inp out = None"
    by (rule yuyv_loop_overrun [of _ _ k]) (use assms k in simp_all)
  then show ?thesis by (simp add: yuyv_to_rgb_def)
qed

text \<open>
  C32. An odd number of pixels overruns the output: with the three bytes per pixel that the caller
  allocates, the last iteration writes outside the buffer, whatever the input is.
\<close>

theorem yuyv_to_rgb_odd_overruns:
  assumes "w * h = int n" and "odd n" and "length out = 3 * n"
  shows "yuyv_to_rgb inp out w h = None"
  by (rule yuyv_to_rgb_odd [OF assms])

theorem yuyv_to_rgb_odd_overruns_witness:
  "yuyv_to_rgb (replicate 100 0) (replicate 27 0) 3 3 = None"
  by (rule yuyv_to_rgb_odd_overruns [of _ _ 9]) simp_all

end
