(* ===== verification/PrintDouble.thy ===== *)
theory PrintDouble
  imports Printf Complex_Main
begin

text \<open>
  The value of a \<^verbatim>\<open>double\<close> given by its bit pattern (IEEE 754 binary64), and the conversion \<^verbatim>\<open>%.2f\<close>
  of \<^verbatim>\<open>printf\<close>: the exact value rounded to hundredths, ties to even, as the C library does in the
  default rounding mode. Infinities and NaNs are printed as the GNU library prints them.
\<close>

section \<open>Fields and value\<close>

definition double_negative :: "double \<Rightarrow> bool" where
  "double_negative d \<longleftrightarrow> bit d 63"

definition double_exponent :: "double \<Rightarrow> nat" where
  "double_exponent d = unat (take_bit 11 (drop_bit 52 d))"

definition double_fraction :: "double \<Rightarrow> nat" where
  "double_fraction d = unat (take_bit 52 d)"

definition double_finite :: "double \<Rightarrow> bool" where
  "double_finite d \<longleftrightarrow> double_exponent d \<noteq> 2047"

text \<open>The significand has a hidden leading bit unless the number is subnormal.\<close>

definition double_significand :: "double \<Rightarrow> nat" where
  "double_significand d = (if double_exponent d = 0 then double_fraction d else 2 ^ 52 + double_fraction d)"

text \<open>The magnitude is the significand times two to the power \<open>double_scale d - 1075\<close>.\<close>

definition double_scale :: "double \<Rightarrow> nat" where
  "double_scale d = max 1 (double_exponent d)"

definition double_abs :: "double \<Rightarrow> rat" where
  "double_abs d = of_nat (double_significand d) * 2 ^ double_scale d / 2 ^ 1075"

section \<open>Rounding to hundredths\<close>

definition div_half_even :: "nat \<Rightarrow> nat \<Rightarrow> nat" where
  "div_half_even n k =
     (let q = n div k; r = n mod k
      in if 2 * r < k then q else if k < 2 * r then Suc q else if even q then q else Suc q)"

definition double_hundredths :: "double \<Rightarrow> nat" where
  "double_hundredths d = div_half_even (100 * double_significand d * 2 ^ double_scale d) (2 ^ 1075)"

definition print_f2 :: "double \<Rightarrow> string" where
  "print_f2 d =
     (if double_negative d then ''-'' else '''') @
     (if \<not> double_finite d then (if double_fraction d = 0 then ''inf'' else ''nan'')
      else (let n = double_hundredths d
            in print_u (n div 100) @ ''.'' @ [char_of (48 + n mod 100 div 10), char_of (48 + n mod 10)]))"

lemma div_half_even_error:
  assumes "0 < k"
  shows "\<bar>of_nat (div_half_even n k) - of_nat n / of_nat k\<bar> \<le> (1 / 2 :: rat)"
proof -
  let ?q = "n div k" and ?r = "n mod k"
  have "(of_nat n :: rat) = of_nat ?q * of_nat k + of_nat ?r"
    unfolding of_nat_mult [symmetric] of_nat_add [symmetric] by (simp only: div_mult_mod_eq)
  then have "of_nat n / of_nat k = (of_nat ?q * of_nat k + of_nat ?r) / (of_nat k :: rat)" by (rule arg_cong)
  then have "of_nat n / of_nat k = of_nat ?q + (of_nat ?r / of_nat k :: rat)"
    using assms by (simp only: add_divide_distrib) simp
  moreover have r: "?r < k" using assms by simp
  have "2 * ?r \<le> k \<Longrightarrow> of_nat ?r / of_nat k \<le> (1 / 2 :: rat)"
    using assms of_nat_mono [of "2 * ?r" k, where ?'a = rat] by (simp add: divide_le_eq)
  moreover have "k \<le> 2 * ?r \<Longrightarrow> (1 / 2 :: rat) \<le> of_nat ?r / of_nat k"
    using assms of_nat_mono [of k "2 * ?r", where ?'a = rat] by (simp add: le_divide_eq)
  moreover have "(0 :: rat) \<le> of_nat ?r / of_nat k" "of_nat ?r / of_nat k \<le> (1 :: rat)"
    using assms r by (simp_all add: divide_le_eq)
  ultimately show ?thesis
    by (cases "2 * ?r < k"; cases "k < 2 * ?r") (auto simp: div_half_even_def Let_def abs_le_iff)
qed

lemma div_half_even_exact: "0 < k \<Longrightarrow> div_half_even (m * k) k = m"
  by (simp add: div_half_even_def)

text \<open>The printed number of hundredths is nearest to the exact value.\<close>

lemma double_hundredths_error: "\<bar>of_nat (double_hundredths d) / 100 - double_abs d\<bar> \<le> 1 / 200"
proof -
  have k: "(0 :: nat) < 2 ^ 1075" by (rule zero_less_power) simp
  have "\<bar>of_nat (double_hundredths d) - 100 * double_abs d\<bar> \<le> 1 / 2"
    using div_half_even_error [OF k, of "100 * double_significand d * 2 ^ double_scale d"]
    unfolding double_hundredths_def double_abs_def
    by (simp only: of_nat_mult of_nat_power of_nat_numeral times_divide_eq_right mult.assoc)
  then show ?thesis by (simp add: abs_le_iff field_simps)
qed

section \<open>Reading the text back\<close>

definition dec_digits :: "string \<Rightarrow> nat" where
  "dec_digits s = foldl (\<lambda>n c. 10 * n + (of_char c - 48)) 0 s"

lemma digit_value: "n < 10 \<Longrightarrow> (of_char (char_of (48 + n) :: char) :: nat) - 48 = n"
  by (simp add: of_char_of)

lemma dec_digits_snoc: "dec_digits (s @ [c]) = 10 * dec_digits s + (of_char c - 48)"
  by (simp add: dec_digits_def)

lemma dec_digits_print_u: "dec_digits (print_u n) = n"
proof (induction n rule: print_u.induct)
  case (1 n)
  then show ?case
  proof (cases "n < 10")
    case True
    then show ?thesis using dec_digits_snoc [of "[]"] digit_value by (simp add: print_u.simps [of n] dec_digits_def)
  next
    case False
    with 1 show ?thesis by (simp add: print_u.simps [of n] dec_digits_snoc digit_value)
  qed
qed

lemma hundredths_digits: "10 * (10 * (n div 100) + n mod 100 div 10) + n mod 10 = (n :: nat)"
proof -
  have "n mod 100 = 10 * (n div 10 mod 10) + n mod 10" using mod_mult2_eq [of n 10 10] by simp
  then have "n mod 100 div 10 = n div 10 mod 10" by simp
  moreover have "n div 100 = n div 10 div 10" by (simp add: div_mult2_eq [symmetric])
  ultimately show ?thesis using mult_div_mod_eq [of 10 "n div 10"] mult_div_mod_eq [of 10 n] by simp
qed

text \<open>The text before the point and the two digits after it.\<close>

lemma print_f2_finite:
  assumes "double_finite d"
  obtains whole c1 c2 where "print_f2 d = (if double_negative d then ''-'' else '''') @ whole @ ''.'' @ [c1, c2]"
    and "dec_digits (whole @ [c1, c2]) = double_hundredths d"
proof
  let ?n = "double_hundredths d"
  let ?w = "print_u (?n div 100)"
  let ?c1 = "char_of (48 + ?n mod 100 div 10) :: char" and ?c2 = "char_of (48 + ?n mod 10) :: char"
  show "print_f2 d = (if double_negative d then ''-'' else '''') @ ?w @ ''.'' @ [?c1, ?c2]"
    using assms by (simp add: print_f2_def Let_def)
  have "dec_digits (?w @ [?c1, ?c2]) = 10 * (10 * (?n div 100) + ?n mod 100 div 10) + ?n mod 10"
    using dec_digits_snoc [of "?w @ [?c1]" ?c2] dec_digits_snoc [of ?w ?c1]
    by (simp add: dec_digits_print_u digit_value)
  also have "\<dots> = ?n" by (rule hundredths_digits)
  finally show "dec_digits (?w @ [?c1, ?c2]) = ?n" .
qed

lemma print_f2_24: "print_f2 0x4038000000000000 = ''24.00''"
proof -
  have f: "double_exponent 0x4038000000000000 = 1027" "double_fraction 0x4038000000000000 = 2 ^ 51"
    "\<not> double_negative 0x4038000000000000"
    by (simp_all add: double_exponent_def double_fraction_def double_negative_def)
  have "100 * double_significand 0x4038000000000000 * 2 ^ double_scale 0x4038000000000000 = 2400 * (2 :: nat) ^ 1075"
  proof -
    have "(2 :: nat) ^ 1075 = 2 ^ 48 * 2 ^ 1027" unfolding power_add [symmetric] by simp
    then show ?thesis by (simp add: double_significand_def double_scale_def f)
  qed
  then have "double_hundredths 0x4038000000000000 = 2400"
    unfolding double_hundredths_def by (simp only: div_half_even_exact zero_less_power zero_less_numeral)
  then show ?thesis
    by (simp add: print_f2_def double_finite_def f print_u.simps char_of_def bit_0)
qed

end
