(* ===== verification/PrintGeneral.thy ===== *)
theory PrintGeneral
  imports PrintDouble
begin

text \<open>
  How a stream prints a floating-point number in its default format, which is the conversion \<^verbatim>\<open>%g\<close> with
  six significant digits: the exact value is rounded to six decimal digits, ties to even, trailing
  zeros are dropped, and numbers below \<open>10\<^sup>-\<^sup>4\<close> or from \<open>10\<^sup>6\<close> on are printed with an exponent.
\<close>

section \<open>Six significant digits\<close>

text \<open>The decimal exponent of \<open>p / q\<close>: the number of digits before the point, less one.\<close>

definition quot_exponent :: "nat \<Rightarrow> nat \<Rightarrow> int" where
  "quot_exponent p q =
     (if q \<le> p then int (length (print_u (p div q))) - 1 else - int (length (print_u ((q - 1) div p))))"

definition six_digits :: "nat \<Rightarrow> nat \<Rightarrow> nat \<times> int" where
  "six_digits p q =
     (let e = quot_exponent p q;
          n = (if e \<le> 5 then div_half_even (p * 10 ^ nat (5 - e)) q else div_half_even p (q * 10 ^ nat (e - 5)))
      in if n = 1000000 then (100000, e + 1) else (n, e))"

section \<open>The text\<close>

definition strip_zeros :: "string \<Rightarrow> string" where
  "strip_zeros s = rev (dropWhile (\<lambda>c. c = CHR ''0'') (rev s))"

definition with_fraction :: "string \<Rightarrow> string \<Rightarrow> string" where
  "with_fraction whole fraction = whole @ (if strip_zeros fraction = [] then [] else ''.'' @ strip_zeros fraction)"

definition print_exponent :: "int \<Rightarrow> string" where
  "print_exponent e =
     (if e < 0 then ''e-'' else ''e+'') @ (if \<bar>e\<bar> < 10 then ''0'' else []) @ print_u (nat \<bar>e\<bar>)"

definition general_text :: "nat \<times> int \<Rightarrow> string" where
  "general_text = (\<lambda>(n, e).
     let ds = print_u n
     in if e < - 4 \<or> 6 \<le> e then with_fraction (take 1 ds) (drop 1 ds) @ print_exponent e
        else if 0 \<le> e then with_fraction (take (nat e + 1) ds) (drop (nat e + 1) ds)
        else with_fraction ''0'' (replicate (nat (- e) - 1) CHR ''0'' @ ds))"

definition print_g :: "rat \<Rightarrow> string" where
  "print_g x =
     (case quotient_of \<bar>x\<bar> of
        (p, q) \<Rightarrow> (if x < 0 then ''-'' else []) @ (if p = 0 then ''0'' else general_text (six_digits (nat p) (nat q))))"

section \<open>The digits are accurate\<close>

lemma print_u_length:
  "10 ^ (length (print_u n) - 1) \<le> max 1 n" "n < 10 ^ length (print_u n)" "0 < length (print_u n)"
proof -
  have "10 ^ (length (print_u n) - 1) \<le> max 1 n \<and> n < 10 ^ length (print_u n) \<and> 0 < length (print_u n)"
  proof (induction n rule: print_u.induct)
    case (1 n)
    show ?case
    proof (cases "n < 10")
      case True
      then show ?thesis by (simp add: print_u.simps [of n])
    next
      case False
      then have m: "1 \<le> n div 10" by (simp add: div_le_mono)
      let ?l = "length (print_u (n div 10))"
      have l: "10 ^ (?l - 1) \<le> n div 10" "n div 10 < 10 ^ ?l" "0 < ?l" using 1 [OF False] m by auto
      have "10 * 10 ^ (?l - 1) \<le> 10 * (n div 10)" "n < 10 * 10 ^ ?l" using l(1,2) by auto
      moreover have "10 * 10 ^ (?l - 1) = (10 :: nat) ^ ?l" using l(3) by (cases ?l) simp_all
      ultimately show ?thesis using False by (simp add: print_u.simps [of n])
    qed
  qed
  then show "10 ^ (length (print_u n) - 1) \<le> max 1 n" "n < 10 ^ length (print_u n)" "0 < length (print_u n)" by simp_all
qed

lemma quot_exponent_bounds:
  assumes "0 < p" and "0 < q"
  shows "10 powi quot_exponent p q \<le> of_nat p / (of_nat q :: rat)" "of_nat p / (of_nat q :: rat) < 10 powi (quot_exponent p q + 1)"
proof -
  have le: "a * q \<le> p \<Longrightarrow> of_nat a \<le> of_nat p / (of_nat q :: rat)" for a
    using assms of_nat_mono [of "a * q" p, where ?'a = rat] by (simp add: le_divide_eq)
  have less: "p < a * q \<Longrightarrow> of_nat p / (of_nat q :: rat) < of_nat a" for a
    using assms of_nat_less_iff [of p "a * q", where ?'a = rat] by (simp add: divide_less_eq)
  have le': "q \<le> p * a \<Longrightarrow> 0 < a \<Longrightarrow> 1 / of_nat a \<le> of_nat p / (of_nat q :: rat)" for a
    using assms of_nat_mono [of q "p * a", where ?'a = rat] by (simp add: field_simps)
  have less': "p * a < q \<Longrightarrow> 0 < a \<Longrightarrow> of_nat p / (of_nat q :: rat) < 1 / of_nat a" for a
    using assms of_nat_less_iff [of "p * a" q, where ?'a = rat] by (simp add: field_simps)
  have "10 powi quot_exponent p q \<le> of_nat p / (of_nat q :: rat) \<and> of_nat p / (of_nat q :: rat) < 10 powi (quot_exponent p q + 1)"
  proof (cases "q \<le> p")
    case True
    let ?m = "p div q"
    let ?l = "length (print_u ?m)"
    have m: "1 \<le> ?m" using True assms(2) by (simp add: Suc_le_eq div_greater_zero_iff)
    have l: "int (?l - 1) = int ?l - 1" using print_u_length(3) [of ?m] by linarith
    have e: "quot_exponent p q = int (?l - 1)" "quot_exponent p q + 1 = int ?l"
      unfolding l using True by (simp_all add: quot_exponent_def)
    have "10 ^ (?l - 1) \<le> ?m" "?m < 10 ^ ?l" using print_u_length(1,2) [of ?m] m by simp_all
    then have "10 ^ (?l - 1) * q \<le> p" "p < 10 ^ ?l * q"
      using assms(2) by (simp_all add: less_eq_div_iff_mult_less_eq div_less_iff_less_mult)
    moreover have "(10 :: rat) powi quot_exponent p q = 10 ^ (?l - 1)" unfolding e(1) power_int_of_nat ..
    moreover have "(10 :: rat) powi (quot_exponent p q + 1) = 10 ^ ?l" unfolding e(2) power_int_of_nat ..
    ultimately show ?thesis using le [of "10 ^ (?l - 1)"] less [of "10 ^ ?l"] by simp
  next
    case False
    let ?m = "(q - 1) div p"
    let ?l = "length (print_u ?m)"
    have m: "1 \<le> ?m" using False assms by (simp add: Suc_le_eq div_greater_zero_iff)
    have l: "int (?l - 1) = int ?l - 1" using print_u_length(3) [of ?m] by linarith
    have e: "quot_exponent p q = - int ?l" "quot_exponent p q + 1 = - int (?l - 1)"
      unfolding l using False by (simp_all add: quot_exponent_def)
    have "10 ^ (?l - 1) \<le> ?m" "?m < 10 ^ ?l" using print_u_length(1,2) [of ?m] m by simp_all
    then have "10 ^ (?l - 1) * p \<le> q - 1" "q - 1 < 10 ^ ?l * p"
      using assms(1) by (simp_all add: less_eq_div_iff_mult_less_eq div_less_iff_less_mult)
    then have "p * 10 ^ (?l - 1) < q" "q \<le> p * 10 ^ ?l" using assms(2) by (simp_all add: mult.commute)
    then have "1 / of_nat (10 ^ ?l) \<le> of_nat p / (of_nat q :: rat)" "of_nat p / (of_nat q :: rat) < 1 / of_nat (10 ^ (?l - 1))"
      using le' [of "10 ^ ?l"] less' [of "10 ^ (?l - 1)"] by simp_all
    moreover have "(10 :: rat) powi quot_exponent p q = 1 / 10 ^ ?l"
      unfolding e(1) power_int_minus power_int_of_nat by (simp add: divide_inverse)
    moreover have "(10 :: rat) powi (quot_exponent p q + 1) = 1 / 10 ^ (?l - 1)"
      unfolding e(2) power_int_minus power_int_of_nat by (simp add: divide_inverse)
    ultimately show ?thesis by simp
  qed
  then show "10 powi quot_exponent p q \<le> of_nat p / (of_nat q :: rat)" "of_nat p / (of_nat q :: rat) < 10 powi (quot_exponent p q + 1)"
    by simp_all
qed

text \<open>The rounding step: the value scaled to six digits before the point, rounded to an integer.\<close>

lemma scaled_quotient:
  assumes "0 < q"
  shows "\<bar>of_nat (if e \<le> 5 then div_half_even (p * 10 ^ nat (5 - e)) q else div_half_even p (q * 10 ^ nat (e - 5)))
    - of_nat p / of_nat q * 10 powi (5 - e)\<bar> \<le> (1 / 2 :: rat)"
proof (cases "e \<le> 5")
  case True
  then have "of_nat (p * 10 ^ nat (5 - e)) / (of_nat q :: rat) = of_nat p / of_nat q * 10 powi (5 - e)"
    by (simp add: power_int_def)
  with div_half_even_error [OF assms, of "p * 10 ^ nat (5 - e)"] True show ?thesis by (simp only: if_True)
next
  case False
  then have "of_nat p / (of_nat (q * 10 ^ nat (e - 5)) :: rat) = of_nat p / of_nat q * 10 powi (5 - e)"
    by (simp add: power_int_def field_simps power_one_over)
  moreover have "0 < q * 10 ^ nat (e - 5)" using assms by simp
  ultimately show ?thesis using div_half_even_error [of "q * 10 ^ nat (e - 5)" p] False by (simp only: if_False)
qed

lemma six_digits_accurate:
  assumes "0 < p" and "0 < q" and "six_digits p q = (n, e)"
  shows "100000 \<le> n" "n < 1000000" "\<bar>of_nat n * 10 powi (e - 5) - of_nat p / of_nat q\<bar> \<le> (10 powi (e - 5) / 2 :: rat)"
proof -
  let ?x = "of_nat p / of_nat q :: rat" and ?e = "quot_exponent p q"
  let ?n = "if ?e \<le> 5 then div_half_even (p * 10 ^ nat (5 - ?e)) q else div_half_even p (q * 10 ^ nat (?e - 5))"
  let ?s = "10 powi (?e - 5) :: rat"
  have s: "0 < ?s" "?s * 10 powi (5 - ?e) = 1" by (simp_all add: power_int_add [symmetric])
  define y where "y = ?x * 10 powi (5 - ?e)"
  have y: "y = ?x * 10 powi (5 - ?e)" "\<bar>of_nat ?n - y\<bar> \<le> 1 / 2"
    unfolding y_def using scaled_quotient [OF assms(2), where p = p and e = ?e] by (simp_all only: simp_thms)
  have x: "?x = y * ?s" unfolding y(1) using s(2) by (simp add: mult.assoc mult.commute)
  have "(10 :: rat) powi 5 = 100000" "(10 :: rat) powi 6 = 1000000" by (simp_all add: power_int_def)
  then have "10 powi ?e = (100000 :: rat) * ?s" "10 powi (?e + 1) = (1000000 :: rat) * ?s"
    using power_int_add [of "10 :: rat" 5 "?e - 5"] power_int_add [of "10 :: rat" 6 "?e - 5"] by (simp_all add: add.commute)
  with quot_exponent_bounds [OF assms(1,2)] have "100000 \<le> y" "y < 1000000" unfolding x using s(1) by simp_all
  with y(2) have "(99999 :: rat) < of_nat ?n" "(of_nat ?n :: rat) < 1000001" by linarith+
  then have "rat_of_nat 99999 < rat_of_nat ?n" "rat_of_nat ?n < rat_of_nat 1000001" by (simp_all only: of_nat_numeral)
  then have n: "100000 \<le> ?n" "?n \<le> 1000000" unfolding of_nat_less_iff by linarith+
  have err: "\<bar>of_nat ?n * ?s - ?x\<bar> \<le> ?s / 2"
  proof -
    have "of_nat ?n * ?s - ?x = (of_nat ?n - y) * ?s" unfolding x by (simp add: left_diff_distrib)
    then have "\<bar>of_nat ?n * ?s - ?x\<bar> = \<bar>of_nat ?n - y\<bar> * ?s" using s(1) by (simp add: abs_mult)
    also have "\<dots> \<le> 1 / 2 * ?s" using y(2) s(1) by (intro mult_right_mono) simp_all
    finally show ?thesis by simp
  qed
  show "100000 \<le> n" "n < 1000000" using assms(3) n by (auto simp: six_digits_def Let_def split: if_splits)
  show "\<bar>of_nat n * 10 powi (e - 5) - ?x\<bar> \<le> 10 powi (e - 5) / 2"
  proof (cases "?n = 1000000")
    case True
    then have ne: "n = 100000" "e = ?e + 1" using assms(3) by (simp_all add: six_digits_def Let_def)
    have p: "10 powi (e - 5) = 10 * ?s" unfolding ne(2) using power_int_add [of "10 :: rat" 1 "?e - 5"] by (simp add: algebra_simps)
    have "of_nat n * 10 powi (e - 5) = of_nat ?n * ?s" unfolding p True ne(1) by simp
    then have "\<bar>of_nat n * 10 powi (e - 5) - ?x\<bar> \<le> ?s / 2" using err by (simp only:)
    also have "\<dots> \<le> 10 powi (e - 5) / 2" unfolding p using s(1) by simp
    finally show ?thesis .
  next
    case False
    then have "n = ?n" "e = ?e" using assms(3) by (simp_all add: six_digits_def Let_def split: if_splits)
    with err show ?thesis by simp
  qed
qed

section \<open>Whole numbers\<close>

lemma print_u_times_10: "0 < n \<Longrightarrow> print_u (n * 10) = print_u n @ ''0''"
  by (subst print_u.simps) (simp add: char_of_def bit_0)

lemma print_u_times_power: "0 < n \<Longrightarrow> print_u (n * 10 ^ k) = print_u n @ replicate k CHR ''0''"
proof (induction k)
  case (Suc k)
  have "print_u (n * 10 ^ k * 10) = print_u (n * 10 ^ k) @ ''0''" using Suc.prems by (intro print_u_times_10) simp
  with Suc show ?case by (simp add: replicate_append_same mult.commute [of 10] mult.assoc)
qed simp

lemma strip_zeros_replicate [simp]: "strip_zeros (replicate k CHR ''0'') = []"
  by (simp add: strip_zeros_def)

text \<open>A whole number of at most six digits is printed as such.\<close>

lemma print_g_whole:
  assumes "0 < n" and "n < 1000000"
  shows "print_g (of_nat n) = print_u n"
proof -
  let ?l = "length (print_u n)"
  have l: "0 < ?l" "?l \<le> 6"
  proof -
    have "10 ^ (?l - 1) \<le> n" using print_u_length(1) [of n] assms(1) by simp
    also have "n < 10 ^ 6" using assms(2) by simp
    finally have "(10 :: nat) ^ (?l - 1) < 10 ^ 6" .
    then have "?l - 1 < 6" by (rule power_less_imp_less_exp [rotated]) simp
    then show "?l \<le> 6" by simp
  qed (rule print_u_length(3))
  have e: "quot_exponent n 1 = int ?l - 1" "quot_exponent n 1 \<le> 5" "nat (5 - quot_exponent n 1) = 6 - ?l"
    using assms(1) l by (simp_all add: quot_exponent_def)
  have "n * 10 ^ (6 - ?l) < 10 ^ ?l * 10 ^ (6 - ?l)" using print_u_length(2) [of n] by simp
  also have "\<dots> = 10 ^ 6" unfolding power_add [symmetric] using l(2) by simp
  finally have "n * 10 ^ (6 - ?l) \<noteq> 1000000" by simp
  then have "six_digits n 1 = (n * 10 ^ (6 - ?l), int ?l - 1)"
    using e div_half_even_exact [of 1 "n * 10 ^ (6 - ?l)"] by (simp add: six_digits_def Let_def)
  moreover have "nat (int ?l - 1) + 1 = ?l" using l(1) by linarith
  ultimately have "general_text (six_digits n 1) = print_u n"
    using l by (simp add: general_text_def print_u_times_power [OF assms(1)] with_fraction_def)
  moreover have "quotient_of \<bar>of_nat n\<bar> = (int n, 1)" using quotient_of_rat_of_int [of "int n"] by simp
  ultimately show ?thesis using assms(1) by (simp add: print_g_def)
qed

end
