(* ===== verification/V4l2Webcam.thy ===== *)
theory V4l2Webcam
  imports YuyvConversion PrintGeneral
begin

text \<open>
  The stand-alone V4L2 program (\<^verbatim>\<open>test/webcam.cpp\<close>): opening the device and mapping its buffers,
  taking one snapshot, reading the frame rate, releasing everything.

  The kernel and the file library are the record \<open>v4l2_if\<close> of operations on an arbitrary state
  \<open>'k\<close>; what the program relies on is the predicate \<open>kernel_laws\<close> over the descriptors and mappings
  that exist. Console output is the exact text passed to the streams. \<open>None\<close> of \<open>'a cxx\<close> is undefined behaviour or, for the
  size of a vector, an exception.
\<close>

section \<open>Data\<close>

text \<open>A pointer into user space: null, \<^verbatim>\<open>MAP_FAILED\<close>, or the address of a mapping.\<close>

datatype address = Null | MapFailed | Mapping nat

record Buffer =
  start :: address
  buflen :: nat

record pix_format =
  pixWidth :: uint32
  pixHeight :: uint32
  pixelformat :: uint32

record Webcam =
  fd :: int
  fmt :: pix_format
  bufs :: "Buffer list"

definition empty_buffer :: Buffer where
  "empty_buffer = \<lparr>start = Null, buflen = 0\<rparr>"

definition zero_format :: pix_format where
  "zero_format = \<lparr>pixWidth = 0, pixHeight = 0, pixelformat = 0\<rparr>"

definition new_Webcam :: Webcam where
  "new_Webcam = \<lparr>fd = - 1, fmt = zero_format, bufs = []\<rparr>"

section \<open>What the program uses of the system\<close>

text \<open>
  Every \<^verbatim>\<open>ioctl\<close> returns its result and the fields it fills in. \<open>v4l2_fopen\<close> gives a file handle \<open>'h\<close>
  or null. \<open>v4l2_read\<close> is the content of a mapping. \<open>v4l2_cout\<close> and \<open>v4l2_cerr\<close> write a text to the two
  streams, \<open>v4l2_perror\<close> a message about the last error. The pixel formats are constants of the kernel headers.
\<close>

record ('k, 'h) v4l2_if =
  PIX_FMT_MJPEG :: uint32
  PIX_FMT_JPEG :: uint32
  PIX_FMT_YUYV :: uint32
  v4l2_open :: "string \<Rightarrow> 'k \<Rightarrow> int \<times> 'k"
  v4l2_close :: "int \<Rightarrow> 'k \<Rightarrow> 'k"
  g_fmt :: "int \<Rightarrow> pix_format \<Rightarrow> 'k \<Rightarrow> int \<times> pix_format \<times> 'k"
  s_fmt :: "int \<Rightarrow> pix_format \<Rightarrow> 'k \<Rightarrow> int \<times> pix_format \<times> 'k"
  reqbufs :: "int \<Rightarrow> uint32 \<Rightarrow> 'k \<Rightarrow> int \<times> uint32 \<times> 'k"
  querybuf :: "int \<Rightarrow> uint32 \<Rightarrow> 'k \<Rightarrow> int \<times> uint32 \<times> uint32 \<times> 'k" \<comment> \<open>length and offset\<close>
  qbuf :: "int \<Rightarrow> uint32 \<Rightarrow> 'k \<Rightarrow> int \<times> 'k"
  dqbuf :: "int \<Rightarrow> 'k \<Rightarrow> int \<times> uint32 \<times> uint32 \<times> 'k" \<comment> \<open>index and bytes used\<close>
  streamon :: "int \<Rightarrow> 'k \<Rightarrow> int \<times> 'k"
  streamoff :: "int \<Rightarrow> 'k \<Rightarrow> int \<times> 'k"
  g_parm :: "int \<Rightarrow> 'k \<Rightarrow> int \<times> uint32 \<times> uint32 \<times> 'k" \<comment> \<open>numerator and denominator\<close>
  v4l2_mmap :: "nat \<Rightarrow> int \<Rightarrow> uint32 \<Rightarrow> 'k \<Rightarrow> address \<times> 'k"
  v4l2_munmap :: "address \<Rightarrow> nat \<Rightarrow> 'k \<Rightarrow> 'k"
  v4l2_read :: "address \<Rightarrow> 'k \<Rightarrow> uint8 list"
  v4l2_fopen :: "string \<Rightarrow> 'k \<Rightarrow> 'h option \<times> 'k"
  v4l2_fwrite :: "'h \<Rightarrow> uint8 list \<Rightarrow> 'k \<Rightarrow> 'k"
  v4l2_fclose :: "'h \<Rightarrow> 'k \<Rightarrow> 'k"
  v4l2_cout :: "string \<Rightarrow> 'k \<Rightarrow> 'k"
  v4l2_cerr :: "string \<Rightarrow> 'k \<Rightarrow> 'k"
  v4l2_perror :: "string \<Rightarrow> 'k \<Rightarrow> 'k"

section \<open>FourCC\<close>

text \<open>The four bytes, least significant first; the string ends at the first zero byte.\<close>

definition fourcc_bytes :: "uint32 \<Rightarrow> nat list" where
  "fourcc_bytes f =
     [unat (f AND 0xFF), unat (drop_bit 8 f AND 0xFF), unat (drop_bit 16 f AND 0xFF), unat (drop_bit 24 f AND 0xFF)]"

definition fourcc_to_str :: "uint32 \<Rightarrow> string" where
  "fourcc_to_str f = map char_of (takeWhile (\<lambda>n. n \<noteq> 0) (fourcc_bytes f))"

text \<open>\<^verbatim>\<open>fail\<close>: the message and \<^verbatim>\<open>false\<close>.\<close>

definition fail :: "('k, 'h) v4l2_if \<Rightarrow> string \<Rightarrow> 'k \<Rightarrow> bool \<times> 'k" where [simp]:
  "fail K msg k = (False, v4l2_perror K msg k)"

section \<open>startupWebcam\<close>

text \<open>\<^verbatim>\<open>vector::resize\<close>\<close>

definition resize :: "nat \<Rightarrow> Buffer list \<Rightarrow> Buffer list" where
  "resize n bs = take n bs @ replicate (n - length bs) empty_buffer"

text \<open>
  The mapping loop over the buffer indices; a failure ends \<^verbatim>\<open>startupWebcam\<close>, whose result is that of
  \<^verbatim>\<open>fail\<close>.
\<close>

primrec map_buffers :: "('k, 'h) v4l2_if \<Rightarrow> nat list \<Rightarrow> Webcam \<Rightarrow> 'k \<Rightarrow> bool \<times> Webcam \<times> 'k" where
  "map_buffers K [] cam k = (True, cam, k)"
| "map_buffers K (i # is) cam k =
     (case querybuf K (fd cam) (word_of_nat i) k of
        (r, len, off, k1) \<Rightarrow>
          if r < 0 then map_prod id (Pair cam) (fail K ''VIDIOC_QUERYBUF'' k1)
          else
            (case v4l2_mmap K (unat len) (fd cam) off k1 of
               (p, k2) \<Rightarrow>
                 (let cam' = cam\<lparr>bufs := (bufs cam)[i := \<lparr>start = p, buflen = unat len\<rparr>]\<rparr>
                  in if p = MapFailed then map_prod id (Pair cam') (fail K ''mmap'' k2)
                     else
                       (case qbuf K (fd cam) (word_of_nat i) k2 of
                          (r', k3) \<Rightarrow>
                            if r' < 0 then map_prod id (Pair cam') (fail K ''VIDIOC_QBUF'' k3)
                            else map_buffers K is cam' k3))))"

definition start_stream :: "('k, 'h) v4l2_if \<Rightarrow> uint32 \<Rightarrow> Webcam \<Rightarrow> 'k \<Rightarrow> bool \<times> Webcam \<times> 'k" where
  "start_stream K bufferCount cam k =
     (case reqbufs K (fd cam) bufferCount k of
        (r, count, k1) \<Rightarrow>
          if r < 0 then map_prod id (Pair cam) (fail K ''VIDIOC_REQBUFS'' k1)
          else if count < 2 then (False, cam, v4l2_cerr K (''Too few buffers.'' @ newline) k1)
          else
            (case map_buffers K [0..<unat count] (cam\<lparr>bufs := resize (unat count) (bufs cam)\<rparr>) k1 of
               (ok, cam', k2) \<Rightarrow>
                 if \<not> ok then (False, cam', k2)
                 else
                   (case streamon K (fd cam') (v4l2_cout K (''queued_buffers='' @ print_u (length (bufs cam')) @ newline) k2) of
                      (r', k3) \<Rightarrow>
                        if r' < 0 then map_prod id (Pair cam') (fail K ''VIDIOC_STREAMON'' k3)
                        else (True, cam', v4l2_cout K (''stream=ON'' @ newline) k3))))"

definition startup_banner :: "string \<Rightarrow> uint32 \<Rightarrow> uint32 \<Rightarrow> uint32 \<Rightarrow> uint32 \<Rightarrow> string" where
  "startup_banner dev w h pixfmt_fourcc bufferCount =
     newline @ ''=== startupWebcam ==='' @ newline @
     ''device='' @ dev @ '' width='' @ print_u (unat w) @ '' height='' @ print_u (unat h) @
     '' request_pixfmt='' @ (if pixfmt_fourcc \<noteq> 0 then fourcc_to_str pixfmt_fourcc else ''auto'') @
     '' buffers='' @ print_u (unat bufferCount) @ newline"

definition format_line :: "pix_format \<Rightarrow> string" where
  "format_line f = ''active_format: '' @ print_u (unat (pixWidth f)) @ ''x'' @ print_u (unat (pixHeight f)) @
     '' fourcc='' @ fourcc_to_str (pixelformat f) @ newline"

definition startupWebcam ::
  "('k, 'h) v4l2_if \<Rightarrow> string \<Rightarrow> uint32 \<Rightarrow> uint32 \<Rightarrow> uint32 \<Rightarrow> uint32 \<Rightarrow> Webcam \<Rightarrow> 'k \<Rightarrow> bool \<times> Webcam \<times> 'k" where
  "startupWebcam K dev w h pixfmt_fourcc bufferCount cam k =
     (case v4l2_open K dev (v4l2_cout K (startup_banner dev w h pixfmt_fourcc bufferCount) k) of
        (d, k1) \<Rightarrow>
          (let cam1 = cam\<lparr>fd := d\<rparr>
           in if d < 0 then map_prod id (Pair cam1) (fail K ''open'' k1)
              else
                (case g_fmt K d zero_format k1 of
                   (r, f, k2) \<Rightarrow>
                     if r < 0 then map_prod id (Pair (cam1\<lparr>fmt := f\<rparr>)) (fail K ''VIDIOC_G_FMT'' k2)
                     else
                       (let f1 = f\<lparr>pixWidth := w, pixHeight := h\<rparr>;
                            f2 = (if pixfmt_fourcc \<noteq> 0 then f1\<lparr>pixelformat := pixfmt_fourcc\<rparr> else f1)
                        in case s_fmt K d f2 k2 of
                             (r', f3, k3) \<Rightarrow>
                               start_stream K bufferCount (cam1\<lparr>fmt := f3\<rparr>) (v4l2_cout K (format_line f3) k3)))))"

section \<open>shutdownWebcam\<close>

definition unmap_buffer :: "('k, 'h) v4l2_if \<Rightarrow> Buffer \<Rightarrow> 'k \<Rightarrow> 'k" where
  "unmap_buffer K b k = (if start b \<noteq> Null \<and> buflen b \<noteq> 0 then v4l2_munmap K (start b) (buflen b) k else k)"

definition shutdownWebcam :: "('k, 'h) v4l2_if \<Rightarrow> Webcam \<Rightarrow> 'k \<Rightarrow> bool \<times> Webcam \<times> 'k" where
  "shutdownWebcam K cam k =
     (let k0 = v4l2_cout K (newline @ ''=== shutdownWebcam ==='' @ newline) k
      in if fd cam < 0 then (True, cam, v4l2_cout K (''already closed'' @ newline) k0)
         else
           (let k1 = snd (streamoff K (fd cam) k0);
                k2 = fold (unmap_buffer K) (bufs cam) k1;
                k3 = v4l2_close K (fd cam) k2
            in (True, cam\<lparr>bufs := [], fd := - 1\<rparr>, v4l2_cout K (''stream=OFF, unmapped buffers, closed'' @ newline) k3)))"

section \<open>takeSnapshot\<close>

definition ascii :: "string \<Rightarrow> uint8 list" where
  "ascii s = map (\<lambda>c. word_of_nat (of_char c)) s"

definition ppm_header :: "int \<Rightarrow> int \<Rightarrow> uint8 list" where
  "ppm_header w h = ascii (''P6'' @ newline @ print_d w @ '' '' @ print_d h @ newline @ ''255'' @ newline)"

text \<open>\<^verbatim>\<open>cam.bufs[index].start\<close>: the content of the buffer's mapping.\<close>

definition frame_data :: "('k, 'h) v4l2_if \<Rightarrow> Webcam \<Rightarrow> nat \<Rightarrow> 'k \<Rightarrow> uint8 list cxx" where
  "frame_data K cam index k = (if index < length (bufs cam) then Some (v4l2_read K (start (bufs cam ! index)) k) else None)"

definition save_jpeg :: "('k, 'h) v4l2_if \<Rightarrow> string \<Rightarrow> Webcam \<Rightarrow> nat \<Rightarrow> nat \<Rightarrow> 'k \<Rightarrow> (bool \<times> 'k) cxx" where
  "save_jpeg K path cam index bytesused k =
     (case v4l2_fopen K path k of
        (None, k1) \<Rightarrow> Some (False, k1)
      | (Some h, k1) \<Rightarrow>
          (case memcpy_from (frame_data K cam index k1) bytesused of
             None \<Rightarrow> None
           | Some bs \<Rightarrow>
               Some (True, v4l2_cout K (''wrote JPEG'' @ newline) (v4l2_fclose K h (v4l2_fwrite K h bs k1)))))"

text \<open>
  \<^verbatim>\<open>W\<close> and \<^verbatim>\<open>H\<close> are the format's dimensions converted to \<^verbatim>\<open>int\<close>; creating a vector of negative size
  throws.
\<close>

definition save_ppm :: "('k, 'h) v4l2_if \<Rightarrow> string \<Rightarrow> Webcam \<Rightarrow> nat \<Rightarrow> 'k \<Rightarrow> (bool \<times> 'k) cxx" where
  "save_ppm K path cam index k =
     (let W = sint (pixWidth (fmt cam)); H = sint (pixHeight (fmt cam))
      in if \<not> int_ok (3 * W) \<or> \<not> int_ok (3 * W * H) \<or> 3 * W * H < 0 then None
         else
           (case frame_data K cam index k of
              None \<Rightarrow> None
            | Some data \<Rightarrow>
                (case yuyv_to_rgb data (replicate (nat (3 * W * H)) 0) W H of
                   None \<Rightarrow> None
                 | Some rgb \<Rightarrow>
                     (case v4l2_fopen K path k of
                        (None, k1) \<Rightarrow> Some (False, k1)
                      | (Some h, k1) \<Rightarrow>
                          Some (True, v4l2_cout K (''wrote PPM'' @ newline)
                            (v4l2_fclose K h (v4l2_fwrite K h rgb (v4l2_fwrite K h (ppm_header W H) k1))))))))"

definition save_frame :: "('k, 'h) v4l2_if \<Rightarrow> string \<Rightarrow> Webcam \<Rightarrow> nat \<Rightarrow> nat \<Rightarrow> 'k \<Rightarrow> (bool \<times> 'k) cxx" where
  "save_frame K path cam index bytesused k =
     (let fourcc = pixelformat (fmt cam)
      in if fourcc = PIX_FMT_MJPEG K \<or> fourcc = PIX_FMT_JPEG K then save_jpeg K path cam index bytesused k
         else if fourcc = PIX_FMT_YUYV K then save_ppm K path cam index k
         else Some (False, v4l2_cerr K (''unsupported FourCC'' @ newline) k))"

definition snapshot_banner :: "string \<Rightarrow> string" where
  "snapshot_banner path = newline @ ''=== takeSnapshot ==='' @ newline @ ''path='' @ path @ newline"

definition dequeued_line :: "Webcam \<Rightarrow> uint32 \<Rightarrow> uint32 \<Rightarrow> string" where
  "dequeued_line cam index bytesused =
     ''dequeued index='' @ print_u (unat index) @ '' bytes='' @ print_u (unat bytesused) @
     '' fourcc='' @ fourcc_to_str (pixelformat (fmt cam)) @
     '' size='' @ print_d (sint (pixWidth (fmt cam))) @ ''x'' @ print_d (sint (pixHeight (fmt cam))) @ newline"

definition requeued_line :: "uint32 \<Rightarrow> string" where
  "requeued_line index = ''requeued index='' @ print_u (unat index) @ newline"

definition takeSnapshot :: "('k, 'h) v4l2_if \<Rightarrow> string \<Rightarrow> Webcam \<Rightarrow> 'k \<Rightarrow> (bool \<times> 'k) cxx" where
  "takeSnapshot K path cam k =
     (let k0 = v4l2_cout K (snapshot_banner path) k
      in if fd cam < 0 then Some (False, k0)
         else
           (case dqbuf K (fd cam) k0 of
              (r, index, bytesused, k1) \<Rightarrow>
                if r < 0 then Some (fail K ''VIDIOC_DQBUF'' k1)
                else
                  (case save_frame K path cam (unat index) (unat bytesused) (v4l2_cout K (dequeued_line cam index bytesused) k1) of
                     None \<Rightarrow> None
                   | Some (ok, k2) \<Rightarrow>
                       Some (ok, v4l2_cout K (requeued_line index) (snd (qbuf K (fd cam) index k2))))))"

section \<open>getFramerate\<close>

text \<open>
  The new value of \<^verbatim>\<open>fps_out\<close>, unchanged on failure. Both operands convert to \<^verbatim>\<open>double\<close> exactly; the
  quotient is printed in the stream's default format.
\<close>

definition getFramerate :: "('k, 'h) v4l2_if \<Rightarrow> Webcam \<Rightarrow> rat \<Rightarrow> 'k \<Rightarrow> bool \<times> rat \<times> 'k" where
  "getFramerate K cam fps_out k =
     (let k0 = v4l2_cout K (newline @ ''=== getFramerate ==='' @ newline) k
      in if fd cam < 0 then (False, fps_out, k0)
         else
           (case g_parm K (fd cam) k0 of
              (r, num, den, k1) \<Rightarrow>
                if r < 0 then map_prod id (Pair fps_out) (fail K ''VIDIOC_G_PARM'' k1)
                else if num = 0 \<or> den = 0 then (False, fps_out, v4l2_cout K (''no timeperframe'' @ newline) k1)
                else
                  (let fps = fl (fl (of_int (uint den)) / fl (of_int (uint num)))
                   in (True, fps, v4l2_cout K (''fps='' @ print_g fps @ newline) k1))))"

section \<open>main\<close>

text \<open>
  The exit code; an error leaves without a shutdown. The variable that \<^verbatim>\<open>getFramerate\<close> fills is
  uninitialised, here \<open>0\<close>, and only printed when it was filled.
\<close>

definition main_banner :: "string \<Rightarrow> string" where
  "main_banner dev = ''=== main: webcam test ==='' @ newline @ ''device='' @ dev @ newline"

definition webcam_main :: "('k, 'h) v4l2_if \<Rightarrow> string list \<Rightarrow> 'k \<Rightarrow> (int \<times> 'k) cxx" where
  "webcam_main K argv k =
     (let dev = (if length argv > 1 then argv ! 1 else ''/dev/video0'')
      in case startupWebcam K dev 640 480 0 4 new_Webcam (v4l2_cout K (main_banner dev) k) of
           (ok, cam, k1) \<Rightarrow>
             if \<not> ok then Some (1, v4l2_cerr K (''Startup failed.'' @ newline) k1)
             else
               (case getFramerate K cam 0 k1 of
                  (ok', fps, k2) \<Rightarrow>
                    (let k3 = (if ok' then v4l2_cout K (''driver_fps='' @ print_g fps @ newline) k2 else k2);
                         out = (if pixelformat (fmt cam) = PIX_FMT_MJPEG K \<or> pixelformat (fmt cam) = PIX_FMT_JPEG K
                                then ''frame.jpg'' else ''frame.ppm'')
                     in case takeSnapshot K out cam k3 of
                          None \<Rightarrow> None
                        | Some (ok'', k4) \<Rightarrow> Some (0, snd (snd (shutdownWebcam K cam k4))))))"

end
