(* ===== verification/V4l2Properties.thy ===== *)
theory V4l2Properties
  imports V4l2Webcam
begin

text \<open>
  The properties of the V4L2 program: descriptors and mappings are balanced by a shutdown whatever
  happened at start-up, what a failed start leaves behind, the exact content of a snapshot file,
  the frame rate, and the printed format codes.
\<close>

section \<open>Resources\<close>

text \<open>
  What exists in the system: the descriptors of open devices and the mappings with their lengths.
  Opening and mapping add one, closing and unmapping (with the mapped length) remove it, failed calls
  and all other calls change neither. A mapping is never at the null address or at \<^verbatim>\<open>MAP_FAILED\<close>, and never
  empty.
\<close>

type_synonym resources = "int set \<times> (address \<rightharpoonup> nat)"

definition passive_laws :: "('k, 'h) v4l2_if \<Rightarrow> ('k \<Rightarrow> resources) \<Rightarrow> bool" where
  "passive_laws K obs \<longleftrightarrow>
     (\<forall>d f k. obs (snd (snd (g_fmt K d f k))) = obs k) \<and>
     (\<forall>d f k. obs (snd (snd (s_fmt K d f k))) = obs k) \<and>
     (\<forall>d n k. obs (snd (snd (reqbufs K d n k))) = obs k) \<and>
     (\<forall>d i k. obs (snd (snd (snd (querybuf K d i k)))) = obs k) \<and>
     (\<forall>d i k. obs (snd (qbuf K d i k)) = obs k) \<and>
     (\<forall>d k. obs (snd (snd (snd (dqbuf K d k)))) = obs k) \<and>
     (\<forall>d k. obs (snd (streamon K d k)) = obs k) \<and>
     (\<forall>d k. obs (snd (streamoff K d k)) = obs k) \<and>
     (\<forall>d k. obs (snd (snd (snd (g_parm K d k)))) = obs k) \<and>
     (\<forall>p k. obs (snd (v4l2_fopen K p k)) = obs k) \<and>
     (\<forall>h bs k. obs (v4l2_fwrite K h bs k) = obs k) \<and>
     (\<forall>h k. obs (v4l2_fclose K h k) = obs k) \<and>
     (\<forall>s k. obs (v4l2_cout K s k) = obs k) \<and>
     (\<forall>s k. obs (v4l2_cerr K s k) = obs k) \<and>
     (\<forall>s k. obs (v4l2_perror K s k) = obs k)"

definition kernel_laws :: "('k, 'h) v4l2_if \<Rightarrow> ('k \<Rightarrow> resources) \<Rightarrow> bool" where
  "kernel_laws K obs \<longleftrightarrow>
     passive_laws K obs \<and>
     (\<forall>k. snd (obs k) MapFailed = None) \<and>
     (\<forall>dev k d k'. v4l2_open K dev k = (d, k') \<longrightarrow>
        (if d < 0 then obs k' = obs k
         else d \<notin> fst (obs k) \<and> obs k' = (insert d (fst (obs k)), snd (obs k)))) \<and>
     (\<forall>d k. obs (v4l2_close K d k) = (fst (obs k) - {d}, snd (obs k))) \<and>
     (\<forall>l d off k p k'. v4l2_mmap K l d off k = (p, k') \<longrightarrow>
        p \<noteq> Null \<and>
        (if p = MapFailed then obs k' = obs k
         else snd (obs k) p = None \<and> 0 < l \<and> obs k' = (fst (obs k), (snd (obs k))(p \<mapsto> l)))) \<and>
     (\<forall>p l k. obs (v4l2_munmap K p l k) =
        (fst (obs k), if snd (obs k) p = Some l then (snd (obs k))(p := None) else snd (obs k)))"

lemma passive_obs:
  assumes "kernel_laws K obs"
  shows "g_fmt K d f k = (r, f', k') \<Longrightarrow> obs k' = obs k" "s_fmt K d f k = (r, f', k') \<Longrightarrow> obs k' = obs k"
    "reqbufs K d n k = (r, n', k') \<Longrightarrow> obs k' = obs k" "querybuf K d i k = (r, a, b, k') \<Longrightarrow> obs k' = obs k"
    "qbuf K d i k = (r, k') \<Longrightarrow> obs k' = obs k" "dqbuf K d k = (r, a, b, k') \<Longrightarrow> obs k' = obs k"
    "streamon K d k = (r, k') \<Longrightarrow> obs k' = obs k" "g_parm K d k = (r, a, b, k') \<Longrightarrow> obs k' = obs k"
    "v4l2_fopen K p k = (fh, k') \<Longrightarrow> obs k' = obs k" "obs (snd (streamoff K d k)) = obs k"
    "obs (v4l2_fwrite K h bs k) = obs k" "obs (v4l2_fclose K h k) = obs k" "obs (snd (qbuf K d i k)) = obs k"
    "obs (v4l2_cout K s k) = obs k" "obs (v4l2_cerr K s k) = obs k" "obs (v4l2_perror K s k) = obs k"
  using assms unfolding kernel_laws_def passive_laws_def by (metis snd_conv)+

lemma kernel_open:
  assumes "kernel_laws K obs" and "v4l2_open K dev k = (d, k')"
  shows "d < 0 \<Longrightarrow> obs k' = obs k"
    and "\<not> d < 0 \<Longrightarrow> d \<notin> fst (obs k) \<and> obs k' = (insert d (fst (obs k)), snd (obs k))"
proof -
  from assms have "if d < 0 then obs k' = obs k else d \<notin> fst (obs k) \<and> obs k' = (insert d (fst (obs k)), snd (obs k))"
    unfolding kernel_laws_def by blast
  then show "d < 0 \<Longrightarrow> obs k' = obs k"
    and "\<not> d < 0 \<Longrightarrow> d \<notin> fst (obs k) \<and> obs k' = (insert d (fst (obs k)), snd (obs k))" by simp_all
qed

lemma kernel_mmap:
  assumes "kernel_laws K obs" and "v4l2_mmap K l d off k = (p, k')"
  shows "p \<noteq> Null" and "p = MapFailed \<Longrightarrow> obs k' = obs k"
    and "p \<noteq> MapFailed \<Longrightarrow> snd (obs k) p = None \<and> 0 < l \<and> obs k' = (fst (obs k), (snd (obs k))(p \<mapsto> l))"
proof -
  from assms have "p \<noteq> Null \<and> (if p = MapFailed then obs k' = obs k
      else snd (obs k) p = None \<and> 0 < l \<and> obs k' = (fst (obs k), (snd (obs k))(p \<mapsto> l)))"
    unfolding kernel_laws_def by blast
  then show "p \<noteq> Null" and "p = MapFailed \<Longrightarrow> obs k' = obs k"
    and "p \<noteq> MapFailed \<Longrightarrow> snd (obs k) p = None \<and> 0 < l \<and> obs k' = (fst (obs k), (snd (obs k))(p \<mapsto> l))" by simp_all
qed

section \<open>What a camera holds\<close>

definition held :: "Webcam \<Rightarrow> (address \<times> nat) set" where
  "held cam = {(start b, buflen b) | b. b \<in> set (bufs cam) \<and> start b \<noteq> Null \<and> start b \<noteq> MapFailed}"

lemma held_list:
  "held cam = set (map (\<lambda>b. (start b, buflen b)) (filter (\<lambda>b. start b \<noteq> Null \<and> start b \<noteq> MapFailed) (bufs cam)))"
  by (auto simp: held_def)

text \<open>Relative to the resources \<open>R\<close> before the start, exactly those the camera names were added.\<close>

definition accounts :: "resources \<Rightarrow> Webcam \<Rightarrow> resources \<Rightarrow> bool" where
  "accounts R cam R' \<longleftrightarrow>
     (if fd cam < 0 then fst R' = fst R \<and> held cam = {} else fd cam \<notin> fst R \<and> fst R' = insert (fd cam) (fst R))
     \<and> (\<forall>p l. snd R' p = Some l \<longleftrightarrow> snd R p = Some l \<or> (p, l) \<in> held cam)
     \<and> (\<forall>(p, l) \<in> held cam. snd R p = None \<and> 0 < l)"

lemma held_update:
  assumes "i < length (bufs cam)" and "start (bufs cam ! i) = Null"
  shows "held (cam\<lparr>bufs := (bufs cam)[i := b]\<rparr>) =
    held cam \<union> (if start b \<noteq> Null \<and> start b \<noteq> MapFailed then {(start b, buflen b)} else {})"
proof -
  let ?real = "\<lambda>c. start c \<noteq> Null \<and> start c \<noteq> MapFailed"
  have "c \<in> set ((bufs cam)[i := b]) \<longleftrightarrow> c = b \<or> c \<in> set (bufs cam)" if "?real c \<or> c = b" for c
  proof -
    have "c \<in> set ((bufs cam)[i := b])" if "c \<in> set (bufs cam)" "?real c"
    proof -
      from that(1) obtain j where j: "j < length (bufs cam)" "bufs cam ! j = c" by (auto simp: in_set_conv_nth)
      with assms(2) that(2) have "(bufs cam)[i := b] ! j = c" by (cases "i = j") auto
      with j(1) show ?thesis by (metis length_list_update nth_mem)
    qed
    moreover have "b \<in> set ((bufs cam)[i := b])" using assms(1) by (rule set_update_memI)
    ultimately show ?thesis using that set_update_subset_insert [of "bufs cam" i b] by blast
  qed
  then show ?thesis unfolding held_def by auto
qed

lemma accounts_map:
  assumes "accounts R cam R'" and "\<not> fd cam < 0" and "i < length (bufs cam)" and "start (bufs cam ! i) = Null"
    and "snd R' p = None" and "0 < l" and "p \<noteq> Null" and "p \<noteq> MapFailed"
  shows "accounts R (cam\<lparr>bufs := (bufs cam)[i := \<lparr>start = p, buflen = l\<rparr>]\<rparr>) (fst R', (snd R')(p \<mapsto> l))"
proof -
  have iff: "snd R' q = Some m \<longleftrightarrow> snd R q = Some m \<or> (q, m) \<in> held cam" for q m
    using assms(1) by (simp add: accounts_def)
  have free: "snd R p = None" "(p, m) \<notin> held cam" for m
    using iff [of p] assms(5) by (cases "snd R p", auto)
  show ?thesis
    using assms free by (auto simp: accounts_def held_update)
qed

lemma accounts_failed:
  assumes "accounts R cam R'" and "\<not> fd cam < 0" and "i < length (bufs cam)" and "start (bufs cam ! i) = Null"
  shows "accounts R (cam\<lparr>bufs := (bufs cam)[i := \<lparr>start = MapFailed, buflen = l\<rparr>]\<rparr>) R'"
  using assms by (auto simp: accounts_def held_update)

text \<open>The mapping loop keeps the account, whether it succeeds or not.\<close>

lemma map_buffers_accounts:
  assumes "kernel_laws K obs" and "accounts R cam (obs k)" and "\<not> fd cam < 0" and "distinct is"
    and "\<forall>i \<in> set is. i < length (bufs cam) \<and> start (bufs cam ! i) = Null"
    and "map_buffers K is cam k = (ok, cam', k')"
  shows "accounts R cam' (obs k') \<and> fd cam' = fd cam \<and> length (bufs cam') = length (bufs cam)"
  using assms(2-)
proof (induction "is" arbitrary: cam k)
  case Nil
  then show ?case by simp
next
  case (Cons i "is")
  obtain r len off k1 where q: "querybuf K (fd cam) (word_of_nat i) k = (r, len, off, k1)"
    by (cases "querybuf K (fd cam) (word_of_nat i) k") auto
  obtain p k2 where mm: "v4l2_mmap K (unat len) (fd cam) off k1 = (p, k2)"
    by (cases "v4l2_mmap K (unat len) (fd cam) off k1")
  obtain r' k3 where qb: "qbuf K (fd cam) (word_of_nat i) k2 = (r', k3)"
    by (cases "qbuf K (fd cam) (word_of_nat i) k2")
  note o1 = passive_obs(4) [OF assms(1) q] and o3 = passive_obs(5) [OF assms(1) qb] and mmap = kernel_mmap [OF assms(1) mm]
  let ?cam = "cam\<lparr>bufs := (bufs cam)[i := \<lparr>start = p, buflen = unat len\<rparr>]\<rparr>"
  have i: "i < length (bufs cam)" "start (bufs cam ! i) = Null" using Cons.prems(4) by simp_all
  have acc: "accounts R cam (obs k1)" using Cons.prems(1) o1 by simp
  have acc2: "accounts R ?cam (obs k2)"
  proof (cases "p = MapFailed")
    case True
    with accounts_failed [OF acc Cons.prems(2) i] mmap(2) show ?thesis by simp
  next
    case False
    with accounts_map [OF acc Cons.prems(2) i] mmap(1,3) show ?thesis by simp
  qed
  have rest: "\<forall>j \<in> set is. j < length (bufs ?cam) \<and> start (bufs ?cam ! j) = Null"
    using Cons.prems(3,4) by (auto simp: nth_list_update)
  show ?case
  proof (cases "r < 0 \<or> p = MapFailed \<or> r' < 0")
    case True
    then show ?thesis
      using Cons.prems(5) q mm qb acc acc2 o3 by (auto simp: Let_def passive_obs(16) [OF assms(1)] split: if_splits)
  next
    case False
    then have "map_buffers K is ?cam k3 = (ok, cam', k')" using Cons.prems(5) q mm qb by (simp add: Let_def)
    from Cons.IH [OF _ _ _ rest this] acc2 o3 Cons.prems(2,3) show ?thesis by simp
  qed
qed

lemma held_resize: "bufs cam = [] \<Longrightarrow> held (cam\<lparr>bufs := resize n (bufs cam)\<rparr>) = {}"
  by (auto simp: held_def resize_def empty_buffer_def)

lemma start_stream_accounts:
  assumes "kernel_laws K obs" and "accounts R cam (obs k)" and "\<not> fd cam < 0" and "bufs cam = []"
    and "start_stream K n cam k = (ok, cam', k')"
  shows "accounts R cam' (obs k') \<and> fd cam' = fd cam \<and> (ok \<longrightarrow> 2 \<le> length (bufs cam'))"
proof -
  obtain r c k1 where rq: "reqbufs K (fd cam) n k = (r, c, k1)" by (cases "reqbufs K (fd cam) n k") auto
  let ?cam = "cam\<lparr>bufs := resize (unat c) (bufs cam)\<rparr>"
  obtain b cam2 k2 where mb: "map_buffers K [0..<unat c] ?cam k1 = (b, cam2, k2)"
    by (cases "map_buffers K [0..<unat c] ?cam k1") auto
  let ?k2 = "v4l2_cout K (''queued_buffers='' @ print_u (length (bufs cam2)) @ newline) k2"
  obtain r' k3 where so: "streamon K (fd cam2) ?k2 = (r', k3)" by (cases "streamon K (fd cam2) ?k2")
  note o1 = passive_obs(3) [OF assms(1) rq] and o3 = passive_obs(7) [OF assms(1) so]
  have "held cam = {}" using assms(4) by (simp add: held_def)
  then have acc: "accounts R ?cam (obs k1)" using assms(2,3) o1 held_resize [OF assms(4)] by (simp add: accounts_def)
  have null: "\<forall>i \<in> set [0..<unat c]. i < length (bufs ?cam) \<and> start (bufs ?cam ! i) = Null"
    using assms(4) by (simp add: resize_def empty_buffer_def)
  have two: "2 \<le> unat c" if "\<not> c < 2" using that by (simp add: word_less_nat_alt)
  have mbs: "accounts R cam2 (obs k2) \<and> fd cam2 = fd cam \<and> length (bufs cam2) = unat c"
    using map_buffers_accounts [OF assms(1) acc _ _ null mb] assms(3,4) by (simp add: resize_def)
  show ?thesis
    using assms(2,5) rq mb so o1 o3 mbs two by (auto simp: start_stream_def passive_obs(14-16) [OF assms(1)] split: if_splits)
qed

lemma startup_accounts:
  assumes "kernel_laws K obs" and "startupWebcam K dev w h pf n new_Webcam k = (ok, cam, k')"
  shows "accounts (obs k) cam (obs k') \<and> (ok \<longrightarrow> 0 \<le> fd cam \<and> 2 \<le> length (bufs cam))"
proof -
  let ?k0 = "v4l2_cout K (startup_banner dev w h pf n) k"
  obtain d k1 where op: "v4l2_open K dev ?k0 = (d, k1)" by (cases "v4l2_open K dev ?k0")
  obtain r f k2 where g: "g_fmt K d zero_format k1 = (r, f, k2)" by (cases "g_fmt K d zero_format k1") auto
  define f2 where "f2 = (let f1 = f\<lparr>pixWidth := w, pixHeight := h\<rparr> in if pf \<noteq> 0 then f1\<lparr>pixelformat := pf\<rparr> else f1)"
  obtain r' f3 k3 where s: "s_fmt K d f2 k2 = (r', f3, k3)" by (cases "s_fmt K d f2 k2") auto
  let ?cam = "new_Webcam\<lparr>fd := d, fmt := f3\<rparr>"
  note con = passive_obs(14-16) [OF assms(1)]
  note kop = kernel_open [OF assms(1) op, unfolded con] and og = passive_obs(1) [OF assms(1) g] and os = passive_obs(2) [OF assms(1) s]
  have none: "held (new_Webcam\<lparr>fd := d, fmt := x\<rparr>) = {}" "held (new_Webcam\<lparr>fd := d\<rparr>) = {}" for x
    by (simp_all add: held_def new_Webcam_def)
  consider "d < 0" | "\<not> d < 0" "r < 0" | "\<not> d < 0" "\<not> r < 0" by blast
  then show ?thesis
  proof cases
    case 1
    with assms(2) op kop(1) none show ?thesis by (auto simp: startupWebcam_def Let_def accounts_def con)
  next
    case 2
    then have r: "ok = False" "cam = new_Webcam\<lparr>fd := d, fmt := f\<rparr>" "k' = v4l2_perror K ''VIDIOC_G_FMT'' k2"
      using assms(2) op g by (simp_all add: startupWebcam_def Let_def)
    have "accounts (obs k) (new_Webcam\<lparr>fd := d, fmt := f\<rparr>) (obs k2)"
      using 2 kop(2) og none by (simp add: accounts_def)
    with r show ?thesis by (simp add: con)
  next
    case 3
    let ?k4 = "v4l2_cout K (format_line f3) k3"
    have "startupWebcam K dev w h pf n new_Webcam k = start_stream K n ?cam ?k4"
      using 3 op g s unfolding startupWebcam_def f2_def Let_def by simp
    with assms(2) have st: "start_stream K n ?cam ?k4 = (ok, cam, k')" by simp
    have "accounts (obs k) ?cam (obs ?k4)"
      using 3 kop(2) og os none by (simp add: accounts_def con)
    from start_stream_accounts [OF assms(1) this _ _ st] 3 show ?thesis by (auto simp: new_Webcam_def)
  qed
qed

text \<open>Unmapping the buffers of a camera removes exactly what it holds.\<close>

lemma unmap_buffers_obs:
  assumes "kernel_laws K obs"
  shows "fst (obs (fold (unmap_buffer K) bs k)) = fst (obs k)
    \<and> snd (obs (fold (unmap_buffer K) bs k)) p =
      (if \<exists>b \<in> set bs. start b = p \<and> p \<noteq> Null \<and> buflen b \<noteq> 0 \<and> snd (obs k) p = Some (buflen b) then None else snd (obs k) p)"
proof (induction bs arbitrary: k)
  case (Cons b bs)
  have "obs (unmap_buffer K b k) =
      (fst (obs k), if start b \<noteq> Null \<and> buflen b \<noteq> 0 \<and> snd (obs k) (start b) = Some (buflen b)
        then (snd (obs k))(start b := None) else snd (obs k))"
    using assms by (simp add: unmap_buffer_def kernel_laws_def)
  with Cons.IH [of "unmap_buffer K b k"] show ?case by auto
qed simp

lemma shutdown_releases:
  assumes "kernel_laws K obs" and "accounts R cam (obs k)" and "shutdownWebcam K cam k = (r, cam', k')"
  shows "r \<and> obs k' = R \<and> fd cam' < 0"
proof (cases "fd cam < 0")
  case True
  with assms(2) have e: "snd (obs k) p = Some l \<longleftrightarrow> snd R p = Some l" for p l by (auto simp: accounts_def)
  have "snd (obs k) p = snd R p" for p by (metis e not_None_eq)
  with True assms(2,3) show ?thesis
    by (auto simp: shutdownWebcam_def Let_def accounts_def prod_eq_iff passive_obs(14) [OF assms(1)])
next
  case False
  let ?k0 = "v4l2_cout K (newline @ ''=== shutdownWebcam ==='' @ newline) k"
  let ?k1 = "snd (streamoff K (fd cam) ?k0)"
  let ?k2 = "fold (unmap_buffer K) (bufs cam) ?k1"
  have o1: "obs ?k1 = obs k" by (simp only: passive_obs(10,14) [OF assms(1)])
  note un = unmap_buffers_obs [OF assms(1), of "bufs cam" ?k1]
  have R: "fd cam \<notin> fst R" "fst (obs k) = insert (fd cam) (fst R)"
    and iff: "\<And>p l. snd (obs k) p = Some l \<longleftrightarrow> snd R p = Some l \<or> (p, l) \<in> held cam"
    and new: "\<And>p l. (p, l) \<in> held cam \<Longrightarrow> snd R p = None \<and> 0 < l"
    using assms(2) False by (auto simp: accounts_def)
  have maps: "snd (obs ?k2) p = snd R p" for p
  proof (cases "\<exists>b \<in> set (bufs cam). start b = p \<and> p \<noteq> Null \<and> buflen b \<noteq> 0 \<and> snd (obs k) p = Some (buflen b)")
    case True
    then obtain b where b: "b \<in> set (bufs cam)" "start b = p" "p \<noteq> Null" "snd (obs k) p = Some (buflen b)" by blast
    moreover have "p \<noteq> MapFailed" using b(4) assms(1) by (auto simp: kernel_laws_def)
    ultimately have "(p, buflen b) \<in> held cam" by (auto simp: held_def)
    with new True un o1 show ?thesis by auto
  next
    case False
    have nh: "(p, l) \<notin> held cam" for l
    proof
      assume "(p, l) \<in> held cam"
      with False iff [of p l] new [of p l] show False by (auto simp: held_def)
    qed
    have "snd (obs k) p = snd R p" by (metis iff nh not_None_eq)
    moreover have "snd (obs ?k2) p = snd (obs k) p" using un [of p] o1 False by (simp only: if_False)
    ultimately show ?thesis by simp
  qed
  have k': "k' = v4l2_cout K (''stream=OFF, unmapped buffers, closed'' @ newline) (v4l2_close K (fd cam) ?k2)"
    and "r" "fd cam' < 0"
    using assms(3) False by (auto simp: shutdownWebcam_def Let_def)
  moreover have "obs (v4l2_close K (fd cam) ?k2) = (fst (obs ?k2) - {fd cam}, snd (obs ?k2))"
    using assms(1) by (simp add: kernel_laws_def)
  ultimately show ?thesis
    using un o1 R maps unfolding k' passive_obs(14) [OF assms(1)] by (auto simp: prod_eq_iff)
qed

section \<open>A sample kernel\<close>

text \<open>
  The state is the open descriptors, the mappings, the number of the next one, and how many buffers
  can still be mapped. Frames are \<open>2 \<times> 1\<close> grey pixels.
\<close>

record sample_kernel =
  sk_fds :: "int set"
  sk_maps :: "address \<rightharpoonup> nat"
  sk_next :: nat
  sk_room :: nat
  sk_file :: "uint8 list"
  sk_out :: string
  sk_err :: string

definition sample_v4l2 :: "(sample_kernel, unit) v4l2_if" where
  "sample_v4l2 =
     \<lparr> PIX_FMT_MJPEG = 1, PIX_FMT_JPEG = 2, PIX_FMT_YUYV = 3,
       v4l2_open = (\<lambda>dev k. if 3 \<in> sk_fds k then (- 1, k) else (3, k\<lparr>sk_fds := insert 3 (sk_fds k)\<rparr>)),
       v4l2_close = (\<lambda>d k. k\<lparr>sk_fds := sk_fds k - {d}\<rparr>),
       g_fmt = (\<lambda>d f k. (0, f\<lparr>pixelformat := 3\<rparr>, k)), s_fmt = (\<lambda>d f k. (0, f\<lparr>pixWidth := 2, pixHeight := 1\<rparr>, k)),
       reqbufs = (\<lambda>d n k. (0, 2, k)), querybuf = (\<lambda>d i k. (0, 4, i, k)),
       qbuf = (\<lambda>d i k. (0, k)), dqbuf = (\<lambda>d k. (0, 0, 4, k)), streamon = (\<lambda>d k. (0, k)), streamoff = (\<lambda>d k. (0, k)),
       g_parm = (\<lambda>d k. (0, 1, 30, k)),
       v4l2_mmap = (\<lambda>l d off k.
          if sk_room k = 0 \<or> l = 0 \<or> sk_maps k (Mapping (sk_next k)) \<noteq> None then (MapFailed, k)
          else (Mapping (sk_next k),
                k\<lparr>sk_maps := (sk_maps k)(Mapping (sk_next k) \<mapsto> l), sk_next := Suc (sk_next k), sk_room := sk_room k - 1\<rparr>)),
       v4l2_munmap = (\<lambda>p l k. if sk_maps k p = Some l then k\<lparr>sk_maps := (sk_maps k)(p := None)\<rparr> else k),
       v4l2_read = (\<lambda>p k. [16, 128, 235, 128]),
       v4l2_fopen = (\<lambda>p k. (Some (), k\<lparr>sk_file := []\<rparr>)), v4l2_fwrite = (\<lambda>h bs k. k\<lparr>sk_file := sk_file k @ bs\<rparr>),
       v4l2_fclose = (\<lambda>h k. k), v4l2_cout = (\<lambda>s k. k\<lparr>sk_out := sk_out k @ s\<rparr>),
       v4l2_cerr = (\<lambda>s k. k\<lparr>sk_err := sk_err k @ s\<rparr>),
       v4l2_perror = (\<lambda>s k. k\<lparr>sk_err := sk_err k @ s @ '': error'' @ newline\<rparr>) \<rparr>"

definition sample_obs :: "sample_kernel \<Rightarrow> resources" where
  "sample_obs k = (sk_fds k, (sk_maps k)(MapFailed := None))"

lemma sample_kernel_laws: "kernel_laws sample_v4l2 sample_obs"
  by (auto simp: kernel_laws_def passive_laws_def sample_v4l2_def sample_obs_def split: if_splits)

text \<open>A kernel state with nothing open and room for \<open>n\<close> mappings.\<close>

definition sample_state :: "nat \<Rightarrow> sample_kernel" where
  "sample_state n = \<lparr>sk_fds = {0, 1, 2}, sk_maps = Map.empty, sk_next = 0, sk_room = n, sk_file = [], sk_out = [], sk_err = []\<rparr>"

lemma getFramerate_obs: "kernel_laws K obs \<Longrightarrow> getFramerate K cam x k = (ok, y, k') \<Longrightarrow> obs k' = obs k"
  by (auto simp: getFramerate_def Let_def passive_obs split: if_splits prod.splits)

lemma save_frame_obs: "kernel_laws K obs \<Longrightarrow> save_frame K path cam i n k = Some (ok, k') \<Longrightarrow> obs k' = obs k"
  by (auto simp: save_frame_def save_jpeg_def save_ppm_def Let_def passive_obs
      split: if_splits option.splits prod.splits)

lemma takeSnapshot_obs:
  assumes "kernel_laws K obs" and "takeSnapshot K path cam k = Some (ok, k')"
  shows "obs k' = obs k"
proof -
  let ?k0 = "v4l2_cout K (snapshot_banner path) k"
  obtain r i n k1 where dq: "dqbuf K (fd cam) ?k0 = (r, i, n, k1)" by (cases "dqbuf K (fd cam) ?k0") auto
  note con = passive_obs(14-16) [OF assms(1)]
  have o1: "obs k1 = obs k" using passive_obs(6) [OF assms(1) dq] by (simp add: con)
  consider "k' = ?k0" | "k' = v4l2_perror K ''VIDIOC_DQBUF'' k1"
    | b k2 where "save_frame K path cam (unat i) (unat n) (v4l2_cout K (dequeued_line cam i n) k1) = Some (b, k2)"
        "k' = v4l2_cout K (requeued_line i) (snd (qbuf K (fd cam) i k2))"
    using assms(2) dq by (auto simp: takeSnapshot_def Let_def split: if_splits option.splits)
  then show ?thesis
  proof cases
    case 3
    from save_frame_obs [OF assms(1) 3(1)] o1 show ?thesis by (simp add: 3(2) con passive_obs(13) [OF assms(1)])
  qed (simp_all add: o1 con)
qed

section \<open>Properties\<close>


text \<open>Two starts of the sample: with room for two buffers, and with room for one only.\<close>

lemma two_buffers: "[0..<2] = [0, 1 :: nat]" "replicate 2 x = [x, x]"
  by (simp_all add: upt_rec numeral_2_eq_2)

lemmas sample_run = two_buffers startupWebcam_def start_stream_def sample_v4l2_def sample_state_def new_Webcam_def zero_format_def
  resize_def empty_buffer_def Let_def

lemma sample_start_fails:
  "\<exists>cam k1. startupWebcam sample_v4l2 ''/dev/video0'' 640 480 0 4 new_Webcam (v4l2_cout sample_v4l2 s (sample_state 1)) = (False, cam, k1)
     \<and> fd cam = 3 \<and> (Mapping 0, 4) \<in> held cam"
  by (simp add: sample_run held_list del: set_map set_filter)

lemma sample_start_succeeds:
  "\<exists>cam k1. startupWebcam sample_v4l2 ''/dev/video0'' 640 480 0 4 new_Webcam (sample_state 2) = (True, cam, k1)
     \<and> fd cam = 3 \<and> held cam = {(Mapping 0, 4), (Mapping 1, 4)}"
  by (simp add: sample_run held_list del: set_map set_filter)


text \<open>
  C30. A failed start leaks: if \<^verbatim>\<open>startupWebcam\<close> fails after the device was opened, the descriptor
  stays open, and the main program leaves with exit code 1 without closing it or unmapping the buffers
  mapped so far; when the start succeeds and the snapshot returns, the main program releases
  everything and exits with 0.
\<close>

theorem main_releases_only_on_success:
  assumes "kernel_laws K obs" and "dev = (if 1 < length argv then argv ! 1 else ''/dev/video0'')"
    and "startupWebcam K dev 640 480 0 4 new_Webcam (v4l2_cout K (main_banner dev) k) = (ok, cam, k1)"
    and "webcam_main K argv k = Some (code, k')"
  shows "(ok \<longrightarrow> code = 0 \<and> obs k' = obs k)
    \<and> (\<not> ok \<longrightarrow> code = 1 \<and> (0 \<le> fd cam \<longrightarrow> fd cam \<in> fst (obs k') \<and> fd cam \<notin> fst (obs k))
        \<and> (\<forall>(p, l) \<in> held cam. snd (obs k') p = Some l \<and> snd (obs k) p = None))"
proof -
  note con = passive_obs(14-16) [OF assms(1)]
  have acc: "accounts (obs k) cam (obs k1)" using startup_accounts [OF assms(1,3)] by (simp add: con)
  show ?thesis
  proof (cases ok)
    case True
    obtain b fps k2 where gf: "getFramerate K cam 0 k1 = (b, fps, k2)" by (cases "getFramerate K cam 0 k1") auto
    let ?k2 = "if b then v4l2_cout K (''driver_fps='' @ print_g fps @ newline) k2 else k2"
    from True assms(2-4) gf obtain path b' k3 where ts: "takeSnapshot K path cam ?k2 = Some (b', k3)"
      and m: "code = 0" "k' = snd (snd (shutdownWebcam K cam k3))"
      unfolding webcam_main_def Let_def by (auto split: option.splits)
    have "accounts (obs k) cam (obs k3)"
      using acc getFramerate_obs [OF assms(1) gf] takeSnapshot_obs [OF assms(1) ts] by (simp add: con split: if_splits)
    from shutdown_releases [OF assms(1) this, of "fst (shutdownWebcam K cam k3)"] True m show ?thesis
      by (metis prod.collapse)
  next
    case False
    with assms(2-4) have "code = 1" "obs k' = obs k1" by (auto simp: webcam_main_def Let_def con)
    with False acc show ?thesis by (auto simp: accounts_def)
  qed
qed

theorem main_releases_only_on_success_witness:
  "\<exists>k'. webcam_main sample_v4l2 [''webcam_test''] (sample_state 1) = Some (1, k')
     \<and> 3 \<in> fst (sample_obs k') \<and> snd (sample_obs k') (Mapping 0) = Some 4"
proof -
  let ?k0 = "v4l2_cout sample_v4l2 (main_banner ''/dev/video0'') (sample_state 1)"
  obtain cam k1 where s: "startupWebcam sample_v4l2 ''/dev/video0'' 640 480 0 4 new_Webcam ?k0 = (False, cam, k1)"
    "fd cam = 3" "(Mapping 0, 4) \<in> held cam" using sample_start_fails by blast
  then obtain k' where m: "webcam_main sample_v4l2 [''webcam_test''] (sample_state 1) = Some (1, k')"
    by (simp add: webcam_main_def Let_def)
  have "''/dev/video0'' = (if 1 < length [''webcam_test''] then [''webcam_test''] ! 1 else ''/dev/video0'')" by simp
  from main_releases_only_on_success [OF sample_kernel_laws this s(1) m] s m show ?thesis by auto
qed

section \<open>Snapshots\<close>

text \<open>
  C14. A YUYV snapshot is complete and exact: with a frame of \<open>w \<times> h\<close> pixels, an even number of them,
  and a file that opens, \<^verbatim>\<open>takeSnapshot\<close> writes the PPM header and then the colours of all pixels in
  order, closes the file, gives the buffer it took back to the driver and reports success.
\<close>

theorem snapshot_writes_ppm:
  assumes "\<not> fd cam < 0" and "dqbuf K (fd cam) (v4l2_cout K (snapshot_banner path) k) = (0, index, n, k0)"
    and "k1 = v4l2_cout K (dequeued_line cam index n) k0"
    and "pixelformat (fmt cam) = PIX_FMT_YUYV K" and "PIX_FMT_YUYV K \<noteq> PIX_FMT_MJPEG K" and "PIX_FMT_YUYV K \<noteq> PIX_FMT_JPEG K"
    and "unat index < length (bufs cam)"
    and "sint (pixWidth (fmt cam)) = int w" and "sint (pixHeight (fmt cam)) = int h" and "even (w * h)"
    and "3 * int w < 2 ^ 31" and "3 * int w * int h < 2 ^ 31"
    and "data = v4l2_read K (start (bufs cam ! unat index)) k1" and "2 * (w * h) \<le> length data"
    and "v4l2_fopen K path k1 = (Some f, k2)"
  shows "takeSnapshot K path cam k =
    Some (True, v4l2_cout K (requeued_line index) (snd (qbuf K (fd cam) index
      (v4l2_cout K (''wrote PPM'' @ newline)
        (v4l2_fclose K f (v4l2_fwrite K f (concat (map (rgb_pixel data) [0..<w * h]))
          (v4l2_fwrite K f (ppm_header (int w) (int h)) k2)))))))"
proof -
  have nn: "0 \<le> 3 * int w * int h" by simp
  have ok: "int_ok (3 * int w)" "int_ok (3 * int w * int h)" "\<not> 3 * int w * int h < 0"
    unfolding int_ok_def using assms(11,12) nn by linarith+
  have n: "nat (3 * int w * int h) = 3 * (w * h)" "\<not> int w * int h < 0" by (simp_all add: nat_mult_distrib not_less)
  have "yuyv_to_rgb data (replicate (3 * (w * h)) 0) (int w) (int h) =
      Some (concat (map (rgb_pixel data) [0..<w * h]) @ drop (3 * (w * h)) (replicate (3 * (w * h)) 0))"
    by (rule yuyv_to_rgb_even) (use assms(10,12,14) in simp_all)
  then have "save_ppm K path cam (unat index) k1 =
      Some (True, v4l2_cout K (''wrote PPM'' @ newline) (v4l2_fclose K f (v4l2_fwrite K f (concat (map (rgb_pixel data) [0..<w * h]))
        (v4l2_fwrite K f (ppm_header (int w) (int h)) k2))))"
    using assms(7,8,9,13,15) ok n by (simp add: save_ppm_def frame_data_def Let_def)
  with assms(1-6) show ?thesis by (simp add: takeSnapshot_def save_frame_def Let_def)
qed

theorem snapshot_writes_ppm_witness:
  "\<exists>k'. takeSnapshot sample_v4l2 ''frame.ppm''
     \<lparr>fd = 3, fmt = \<lparr>pixWidth = 2, pixHeight = 1, pixelformat = 3\<rparr>, bufs = [\<lparr>start = Mapping 0, buflen = 4\<rparr>]\<rparr> (sample_state 0) = Some (True, k')
   \<and> sk_file k' = ppm_header 2 1 @ concat (map (rgb_pixel [16, 128, 235, 128]) [0..<2])"
proof -
  let ?cam = "\<lparr>fd = 3, fmt = \<lparr>pixWidth = 2, pixHeight = 1, pixelformat = 3\<rparr>, bufs = [\<lparr>start = Mapping 0, buflen = 4\<rparr>]\<rparr> :: Webcam"
  let ?k0 = "v4l2_cout sample_v4l2 (snapshot_banner ''frame.ppm'') (sample_state 0)"
  let ?k1 = "v4l2_cout sample_v4l2 (dequeued_line ?cam 0 4) ?k0"
  have "takeSnapshot sample_v4l2 ''frame.ppm'' ?cam (sample_state 0) =
      Some (True, v4l2_cout sample_v4l2 (requeued_line 0) (snd (qbuf sample_v4l2 (fd ?cam) 0
        (v4l2_cout sample_v4l2 (''wrote PPM'' @ newline)
          (v4l2_fclose sample_v4l2 () (v4l2_fwrite sample_v4l2 () (concat (map (rgb_pixel [16, 128, 235, 128]) [0..<2 * 1]))
            (v4l2_fwrite sample_v4l2 () (ppm_header (int 2) (int 1)) (?k1\<lparr>sk_file := []\<rparr>))))))))"
    by (rule snapshot_writes_ppm [where n = 4 and ?k0.0 = ?k0 and ?k1.0 = ?k1])
      (simp_all add: sample_v4l2_def sample_state_def)
  then show ?thesis by (simp add: sample_v4l2_def)
qed

text \<open>
  An odd number of pixels is undefined behaviour: no YUYV snapshot of such a frame returns, whatever
  the driver delivered and before a file is opened.
\<close>

lemma snapshot_odd_frame_undefined:
  assumes "\<not> fd cam < 0" and "dqbuf K (fd cam) (v4l2_cout K (snapshot_banner path) k) = (0, index, n, k1)"
    and "pixelformat (fmt cam) = PIX_FMT_YUYV K" and "PIX_FMT_YUYV K \<noteq> PIX_FMT_MJPEG K" and "PIX_FMT_YUYV K \<noteq> PIX_FMT_JPEG K"
    and "sint (pixWidth (fmt cam)) = int w" and "sint (pixHeight (fmt cam)) = int h" and "odd (w * h)"
  shows "takeSnapshot K path cam k = None"
proof -
  have n: "nat (3 * int w * int h) = 3 * (w * h)" by (simp add: nat_mult_distrib)
  have "yuyv_to_rgb data (replicate (3 * (w * h)) 0) (int w) (int h) = None" for data
    by (rule yuyv_to_rgb_odd [of _ _ "w * h"]) (use assms(8) in simp_all)
  then have "save_ppm K path cam (unat index) k2 = None" for k2
    using assms(6,7) n by (auto simp: save_ppm_def Let_def split: option.splits)
  with assms(1-5) show ?thesis by (simp add: takeSnapshot_def save_frame_def Let_def)
qed

lemma snapshot_odd_frame_undefined_witness:
  "takeSnapshot sample_v4l2 ''frame.ppm''
     \<lparr>fd = 3, fmt = \<lparr>pixWidth = 3, pixHeight = 1, pixelformat = 3\<rparr>, bufs = [\<lparr>start = Mapping 0, buflen = 4\<rparr>]\<rparr> (sample_state 0) = None"
  by (rule snapshot_odd_frame_undefined [where index = 0 and n = 4 and w = 3 and h = 1
      and ?k1.0 = "v4l2_cout sample_v4l2 (snapshot_banner ''frame.ppm'') (sample_state 0)"])
    (simp_all add: sample_v4l2_def)

section \<open>Frame rate and format codes\<close>



text \<open>Reading a format code back from its four characters.\<close>

definition fourcc_of_str :: "string \<Rightarrow> uint32" where
  "fourcc_of_str s = foldr (\<lambda>c f. word_of_nat (of_char c) OR push_bit 8 f) s 0"

lemma fourcc_bytes_bound: "b \<in> set (fourcc_bytes f) \<Longrightarrow> b < 256"
proof -
  have "unat (w AND 0xFF :: uint32) < 256" for w
    using word_and_le1 [of w 255] by (simp add: word_le_nat_alt)
  then show "b \<in> set (fourcc_bytes f) \<Longrightarrow> b < 256" by (auto simp: fourcc_bytes_def)
qed

lemma and_255_take_bit: "w AND 255 = take_bit 8 (w :: uint32)"
  by (simp add: take_bit_eq_mask mask_eq_exp_minus_1)

lemma fourcc_bytes_compose: "foldr (\<lambda>b g. word_of_nat b OR push_bit 8 g) (fourcc_bytes f) 0 = f"
proof (rule bit_word_eqI)
  fix n
  assume "n < LENGTH(32)"
  then consider "n < 8" | "8 \<le> n" "n < 16" | "16 \<le> n" "n < 24" | "24 \<le> n" "n < 32" by fastforce
  then show "bit (foldr (\<lambda>b g. word_of_nat b OR push_bit 8 g) (fourcc_bytes f) (0 :: uint32)) n = bit f n"
    unfolding fourcc_bytes_def and_255_take_bit by cases (simp_all only: foldr.simps o_apply id_apply of_nat_unat ucast_id, auto simp: bit_simps)
qed

text \<open>
  The printed format code identifies the format: for every code whose four bytes are non-zero the
  string has four characters, and reading them back gives the code.
\<close>

lemma fourcc_round_trip:
  assumes "0 \<notin> set (fourcc_bytes f)"
  shows "length (fourcc_to_str f) = 4 \<and> fourcc_of_str (fourcc_to_str f) = f"
proof -
  have all: "takeWhile (\<lambda>n. n \<noteq> 0) (fourcc_bytes f) = fourcc_bytes f"
    unfolding takeWhile_eq_all_conv using assms by metis
  have char: "(of_char (char_of b :: char) :: nat) = b" if "b \<in> set (fourcc_bytes f)" for b
    using fourcc_bytes_bound [OF that] by (simp add: of_char_of)
  have "fourcc_of_str (fourcc_to_str f) = foldr (\<lambda>b g. word_of_nat b OR push_bit 8 g) (fourcc_bytes f) 0"
    unfolding fourcc_of_str_def fourcc_to_str_def all using char by (simp add: fourcc_bytes_def)
  also have "\<dots> = f" by (rule fourcc_bytes_compose)
  finally have "fourcc_of_str (fourcc_to_str f) = f" .
  moreover have "length (fourcc_to_str f) = length (fourcc_bytes f)" unfolding fourcc_to_str_def all by simp
  ultimately show ?thesis by (simp add: fourcc_bytes_def)
qed

lemma fourcc_round_trip_witness:
  "0 \<notin> set (fourcc_bytes 0x56595559) \<and> fourcc_of_str (fourcc_to_str 0x56595559) = 0x56595559"
proof -
  have z: "0 \<notin> set (fourcc_bytes 0x56595559)" by (simp add: fourcc_bytes_def)
  with fourcc_round_trip [OF z] show ?thesis by simp
qed

end
