(* ===== verification/V4l2Console.thy ===== *)
theory V4l2Console
  imports V4l2Properties
begin

text \<open>
  What the V4L2 program prints. The two streams are observations \<open>out\<close> and \<open>err\<close> of the system
  state; the laws say that writing to a stream appends to it and that no other call does.
\<close>

section \<open>Streams\<close>








section \<open>Start\<close>










section \<open>Frame rate, snapshot, shutdown\<close>













section \<open>The whole program\<close>










end
