(* ===== verification/TaskFramework.thy ===== *)
theory TaskFramework
  imports FsfwInterface Printf
begin

text \<open>
  The framework's object manager and task factory, as the main programs use them: records of
  operations over unspecified states, their documented behaviour as the predicates \<open>manager_laws\<close>
  and \<open>task_laws\<close>, and executable instances for evaluating properties.
\<close>

section \<open>Periodic tasks\<close>

text \<open>
  \<^verbatim>\<open>TaskFactory::createPeriodicTask\<close> with name, priority, stack size and period (the handler of
  missed deadlines is always null), and \<^verbatim>\<open>PeriodicTaskIF\<close>. \<open>'p\<close> are pointers to tasks, \<open>'c\<close> is what
  is added to a task: a pointer to an executable object or an object id.
\<close>

record ('p, 'c, 'f) task_if =
  MINIMUM_STACK_SIZE :: nat
  createPeriodicTask :: "string \<Rightarrow> int \<Rightarrow> nat \<Rightarrow> double \<Rightarrow> 'f \<Rightarrow> 'p option \<times> 'f"
  addComponent :: "'p \<Rightarrow> 'c \<Rightarrow> 'f \<Rightarrow> ReturnValue_t \<times> 'f"
  startTask :: "'p \<Rightarrow> 'f \<Rightarrow> ReturnValue_t \<times> 'f"

record 'c periodic_task =
  taskName :: string
  taskPeriod :: double
  taskComponents :: "'c list"
  taskStarted :: bool

text \<open>
  Documented behaviour, in terms of the tasks \<open>tasks f\<close> that exist: a new task is empty and not
  started, and creating one does not change the others; a component that is valid (an object id is
  if the object manager has an executable object under it) is appended, another is refused;
  starting marks the task.
\<close>

definition task_laws ::
  "('p, 'c, 'f) task_if \<Rightarrow> ('c \<Rightarrow> bool) \<Rightarrow> ('f \<Rightarrow> 'p \<rightharpoonup> 'c periodic_task) \<Rightarrow> bool" where
  "task_laws F valid tasks \<longleftrightarrow>
     (\<forall>nm pr st per f p f'. createPeriodicTask F nm pr st per f = (Some p, f') \<longrightarrow>
        tasks f p = None \<and>
        tasks f' = (tasks f)(p \<mapsto> \<lparr>taskName = nm, taskPeriod = per, taskComponents = [], taskStarted = False\<rparr>)) \<and>
     (\<forall>p c f t. tasks f p = Some t \<longrightarrow>
        tasks (snd (addComponent F p c f)) =
          (tasks f)(p \<mapsto> t\<lparr>taskComponents := taskComponents t @ (if valid c then [c] else [])\<rparr>)) \<and>
     (\<forall>p f t. tasks f p = Some t \<longrightarrow> tasks (snd (startTask F p f)) = (tasks f)(p \<mapsto> t\<lparr>taskStarted := True\<rparr>))"

text \<open>No creation runs out of memory.\<close>

definition creates_tasks :: "('p, 'c, 'f) task_if \<Rightarrow> bool" where
  "creates_tasks F \<longleftrightarrow> (\<forall>nm pr st per f. fst (createPeriodicTask F nm pr st per f) \<noteq> None)"

lemma task_laws_create:
  assumes "task_laws F valid tasks" and "createPeriodicTask F nm pr st per f = (Some p, f')"
  shows "tasks f p = None"
    and "tasks f' = (tasks f)(p \<mapsto> \<lparr>taskName = nm, taskPeriod = per, taskComponents = [], taskStarted = False\<rparr>)"
  using assms unfolding task_laws_def by blast+

lemma task_laws_add:
  "task_laws F valid tasks \<Longrightarrow> tasks f p = Some t \<Longrightarrow>
   tasks (snd (addComponent F p c f)) = (tasks f)(p \<mapsto> t\<lparr>taskComponents := taskComponents t @ (if valid c then [c] else [])\<rparr>)"
  unfolding task_laws_def by blast

lemma task_laws_start:
  "task_laws F valid tasks \<Longrightarrow> tasks f p = Some t \<Longrightarrow> tasks (snd (startTask F p f)) = (tasks f)(p \<mapsto> t\<lparr>taskStarted := True\<rparr>)"
  unfolding task_laws_def by blast

lemma creates_tasksE:
  assumes "creates_tasks F"
  obtains p f' where "createPeriodicTask F nm pr st per f = (Some p, f')"
proof -
  have "fst (createPeriodicTask F nm pr st per f) \<noteq> None" using assms unfolding creates_tasks_def by blast
  then show thesis using that by (cases "createPeriodicTask F nm pr st per f") auto
qed

section \<open>The object manager\<close>

text \<open>
  \<^verbatim>\<open>insert\<close> is called by the constructor of \<^verbatim>\<open>SystemObject\<close>, \<^verbatim>\<open>get\<close> looks an object up, and
  \<^verbatim>\<open>initialize\<close> calls the member function of that name, an argument here, on the objects. The
  state it threads through is the output \<open>'w\<close> of the program.
\<close>

record ('o, 'm, 'w) object_manager_if =
  om_insert :: "object_id_t \<Rightarrow> 'o \<Rightarrow> 'm \<Rightarrow> 'm"
  om_get :: "object_id_t \<Rightarrow> 'm \<Rightarrow> 'o option"
  om_initialize :: "('o \<Rightarrow> 'w \<Rightarrow> ReturnValue_t \<times> 'w) \<Rightarrow> 'm \<Rightarrow> 'w \<Rightarrow> 'w"

text \<open>
  Documented behaviour, in terms of the registered objects: inserting under a free id registers
  the object, looking up finds what is registered, and initialising calls every registered object
  once, in some order.
\<close>

definition manager_laws :: "('o, 'm, 'w) object_manager_if \<Rightarrow> ('m \<Rightarrow> object_id_t \<rightharpoonup> 'o) \<Rightarrow> bool" where
  "manager_laws OM registered \<longleftrightarrow>
     (\<forall>i ob m. registered m i = None \<longrightarrow> registered (om_insert OM i ob m) = (registered m)(i \<mapsto> ob)) \<and>
     (\<forall>i m. om_get OM i m = registered m i) \<and>
     (\<forall>init m w. finite (dom (registered m)) \<longrightarrow>
        (\<exists>is. distinct is \<and> set is = dom (registered m)
          \<and> om_initialize OM init m w = fold (\<lambda>i w. snd (init (the (registered m i)) w)) is w))"

lemma manager_laws_single:
  assumes "manager_laws OM registered" and "registered m = (\<lambda>_. None)"
  shows "om_get OM i (om_insert OM i ob m) = Some ob"
    and "om_initialize OM init (om_insert OM i ob m) w = snd (init ob w)"
proof -
  have r: "registered (om_insert OM i ob m) = [i \<mapsto> ob]"
    using assms unfolding manager_laws_def by (metis (no_types))
  show "om_get OM i (om_insert OM i ob m) = Some ob"
    using assms(1) r unfolding manager_laws_def by simp
  have "finite (dom (registered (om_insert OM i ob m)))" by (simp add: r)
  with assms(1) obtain "is" where ord: "distinct is" "set is = dom (registered (om_insert OM i ob m))"
    "om_initialize OM init (om_insert OM i ob m) w =
       fold (\<lambda>j w. snd (init (the (registered (om_insert OM i ob m) j)) w)) is w"
    unfolding manager_laws_def by blast
  then have one: "set is = {i}" by (simp add: r)
  have "length is = Suc 0" using distinct_card [OF ord(1)] one by simp
  then obtain j where j: "is = [j]" by (cases "is") simp_all
  with one have "is = [i]" by simp
  with ord(3) show "om_initialize OM init (om_insert OM i ob m) w = snd (init ob w)" by (simp add: r)
qed

section \<open>Executable instances\<close>

definition list_tasks :: "'c periodic_task list \<Rightarrow> nat \<rightharpoonup> 'c periodic_task" where
  "list_tasks f p = (if p < length f then Some (f ! p) else None)"

definition sample_task_if :: "('c \<Rightarrow> bool) \<Rightarrow> (nat, 'c, 'c periodic_task list) task_if" where
  "sample_task_if valid =
     \<lparr> MINIMUM_STACK_SIZE = 4096,
       createPeriodicTask = (\<lambda>nm pr st per f.
         (Some (length f), f @ [\<lparr>taskName = nm, taskPeriod = per, taskComponents = [], taskStarted = False\<rparr>])),
       addComponent = (\<lambda>p c f.
         if p < length f \<and> valid c
         then (OK, f[p := (f ! p)\<lparr>taskComponents := taskComponents (f ! p) @ [c]\<rparr>]) else (FAILED, f)),
       startTask = (\<lambda>p f. if p < length f then (OK, f[p := (f ! p)\<lparr>taskStarted := True\<rparr>]) else (FAILED, f)) \<rparr>"

lemma list_tasks_simps:
  "list_tasks (f @ [t]) = (list_tasks f)(length f \<mapsto> t)"
  "p < length f \<Longrightarrow> list_tasks (f[p := t]) = (list_tasks f)(p \<mapsto> t)"
  "list_tasks f p = Some t \<longleftrightarrow> p < length f \<and> t = f ! p"
  by (auto simp: list_tasks_def nth_append nth_list_update less_Suc_eq intro!: ext)

lemma sample_task_laws: "task_laws (sample_task_if valid) valid list_tasks"
  by (auto simp: task_laws_def sample_task_if_def list_tasks_simps fun_upd_idem_iff) (simp_all add: list_tasks_def)

lemma sample_creates_tasks: "creates_tasks (sample_task_if valid)"
  by (simp add: creates_tasks_def sample_task_if_def)

text \<open>A manager that keeps its objects in a list, newest first.\<close>

definition sample_manager :: "('o, (object_id_t \<times> 'o) list, 'w) object_manager_if" where
  "sample_manager =
     \<lparr> om_insert = (\<lambda>i ob m. if map_of m i = None then (i, ob) # m else m), om_get = (\<lambda>i m. map_of m i),
       om_initialize = (\<lambda>init m w. fold (\<lambda>i w. snd (init (the (map_of m i)) w)) (remdups (map fst m)) w) \<rparr>"

lemma sample_manager_laws:
  "manager_laws (sample_manager :: ('o, (object_id_t \<times> 'o) list, 'w) object_manager_if) map_of"
proof -
  have "\<exists>is. distinct is \<and> set is = dom (map_of m)
      \<and> om_initialize sample_manager init m w = fold (\<lambda>i w. snd (init (the (map_of m i)) w)) is w"
    for init :: "'o \<Rightarrow> 'w \<Rightarrow> ReturnValue_t \<times> 'w" and m w
    by (intro exI [of _ "remdups (map fst m)"]) (simp add: sample_manager_def dom_map_of_conv_image_fst)
  then show ?thesis
    unfolding manager_laws_def by (simp add: sample_manager_def)
qed

end
