(* ===== verification/MainProgram.thy ===== *)
theory MainProgram
  imports ObjectFactory TaskFramework
begin

text \<open>
  The main program (\<^verbatim>\<open>main.cpp\<close>): it creates the mission objects, has the object manager initialise
  them, gives them to two periodic tasks and then sends three telecommands. The object manager and
  the task factory are arguments.
\<close>

section \<open>The tasks\<close>

text \<open>
  \<open>found\<close> says which ids the object manager finds with the requested class. The handler is added to
  its task without a check; the pointers from the factory are used without one. The period is 1.0.
\<close>

definition webcamTask :: "('p, object_id_t, 'f) task_if \<Rightarrow> 'f \<Rightarrow> 'f cxx" where
  "webcamTask F f =
     (case createPeriodicTask F ''WEBCAM_TASK'' 0 (MINIMUM_STACK_SIZE F) 0x3FF0000000000000 f of
        (None, f1) \<Rightarrow> None
      | (Some task, f1) \<Rightarrow> Some (snd (startTask F task (snd (addComponent F task objectIdWebcamHandler f1)))))"

definition add_if_found :: "('p, object_id_t, 'f) task_if \<Rightarrow> (object_id_t \<Rightarrow> bool) \<Rightarrow> 'p \<Rightarrow> object_id_t \<Rightarrow> 'f \<Rightarrow> 'f" where
  "add_if_found F found task i f = (if found i then snd (addComponent F task i f) else f)"

definition tmtcTask :: "('p, object_id_t, 'f) task_if \<Rightarrow> (object_id_t \<Rightarrow> bool) \<Rightarrow> 'f \<Rightarrow> 'f cxx" where
  "tmtcTask F found f =
     (case createPeriodicTask F ''TMTC_TASK'' 0 (MINIMUM_STACK_SIZE F) 0x3FF0000000000000 f of
        (None, f1) \<Rightarrow> None
      | (Some task, f1) \<Rightarrow>
          (let f2 = add_if_found F found task objectIdWebcamCommandingService f1;
               f3 = add_if_found F found task objectIdWebcamTelemetrySink f2;
               f4 = add_if_found F found task objectIdWebcamVerificationSink f3
           in Some (snd (startTask F task f4))))"

section \<open>The command loop\<close>

text \<open>
  One iteration of the main loop, on its flag, the distributor (null if it was not found) and the
  message queues. Results of \<^verbatim>\<open>sendCommand\<close> are ignored; the rate is 24.0.
\<close>

definition main_iteration ::
  "('s, 'n) tc_if \<Rightarrow> byte_order \<Rightarrow> bool \<times> ('v, 's) StubPusDistributor option \<times> 'n \<Rightarrow>
   (bool \<times> ('v, 's) StubPusDistributor option \<times> 'n) cxx" where
  "main_iteration T e = (\<lambda>(commandsQueued, pusDistributor, net).
     case pusDistributor of
       None \<Rightarrow> Some (commandsQueued, pusDistributor, net)
     | Some d \<Rightarrow>
         if commandsQueued then Some (commandsQueued, pusDistributor, net)
         else
           (case sendCommand T (subserviceRaw COMMAND_SET_FRAME_RATE) (Some (double_bytes e 0x4038000000000000)) sizeof_double d net of
              None \<Rightarrow> None
            | Some (r1, d1, net1) \<Rightarrow>
                (case sendCommand T (subserviceRaw COMMAND_GET_FRAME_RATE) None 0 d1 net1 of
                   None \<Rightarrow> None
                 | Some (r2, d2, net2) \<Rightarrow>
                     (case sendCommand T (subserviceRaw PARAMETER_DUMP) None 0 d2 net2 of
                        None \<Rightarrow> None
                      | Some (r3, d3, net3) \<Rightarrow> Some (True, Some d3, net3)))))"

text \<open>The first \<open>n\<close> iterations of the endless loop.\<close>

primrec main_loop ::
  "('s, 'n) tc_if \<Rightarrow> byte_order \<Rightarrow> nat \<Rightarrow> bool \<times> ('v, 's) StubPusDistributor option \<times> 'n \<Rightarrow>
   (bool \<times> ('v, 's) StubPusDistributor option \<times> 'n) cxx" where
  "main_loop T e 0 st = Some st"
| "main_loop T e (Suc n) st = (case main_iteration T e st of None \<Rightarrow> None | Some st' \<Rightarrow> main_loop T e n st')"

section \<open>The whole program\<close>

text \<open>
  The state is the mission objects, which the object manager finds and initialises, the task
  factory and the message queues; \<open>n\<close> is the number of iterations of the endless loop.
\<close>

definition mission_main ::
  "framework_ids \<Rightarrow> MessageQueueId_t \<Rightarrow> (service_object \<Rightarrow> uint8) \<Rightarrow> (service_object \<Rightarrow> MessageQueueId_t) \<Rightarrow>
   ('s MissionObjects \<Rightarrow> 's MissionObjects) \<Rightarrow> ('s MissionObjects \<Rightarrow> object_id_t \<Rightarrow> bool) \<Rightarrow>
   ('p, object_id_t, 'f) task_if \<Rightarrow> ('s, 'n) tc_if \<Rightarrow> byte_order \<Rightarrow> nat \<Rightarrow>
   's MissionObjects \<times> 'f \<times> 'n \<Rightarrow> ('s MissionObjects \<times> 'f \<times> 'n) cxx" where
  "mission_main ids NO_QUEUE getIdentifier getRequestQueue initializeAll found F T e n = (\<lambda>(s, f, net).
     (let s1 = createMissionObjects ids NO_QUEUE getIdentifier getRequestQueue s;
          s2 = initializeAll s1;
          pusDistributor = (if found s2 objectIdWebcamTcDistributor then pusDistributorPtr s2 else None)
      in case webcamTask F f of
           None \<Rightarrow> None
         | Some f1 \<Rightarrow>
             (case tmtcTask F (found s2) f1 of
                None \<Rightarrow> None
              | Some f2 \<Rightarrow>
                  (case main_loop T e n (False, pusDistributor, net) of
                     None \<Rightarrow> None
                   | Some (queued, d, net') \<Rightarrow>
                       Some (if pusDistributor = None then s2 else s2\<lparr>pusDistributorPtr := d\<rparr>, f2, net')))))"

text \<open>
  Documented behaviour of the object manager for the mission: initialising calls \<^verbatim>\<open>initialize\<close> of the
  distributor, the only object whose state the record holds, and keeps all objects; an object of
  the mission is found exactly if it was constructed.
\<close>

definition mission_manager ::
  "'s option \<Rightarrow> ('s MissionObjects \<Rightarrow> 's MissionObjects) \<Rightarrow> ('s MissionObjects \<Rightarrow> object_id_t \<Rightarrow> bool) \<Rightarrow> bool" where
  "mission_manager store initializeAll found \<longleftrightarrow>
     (\<forall>s. initializeAll s = s\<lparr>pusDistributorPtr := map_option (\<lambda>d. snd (distributor_initialize store OK d)) (pusDistributorPtr s)\<rparr>)
     \<and> (\<forall>s. \<forall>i \<in> {objectIdWebcamHandler, objectIdWebcamCommandingService, objectIdWebcamTelemetrySink,
              objectIdWebcamVerificationSink, objectIdWebcamTcDistributor}. found s i \<longleftrightarrow> i \<in> set (constructed s))"

section \<open>Properties\<close>

lemma mission_manager_found:
  assumes "mission_manager store initializeAll found"
    and "i \<in> {objectIdWebcamHandler, objectIdWebcamCommandingService, objectIdWebcamTelemetrySink,
      objectIdWebcamVerificationSink, objectIdWebcamTcDistributor}"
  shows "found s i \<longleftrightarrow> i \<in> set (constructed s)"
proof -
  from assms(1) have "\<forall>i \<in> {objectIdWebcamHandler, objectIdWebcamCommandingService, objectIdWebcamTelemetrySink,
      objectIdWebcamVerificationSink, objectIdWebcamTcDistributor}. found s i \<longleftrightarrow> i \<in> set (constructed s)"
    unfolding mission_manager_def by (elim conjE) (erule spec)
  then show ?thesis using assms(2) by (rule bspec)
qed

lemma main_loop_queued: "main_loop T e n (True, d, net) = Some (True, d, net)"
  by (induction n) (auto simp: main_iteration_def split: option.splits)

lemma main_loop_no_distributor: "main_loop T e n (q, None, net) = Some (q, None, net)"
  by (induction n) (simp_all add: main_iteration_def)

text \<open>
  The main loop sends its three telecommands exactly once: the first iteration issues set
  rate with the eight bytes of 24.0, get rate and parameter dump, in this order and without
  undefined behaviour, however many iterations follow; with a registered service and a store
  they use three consecutive sequence counts. Without a distributor nothing is ever sent.
\<close>

lemma main_loop_sends_once:
  "(\<exists>r1 d1 net1 r2 d2 net2 r3 d3 net3.
      sendCommand T 2 (Some (double_bytes e 0x4038000000000000)) 8 d net = Some (r1, d1, net1)
      \<and> sendCommand T 3 None 0 d1 net1 = Some (r2, d2, net2)
      \<and> sendCommand T 4 None 0 d2 net2 = Some (r3, d3, net3)
      \<and> main_loop T e (Suc n) (False, Some d, net) = Some (True, Some d3, net3)
      \<and> (sequenceCounter d3 = sequenceCounter d + 3 \<longleftrightarrow> registeredService d \<noteq> None \<and> tcStore d \<noteq> None))
   \<and> main_loop T e n (False, None, net) = Some (False, None, net)"
proof
  have rd: "readable (Some (double_bytes e 0x4038000000000000)) 8" by (simp add: sizeof_double_def)
  from sendCommand_total [OF rd, of T 2 d net] obtain r1 d1 net1
    where c1: "sendCommand T 2 (Some (double_bytes e 0x4038000000000000)) 8 d net = Some (r1, d1, net1)"
      and k1: "registeredService d1 = registeredService d" "tcStore d1 = None \<longleftrightarrow> tcStore d = None"
        "sequenceCounter d1 = (if registeredService d \<noteq> None \<and> tcStore d \<noteq> None then sequenceCounter d + 1 else sequenceCounter d)"
    by (elim exE conjE) (rule that)
  from sendCommand_total [OF readable_None, of T 3 0 d1 net1] obtain r2 d2 net2
    where c2: "sendCommand T 3 None 0 d1 net1 = Some (r2, d2, net2)"
      and k2: "registeredService d2 = registeredService d1" "tcStore d2 = None \<longleftrightarrow> tcStore d1 = None"
        "sequenceCounter d2 = (if registeredService d1 \<noteq> None \<and> tcStore d1 \<noteq> None then sequenceCounter d1 + 1 else sequenceCounter d1)"
    by (elim exE conjE) (rule that)
  from sendCommand_total [OF readable_None, of T 4 0 d2 net2] obtain r3 d3 net3
    where c3: "sendCommand T 4 None 0 d2 net2 = Some (r3, d3, net3)"
      and k3: "sequenceCounter d3 = (if registeredService d2 \<noteq> None \<and> tcStore d2 \<noteq> None then sequenceCounter d2 + 1 else sequenceCounter d2)"
    by (elim exE conjE) (rule that)
  have "sequenceCounter d3 = sequenceCounter d + 3 \<longleftrightarrow> registeredService d \<noteq> None \<and> tcStore d \<noteq> None"
    using k1 k2 k3 by (simp add: add.assoc)
  moreover have "main_loop T e (Suc n) (False, Some d, net) = Some (True, Some d3, net3)"
    using c1 c2 c3 by (simp add: main_iteration_def subservice_defs sizeof_double_def main_loop_queued)
  ultimately show "\<exists>r1 d1 net1 r2 d2 net2 r3 d3 net3.
      sendCommand T 2 (Some (double_bytes e 0x4038000000000000)) 8 d net = Some (r1, d1, net1)
      \<and> sendCommand T 3 None 0 d1 net1 = Some (r2, d2, net2)
      \<and> sendCommand T 4 None 0 d2 net2 = Some (r3, d3, net3)
      \<and> main_loop T e (Suc n) (False, Some d, net) = Some (True, Some d3, net3)
      \<and> (sequenceCounter d3 = sequenceCounter d + 3 \<longleftrightarrow> registeredService d \<noteq> None \<and> tcStore d \<noteq> None)"
    using c1 c2 c3 by blast
  show "main_loop T e n (False, None, net) = Some (False, None, net)"
    by (rule main_loop_no_distributor)
qed

text \<open>What the two tasks are after their creation.\<close>

lemma webcamTask_started:
  assumes "task_laws F valid tasks" and "creates_tasks F" and "valid objectIdWebcamHandler"
  shows "\<exists>f' p. webcamTask F f = Some f' \<and> tasks f p = None
    \<and> tasks f' = (tasks f)(p \<mapsto> \<lparr>taskName = ''WEBCAM_TASK'', taskPeriod = 0x3FF0000000000000,
        taskComponents = [objectIdWebcamHandler], taskStarted = True\<rparr>)"
proof -
  obtain p f1 where c: "createPeriodicTask F ''WEBCAM_TASK'' 0 (MINIMUM_STACK_SIZE F) 0x3FF0000000000000 f = (Some p, f1)"
    using assms(2) by (rule creates_tasksE)
  note t = task_laws_create [OF assms(1) c]
  show ?thesis
    unfolding webcamTask_def c using t(1) assms(3)
    by (auto simp: task_laws_add [OF assms(1)] task_laws_start [OF assms(1)] t(2) intro!: exI [of _ p])
qed

lemma tasks_add_if_found:
  assumes "task_laws F valid tasks" and "tasks f p = Some t" and "found i \<Longrightarrow> valid i"
  shows "tasks (add_if_found F found p i f) =
    (tasks f)(p \<mapsto> t\<lparr>taskComponents := taskComponents t @ (if found i then [i] else [])\<rparr>)"
  using assms(2,3) by (auto simp: add_if_found_def task_laws_add [OF assms(1)] fun_upd_idem_iff)

lemma tmtcTask_started:
  assumes "task_laws F valid tasks" and "creates_tasks F" and v: "\<And>i. found i \<Longrightarrow> valid i"
  shows "\<exists>f' p. tmtcTask F found f = Some f' \<and> tasks f p = None
    \<and> tasks f' = (tasks f)(p \<mapsto> \<lparr>taskName = ''TMTC_TASK'', taskPeriod = 0x3FF0000000000000,
        taskComponents = filter found [objectIdWebcamCommandingService, objectIdWebcamTelemetrySink,
          objectIdWebcamVerificationSink], taskStarted = True\<rparr>)"
proof -
  obtain p f1 where c: "createPeriodicTask F ''TMTC_TASK'' 0 (MINIMUM_STACK_SIZE F) 0x3FF0000000000000 f = (Some p, f1)"
    using assms(2) by (rule creates_tasksE)
  note t = task_laws_create [OF assms(1) c]
  show ?thesis
    unfolding tmtcTask_def c Let_def using t(1)
    by (auto simp: tasks_add_if_found [OF assms(1) _ v] task_laws_start [OF assms(1)] t(2) intro!: exI [of _ p])
qed

lemma mission_objects_constructed:
  "{objectIdWebcamHandler, objectIdWebcamCommandingService, objectIdWebcamTelemetrySink,
    objectIdWebcamVerificationSink, objectIdWebcamTcDistributor}
   \<subseteq> set (constructed (createMissionObjects ids nq gi gq no_objects))"
  by (simp add: factory_defs no_objects_def Let_def)

lemma mission_distributor:
  "\<exists>d v. pusDistributorPtr (createMissionObjects ids nq gi gq no_objects) = Some d
     \<and> registeredService d = Some v \<and> sequenceCounter d = 0"
  by (simp add: factory_defs no_objects_def Let_def registerService_def new_StubPusDistributor_def)

text \<open>After creation and initialisation everything main looks up is found, and the distributor is ready.\<close>

lemma mission_initialised:
  fixes initializeAll :: "'s MissionObjects \<Rightarrow> 's MissionObjects"
  assumes "mission_manager (Some store) initializeAll found"
  shows "\<forall>i \<in> {objectIdWebcamHandler, objectIdWebcamCommandingService, objectIdWebcamTelemetrySink,
      objectIdWebcamVerificationSink, objectIdWebcamTcDistributor}.
      found (initializeAll (createMissionObjects ids nq gi gq no_objects)) i"
    and "\<exists>d. pusDistributorPtr (initializeAll (createMissionObjects ids nq gi gq no_objects)) = Some d
      \<and> registeredService d \<noteq> None \<and> sequenceCounter d = 0 \<and> tcStore d = Some store"
proof -
  let ?s1 = "createMissionObjects ids nq gi gq (no_objects :: 's MissionObjects)"
  have init: "initializeAll ?s1 =
      ?s1\<lparr>pusDistributorPtr := map_option (\<lambda>d. snd (distributor_initialize (Some store) OK d)) (pusDistributorPtr ?s1)\<rparr>"
    using assms by (simp add: mission_manager_def)
  show "\<forall>i \<in> {objectIdWebcamHandler, objectIdWebcamCommandingService, objectIdWebcamTelemetrySink,
      objectIdWebcamVerificationSink, objectIdWebcamTcDistributor}. found (initializeAll ?s1) i"
  proof
    fix i
    assume that: "i \<in> {objectIdWebcamHandler, objectIdWebcamCommandingService, objectIdWebcamTelemetrySink,
      objectIdWebcamVerificationSink, objectIdWebcamTcDistributor}"
    have "constructed (initializeAll ?s1) = constructed ?s1" by (simp add: init)
    moreover have "i \<in> set (constructed ?s1)" by (rule subsetD [OF mission_objects_constructed that])
    ultimately show "found (initializeAll ?s1) i" unfolding mission_manager_found [OF assms that] by simp
  qed
  obtain d v where "pusDistributorPtr ?s1 = Some d" "registeredService d = Some v" "sequenceCounter d = 0"
    using mission_distributor by blast
  then show "\<exists>d. pusDistributorPtr (initializeAll ?s1) = Some d
      \<and> registeredService d \<noteq> None \<and> sequenceCounter d = 0 \<and> tcStore d = Some store"
    by (simp add: init distributor_initialize_def)
qed

lemma mission_tasks_started:
  assumes "task_laws F found tasks" and "creates_tasks F"
    and fnd: "\<forall>i \<in> {objectIdWebcamHandler, objectIdWebcamCommandingService, objectIdWebcamTelemetrySink,
      objectIdWebcamVerificationSink, objectIdWebcamTcDistributor}. found i"
  shows "\<exists>f1 f2 p q. webcamTask F f = Some f1 \<and> tmtcTask F found f1 = Some f2
    \<and> p \<noteq> q \<and> tasks f p = None \<and> tasks f q = None \<and> tasks f2 = (tasks f)
      (p \<mapsto> \<lparr>taskName = ''WEBCAM_TASK'', taskPeriod = 0x3FF0000000000000,
         taskComponents = [objectIdWebcamHandler], taskStarted = True\<rparr>,
       q \<mapsto> \<lparr>taskName = ''TMTC_TASK'', taskPeriod = 0x3FF0000000000000,
         taskComponents = [objectIdWebcamCommandingService, objectIdWebcamTelemetrySink, objectIdWebcamVerificationSink],
         taskStarted = True\<rparr>)"
proof -
  have "found objectIdWebcamHandler" using fnd by simp
  from webcamTask_started [OF assms(1,2) this, of f] obtain f1 p where w: "webcamTask F f = Some f1" "tasks f p = None"
    "tasks f1 = (tasks f)(p \<mapsto> \<lparr>taskName = ''WEBCAM_TASK'', taskPeriod = 0x3FF0000000000000,
        taskComponents = [objectIdWebcamHandler], taskStarted = True\<rparr>)" by blast
  from tmtcTask_started [OF assms(1,2), of found f1] obtain f2 q where m: "tmtcTask F found f1 = Some f2"
    "tasks f1 q = None" "tasks f2 = (tasks f1)(q \<mapsto> \<lparr>taskName = ''TMTC_TASK'', taskPeriod = 0x3FF0000000000000,
        taskComponents = filter found [objectIdWebcamCommandingService, objectIdWebcamTelemetrySink,
          objectIdWebcamVerificationSink], taskStarted = True\<rparr>)" by blast
  have pq: "p \<noteq> q" "tasks f q = None" using m(2) w(3) by (auto split: if_splits)
  have tk: "tasks f2 = (tasks f)
      (p \<mapsto> \<lparr>taskName = ''WEBCAM_TASK'', taskPeriod = 0x3FF0000000000000,
         taskComponents = [objectIdWebcamHandler], taskStarted = True\<rparr>,
       q \<mapsto> \<lparr>taskName = ''TMTC_TASK'', taskPeriod = 0x3FF0000000000000,
         taskComponents = [objectIdWebcamCommandingService, objectIdWebcamTelemetrySink, objectIdWebcamVerificationSink],
         taskStarted = True\<rparr>)"
    unfolding m(3) w(3) using fnd by simp
  show ?thesis
    by (rule exI [of _ f1], rule exI [of _ f2], rule exI [of _ p], rule exI [of _ q]) (intro conjI w(1,2) m(1) pq tk)
qed

text \<open>
  C6. The main program runs the mission: starting with no objects, it dereferences nothing null,
  starts exactly two new tasks, one with the handler and one with the commanding service, the
  telemetry sink and the verification receiver in this order, and with a TC store sends its three
  telecommands exactly once, with the sequence counts 0, 1 and 2, however long it runs.
\<close>

theorem mission_main_runs:
  fixes initializeAll :: "'s MissionObjects \<Rightarrow> 's MissionObjects"
  assumes "mission_manager (Some store) initializeAll found"
    and "task_laws F (found (initializeAll (createMissionObjects ids nq gi gq no_objects))) tasks" and "creates_tasks F"
  shows "\<exists>s' f' net' p q d0 d1 net1 d2 net2 d3 r1 r2 r3.
      mission_main ids nq gi gq initializeAll found F T e (Suc n) (no_objects, f, net) = Some (s', f', net')
    \<and> p \<noteq> q \<and> tasks f p = None \<and> tasks f q = None
    \<and> tasks f' = (tasks f)
        (p \<mapsto> \<lparr>taskName = ''WEBCAM_TASK'', taskPeriod = 0x3FF0000000000000,
           taskComponents = [objectIdWebcamHandler], taskStarted = True\<rparr>,
         q \<mapsto> \<lparr>taskName = ''TMTC_TASK'', taskPeriod = 0x3FF0000000000000,
           taskComponents = [objectIdWebcamCommandingService, objectIdWebcamTelemetrySink, objectIdWebcamVerificationSink],
           taskStarted = True\<rparr>)
    \<and> tcStore d0 = Some store \<and> sequenceCounter d0 = 0
    \<and> sendCommand T 2 (Some (double_bytes e 0x4038000000000000)) 8 d0 net = Some (r1, d1, net1)
    \<and> sendCommand T 3 None 0 d1 net1 = Some (r2, d2, net2)
    \<and> sendCommand T 4 None 0 d2 net2 = Some (r3, d3, net')
    \<and> pusDistributorPtr s' = Some d3 \<and> sequenceCounter d3 = 3"
proof -
  let ?s = "initializeAll (createMissionObjects ids nq gi gq no_objects)"
  note fnd = mission_initialised(1) [OF assms(1), of ids nq gi gq]
  from mission_initialised(2) [OF assms(1)] obtain d0 where d: "pusDistributorPtr ?s = Some d0"
    "registeredService d0 \<noteq> None" "sequenceCounter d0 = 0" "tcStore d0 = Some store" by blast
  from mission_tasks_started [OF assms(2,3) fnd, of f] obtain f1 f2 p q where
    t: "webcamTask F f = Some f1" "tmtcTask F (found ?s) f1 = Some f2"
    and pq: "p \<noteq> q" "tasks f p = None" "tasks f q = None" and tk: "tasks f2 = (tasks f)
      (p \<mapsto> \<lparr>taskName = ''WEBCAM_TASK'', taskPeriod = 0x3FF0000000000000,
         taskComponents = [objectIdWebcamHandler], taskStarted = True\<rparr>,
       q \<mapsto> \<lparr>taskName = ''TMTC_TASK'', taskPeriod = 0x3FF0000000000000,
         taskComponents = [objectIdWebcamCommandingService, objectIdWebcamTelemetrySink, objectIdWebcamVerificationSink],
         taskStarted = True\<rparr>)"
    by (elim conjE exE) (rule that)
  from main_loop_sends_once [of T e d0 net n] obtain r1 d1 net1 r2 d2 net2 r3 d3 net3 where
    c: "sendCommand T 2 (Some (double_bytes e 0x4038000000000000)) 8 d0 net = Some (r1, d1, net1)"
      "sendCommand T 3 None 0 d1 net1 = Some (r2, d2, net2)" "sendCommand T 4 None 0 d2 net2 = Some (r3, d3, net3)"
      and l: "main_loop T e (Suc n) (False, Some d0, net) = Some (True, Some d3, net3)"
      and k: "sequenceCounter d3 = sequenceCounter d0 + 3 \<longleftrightarrow> registeredService d0 \<noteq> None \<and> tcStore d0 \<noteq> None"
    by (elim conjE exE) (rule that)
  let ?s' = "?s\<lparr>pusDistributorPtr := Some d3\<rparr>"
  have run: "mission_main ids nq gi gq initializeAll found F T e (Suc n) (no_objects, f, net) = Some (?s', f2, net3)"
    using fnd by (simp add: mission_main_def Let_def t d(1) l del: main_loop.simps)
  have sq: "pusDistributorPtr ?s' = Some d3" "sequenceCounter d3 = 3" using k d by simp_all
  show ?thesis
    by (rule exI [of _ ?s'], rule exI [of _ f2], rule exI [of _ net3], rule exI [of _ p], rule exI [of _ q],
        rule exI [of _ d0], rule exI [of _ d1], rule exI [of _ net1], rule exI [of _ d2], rule exI [of _ net2],
        rule exI [of _ d3], rule exI [of _ r1], rule exI [of _ r2], rule exI [of _ r3])
      (intro conjI run pq tk d(3,4) sq c)
qed

definition sample_initializeAll :: "pool MissionObjects \<Rightarrow> pool MissionObjects" where
  "sample_initializeAll s = s\<lparr>pusDistributorPtr :=
     map_option (\<lambda>d. snd (distributor_initialize (Some [None, None, None]) OK d)) (pusDistributorPtr s)\<rparr>"

definition sample_found :: "pool MissionObjects \<Rightarrow> object_id_t \<Rightarrow> bool" where
  "sample_found s i \<longleftrightarrow> i \<in> set (constructed s)"

lemma sample_mission_manager: "mission_manager (Some [None, None, None]) sample_initializeAll sample_found"
  by (simp add: mission_manager_def sample_initializeAll_def sample_found_def)

theorem mission_main_runs_witness:
  "\<exists>s' f' net' d. mission_main sample_ids 0 (\<lambda>_. 200) (\<lambda>_. 7) sample_initializeAll sample_found
       (sample_task_if (sample_found (sample_initializeAll (createMissionObjects sample_ids 0 (\<lambda>_. 200) (\<lambda>_. 7) no_objects))))
       sample_tc Little_Endian (Suc 5) (no_objects, [], []) = Some (s', f', net')
     \<and> pusDistributorPtr s' = Some d \<and> sequenceCounter d = 3"
  using mission_main_runs [OF sample_mission_manager sample_task_laws sample_creates_tasks,
      of sample_ids 0 "\<lambda>_. 200" "\<lambda>_. 7" sample_tc Little_Endian 5 "[]" "[]"]
  by fast

end
