(* ===== verification/PeriodicLoop.thy ===== *)
theory PeriodicLoop
  imports Interleaving Printf
begin

text \<open>
  Threads of the form \<^verbatim>\<open>while (true) { operation; sleep_for(period); }\<close> that write to the same
  stream without a mutex, with the time in milliseconds. Each insertion into \<^verbatim>\<open>cout\<close> is one atomic
  action, so the writes of different threads may mix; \<^verbatim>\<open>sleep_for\<close> blocks for at least its argument,
  and a thread may run late by any amount. The contract \<open>printing_loop\<close> is a program whose threads
  print one line per operation; its clients are the task workshop programs.
\<close>

section \<open>Threads and time\<close>

text \<open>Either a thread makes its next action, or a millisecond passes.\<close>

datatype 't actor = Thread 't | Clock

text \<open>What a thread still has to write in this operation, or when it may wake up.\<close>

datatype loop_point = Writing "string list" | SleepUntil nat

text \<open>The writes so far, each with the thread that made it; the console shows the texts only.\<close>

record 't loop_state =
  clockMs :: nat
  written :: "('t \<times> string) list"
  point :: "'t \<Rightarrow> loop_point"

definition at_point :: "'t \<Rightarrow> loop_point \<Rightarrow> 't loop_state \<Rightarrow> 't loop_state" where
  "at_point t p s = s\<lparr>point := (point s)(t := p)\<rparr>"

definition loop_exec ::
  "('t \<Rightarrow> string list) \<Rightarrow> ('t \<Rightarrow> uint32) \<Rightarrow> 't actor \<Rightarrow> 't loop_state \<Rightarrow> 't loop_state option" where
  "loop_exec perform sleepMs a s =
     (case a of
        Clock \<Rightarrow> Some (s\<lparr>clockMs := Suc (clockMs s)\<rparr>)
      | Thread t \<Rightarrow>
          (case point s t of
             Writing ws \<Rightarrow>
               (case ws of
                  [] \<Rightarrow> Some (at_point t (SleepUntil (clockMs s + unat (sleepMs t))) s)
                | w # ws' \<Rightarrow> Some (at_point t (Writing ws') (s\<lparr>written := written s @ [(t, w)]\<rparr>)))
           | SleepUntil m \<Rightarrow>
               if m \<le> clockMs s then Some (at_point t (Writing (perform t)) s) else None))"

definition loop_start :: "('t \<Rightarrow> string list) \<Rightarrow> 't loop_state" where
  "loop_start perform = \<lparr>clockMs = 0, written = [], point = (\<lambda>t. Writing (perform t))\<rparr>"

definition writes_of :: "'t \<Rightarrow> 't loop_state \<Rightarrow> string list" where
  "writes_of t s = map snd (filter (\<lambda>x. fst x = t) (written s))"

definition console :: "'t loop_state \<Rightarrow> string" where
  "console s = concat (map snd (written s))"

lemma writes_of_simps [simp]:
  "writes_of u (at_point t p s) = writes_of u s"
  "writes_of u (s\<lparr>clockMs := c\<rparr>) = writes_of u s"
  "writes_of u (s\<lparr>written := written s @ [(t, w)]\<rparr>) = writes_of u s @ (if u = t then [w] else [])"
  by (simp_all add: writes_of_def at_point_def)

lemma at_point_simps [simp]:
  "point (at_point t p s) = (point s)(t := p)" "clockMs (at_point t p s) = clockMs s" "written (at_point t p s) = written s"
  by (simp_all add: at_point_def)

section \<open>What every thread has written\<close>

text \<open>
  A thread has completed some number of operations and is inside the next one or asleep; each
  completed operation has cost at least the sleeping time.
\<close>

definition thread_inv :: "string list \<Rightarrow> nat \<Rightarrow> nat \<Rightarrow> string list \<Rightarrow> loop_point \<Rightarrow> bool" where
  "thread_inv ops p clock out pt \<longleftrightarrow>
     (\<exists>n. case pt of
        Writing ws \<Rightarrow> \<exists>begun. ops = begun @ ws \<and> out = concat (replicate n ops) @ begun \<and> n * p \<le> clock
      | SleepUntil m \<Rightarrow> out = concat (replicate (Suc n) ops) \<and> Suc n * p \<le> m \<and> m \<le> clock + p)"

definition loop_inv :: "('t \<Rightarrow> string list) \<Rightarrow> ('t \<Rightarrow> uint32) \<Rightarrow> 't loop_state \<Rightarrow> bool" where
  "loop_inv perform sleepMs s \<longleftrightarrow>
     (\<forall>t. thread_inv (perform t) (unat (sleepMs t)) (clockMs s) (writes_of t s) (point s t))"

lemma thread_inv_start: "thread_inv ops p 0 [] (Writing ops)"
  unfolding thread_inv_def by (intro exI [of _ 0]) simp

lemma thread_inv_time: "thread_inv ops p c out pt \<Longrightarrow> thread_inv ops p (Suc c) out pt"
  unfolding thread_inv_def by (erule exE, rule exI) (auto split: loop_point.splits)

lemma thread_inv_write:
  assumes "thread_inv ops p c out (Writing (w # ws))"
  shows "thread_inv ops p c (out @ [w]) (Writing ws)"
proof -
  from assms obtain n begun where "ops = begun @ w # ws" "out = concat (replicate n ops) @ begun" "n * p \<le> c"
    by (auto simp: thread_inv_def)
  then show ?thesis
    unfolding thread_inv_def by (intro exI [of _ n]) (simp add: exI [of _ "begun @ [w]"])
qed

lemma concat_replicate_Suc: "concat (replicate n xs) @ xs = concat (replicate (Suc n) xs)"
  by (induction n) simp_all

lemma thread_inv_sleep:
  assumes "thread_inv ops p c out (Writing [])"
  shows "thread_inv ops p c out (SleepUntil (c + p))"
proof -
  from assms obtain n where "out = concat (replicate n ops) @ ops" "n * p \<le> c" by (auto simp: thread_inv_def)
  then show ?thesis
    unfolding thread_inv_def concat_replicate_Suc by (intro exI [of _ n]) simp
qed

lemma thread_inv_wake:
  assumes "thread_inv ops p c out (SleepUntil m)" and "m \<le> c"
  shows "thread_inv ops p c out (Writing ops)"
proof -
  from assms(1) obtain n where "out = concat (replicate (Suc n) ops)" "Suc n * p \<le> m" by (auto simp: thread_inv_def)
  with assms(2) show ?thesis
    unfolding thread_inv_def by (intro exI [of _ "Suc n"]) (simp del: replicate.simps)
qed

lemma loop_inv_start: "loop_inv perform sleepMs (loop_start perform)"
  by (simp add: loop_inv_def loop_start_def writes_of_def thread_inv_start)

lemma loop_inv_exec:
  assumes "loop_exec perform sleepMs a s = Some s'" and "loop_inv perform sleepMs s"
  shows "loop_inv perform sleepMs s'"
proof (cases a)
  case Clock
  with assms(1) have "s' = s\<lparr>clockMs := Suc (clockMs s)\<rparr>" by (simp add: loop_exec_def)
  with assms(2) show ?thesis by (simp add: loop_inv_def thread_inv_time)
next
  case (Thread t)
  have i: "thread_inv (perform u) (unat (sleepMs u)) (clockMs s) (writes_of u s) (point s u)" for u
    using assms(2) by (simp add: loop_inv_def)
  show ?thesis
    unfolding loop_inv_def
  proof
    fix u
    show "thread_inv (perform u) (unat (sleepMs u)) (clockMs s') (writes_of u s') (point s' u)"
    proof (cases "u = t")
      case True
      with assms(1) Thread i [of t] show ?thesis
        by (auto simp: loop_exec_def split: loop_point.splits list.splits if_splits
            intro: thread_inv_write thread_inv_sleep thread_inv_wake)
    next
      case False
      with assms(1) Thread i [of u] show ?thesis
        by (auto simp: loop_exec_def split: loop_point.splits list.splits if_splits)
    qed
  qed
qed

interpretation loop_runs: invariant_system "interleaved (loop_exec perform sleepMs)" "loop_inv perform sleepMs"
  for perform sleepMs
  by unfold_locales (auto simp: interleaved_def intro: loop_inv_exec)

lemma reachable_thread_inv:
  assumes "reachable_from (interleaved (loop_exec perform sleepMs)) (loop_start perform) s"
  shows "thread_inv (perform t) (unat (sleepMs t)) (clockMs s) (writes_of t s) (point s t)"
  using loop_runs.reachable_inv [OF assms loop_inv_start] by (simp add: loop_inv_def)

section \<open>Letting one thread run\<close>

text \<open>Time can pass at any moment, and a thread that is not asleep can finish its operation.\<close>

lemma run_schedule_append:
  "run_schedule exec (xs @ ys) s = (case run_schedule exec xs s of None \<Rightarrow> None | Some s' \<Rightarrow> run_schedule exec ys s')"
  by (induction xs arbitrary: s) (auto split: option.splits)

lemma run_clock:
  "run_schedule (loop_exec perform sleepMs) (replicate n Clock) s = Some (s\<lparr>clockMs := clockMs s + n\<rparr>)"
  by (induction n arbitrary: s) (simp_all add: loop_exec_def)

lemma run_writing:
  assumes "point s t = Writing ws"
  shows "\<exists>s'. run_schedule (loop_exec perform sleepMs) (replicate (length ws) (Thread t)) s = Some s'
    \<and> point s' = (point s)(t := Writing []) \<and> clockMs s' = clockMs s \<and> written s' = written s @ map (Pair t) ws"
  using assms
proof (induction ws arbitrary: s)
  case Nil
  then show ?case by (simp add: fun_upd_idem)
next
  case (Cons w ws)
  let ?s = "at_point t (Writing ws) (s\<lparr>written := written s @ [(t, w)]\<rparr>)"
  have "loop_exec perform sleepMs (Thread t) s = Some ?s" using Cons.prems by (simp add: loop_exec_def)
  moreover from Cons.IH [of ?s] obtain s' where
    "run_schedule (loop_exec perform sleepMs) (replicate (length ws) (Thread t)) ?s = Some s'"
    "point s' = (point s)(t := Writing [])" "clockMs s' = clockMs s" "written s' = written s @ (t, w) # map (Pair t) ws"
    by fastforce
  ultimately show ?case by (simp add: fun_upd_def)
qed

text \<open>A schedule that wakes the thread if it sleeps and runs one whole operation.\<close>

lemma run_operation:
  assumes "point s t = SleepUntil m" and "m \<le> clockMs s + d"
  shows "\<exists>s'. run_schedule (loop_exec perform sleepMs) (replicate d Clock @ replicate (Suc (length (perform t))) (Thread t)) s = Some s'
    \<and> written s' = written s @ map (Pair t) (perform t) \<and> clockMs s' = clockMs s + d \<and> point s' = (point s)(t := Writing [])"
proof -
  let ?s = "s\<lparr>clockMs := clockMs s + d\<rparr>"
  let ?s1 = "at_point t (Writing (perform t)) ?s"
  have "loop_exec perform sleepMs (Thread t) ?s = Some ?s1" using assms by (simp add: loop_exec_def)
  moreover from run_writing [of ?s1 t "perform t" perform sleepMs] obtain s' where
    "run_schedule (loop_exec perform sleepMs) (replicate (length (perform t)) (Thread t)) ?s1 = Some s'"
    "point s' = (point s)(t := Writing [])" "clockMs s' = clockMs s + d" "written s' = written s @ map (Pair t) (perform t)"
    by auto
  ultimately show ?thesis by (simp add: run_schedule_append run_clock)
qed

section \<open>Programs that print lines\<close>

text \<open>
  Every operation of thread \<open>t\<close> prints \<open>line t\<close> and an end of line, and every thread sleeps for a
  positive time.
\<close>

locale printing_loop =
  fixes perform :: "'t \<Rightarrow> string list"
    and sleepMs :: "'t \<Rightarrow> uint32"
    and line :: "'t \<Rightarrow> string"
  assumes prints_line: "perform t = [line t, newline]"
    and sleeps: "0 < sleepMs t"
begin

lemma lines_bounded:
  assumes "reachable_from (interleaved (loop_exec perform sleepMs)) (loop_start perform) s"
  shows "\<exists>n rest. writes_of t s = concat (replicate n [line t, newline]) @ rest \<and> (rest = [] \<or> rest = [line t])
    \<and> n + length rest \<le> Suc (clockMs s div unat (sleepMs t))"
proof -
  let ?p = "unat (sleepMs t)"
  have p: "0 < ?p" using sleeps [of t] by (simp add: word_less_nat_alt)
  have i: "thread_inv [line t, newline] ?p (clockMs s) (writes_of t s) (point s t)"
    using reachable_thread_inv [OF assms, of t] by (simp only: prints_line)
  show ?thesis
  proof (cases "point s t")
    case (Writing ws)
    with i obtain n begun where b: "begun @ ws = [line t, newline]" "n * ?p \<le> clockMs s"
      "writes_of t s = concat (replicate n [line t, newline]) @ begun"
      by (auto simp: thread_inv_def)
    from b(2) p have n: "n \<le> clockMs s div ?p" by (simp add: less_eq_div_iff_mult_less_eq)
    from b(1) consider "begun = []" | "begun = [line t]" | "begun = [line t, newline]"
      by (auto simp: append_eq_Cons_conv)
    then show ?thesis
    proof cases
      case 3
      with b(3) have "writes_of t s = concat (replicate (Suc n) [line t, newline]) @ []"
        unfolding concat_replicate_Suc [symmetric] by simp
      with n show ?thesis by (intro exI [of _ "Suc n"] exI [of _ "[]"]) simp
    qed (use b(3) n in \<open>intro exI [of _ n] exI [of _ begun]; simp\<close>)+
  next
    case (SleepUntil m)
    with i obtain n where b: "writes_of t s = concat (replicate (Suc n) [line t, newline])"
      "Suc n * ?p \<le> m" "m \<le> clockMs s + ?p"
      by (auto simp: thread_inv_def)
    from b(2,3) have "Suc n * ?p \<le> clockMs s + ?p" by (rule order_trans)
    then have "n * ?p \<le> clockMs s" by simp
    with p have "n \<le> clockMs s div ?p" by (simp add: less_eq_div_iff_mult_less_eq)
    with b(1) show ?thesis by (intro exI [of _ "Suc n"] exI [of _ "[]"]) (simp del: replicate.simps)
  qed
qed

lemma writes_of_append: "written s' = written s @ map (Pair t) ws \<Longrightarrow> writes_of t s' = writes_of t s @ ws"
  by (simp add: writes_of_def filter_True o_def)

lemma wake_and_print:
  assumes "point s t = SleepUntil m" and "m \<le> clockMs s + unat (sleepMs t)"
  shows "\<exists>as s'. set as \<subseteq> {Clock, Thread t} \<and> run_schedule (loop_exec perform sleepMs) as s = Some s'
    \<and> clockMs s' = clockMs s + unat (sleepMs t) \<and> writes_of t s' = writes_of t s @ [line t, newline]"
proof -
  let ?as = "replicate (unat (sleepMs t)) Clock @ replicate (Suc (length (perform t))) (Thread t)"
  from run_operation [OF assms, of perform sleepMs] obtain s' where
    "run_schedule (loop_exec perform sleepMs) ?as s = Some s'" "clockMs s' = clockMs s + unat (sleepMs t)"
    "written s' = written s @ map (Pair t) (perform t)" by blast
  moreover have "set ?as \<subseteq> {Clock, Thread t}" by auto
  ultimately show ?thesis using writes_of_append [of s' s t "perform t"] prints_line by metis
qed

text \<open>However the threads were scheduled so far, each can print its next whole line within its period.\<close>

lemma next_line:
  assumes "reachable_from (interleaved (loop_exec perform sleepMs)) (loop_start perform) s"
  shows "\<exists>as s' ws. set as \<subseteq> {Clock, Thread t} \<and> run_schedule (loop_exec perform sleepMs) as s = Some s'
    \<and> clockMs s' \<le> clockMs s + unat (sleepMs t) \<and> writes_of t s' = writes_of t s @ ws @ [newline] \<and> (ws = [] \<or> ws = [line t])"
proof -
  have i: "thread_inv [line t, newline] (unat (sleepMs t)) (clockMs s) (writes_of t s) (point s t)"
    using reachable_thread_inv [OF assms, of t] by (simp only: prints_line)
  show ?thesis
  proof (cases "point s t")
    case (SleepUntil m)
    with i have "m \<le> clockMs s + unat (sleepMs t)" by (auto simp: thread_inv_def)
    from wake_and_print [OF SleepUntil this] show ?thesis by fastforce
  next
    case (Writing ws)
    with i obtain begun where "begun @ ws = [line t, newline]" by (auto simp: thread_inv_def)
    then consider "ws = []" | pre where "ws = pre @ [newline]" "pre = [] \<or> pre = [line t]"
      by (auto simp: append_eq_Cons_conv)
    then show ?thesis
    proof cases
      case 1
      let ?s = "at_point t (SleepUntil (clockMs s + unat (sleepMs t))) s"
      have "loop_exec perform sleepMs (Thread t) s = Some ?s" using Writing 1 by (simp add: loop_exec_def)
      moreover from wake_and_print [of ?s t "clockMs s + unat (sleepMs t)"] obtain as s' where
        "set as \<subseteq> {Clock, Thread t}" "run_schedule (loop_exec perform sleepMs) as ?s = Some s'"
        "clockMs s' = clockMs s + unat (sleepMs t)" "writes_of t s' = writes_of t s @ [line t, newline]" by auto
      ultimately show ?thesis
        by (intro exI [of _ "Thread t # as"] exI [of _ s'] exI [of _ "[line t]"]) simp
    next
      case (2 pre)
      from run_writing [OF Writing, of perform sleepMs] obtain s' where
        "run_schedule (loop_exec perform sleepMs) (replicate (length ws) (Thread t)) s = Some s'"
        "clockMs s' = clockMs s" "written s' = written s @ map (Pair t) ws" by blast
      with writes_of_append [of s' s t ws] 2 show ?thesis
        by (intro exI [of _ "replicate (length ws) (Thread t)"] exI [of _ s'] exI [of _ pre]) auto
    qed
  qed
qed

end

end
