(* ===== verification/TaskWorkshop.thy ===== *)
theory TaskWorkshop
  imports PeriodicLoop TaskFramework
begin

text \<open>
  The task workshop (\<^verbatim>\<open>ws-tasks/tasks-solutions\<close>): a thread that prints and sleeps, first as a plain
  function, then as an executable object, then as three objects run by periodic tasks of their own,
  and last the same objects given to the framework's task factory. The first three are instances
  of the periodic loop; starting a thread and joining it need no definition, since every thread
  may run from the start and none ends.
\<close>

section \<open>main-01: a thread\<close>

definition mySimpleTask :: "unit actor \<Rightarrow> unit loop_state \<Rightarrow> unit loop_state option" where
  "mySimpleTask = loop_exec (\<lambda>_. [''Hello World'', newline]) (\<lambda>_. 1000)"

interpretation simple_task: printing_loop "\<lambda>_ :: unit. [''Hello World'', newline]" "\<lambda>_. 1000" "\<lambda>_. ''Hello World''"
  by unfold_locales simp_all

section \<open>main-02: an executable object\<close>

record MyExecutableObject =
  delayMs :: uint32

definition performOperation :: "MyExecutableObject \<Rightarrow> string list" where
  "performOperation self = [''Hello World'', newline]"

definition executeTask :: "MyExecutableObject \<Rightarrow> unit actor \<Rightarrow> unit loop_state \<Rightarrow> unit loop_state option" where
  "executeTask self = loop_exec (\<lambda>_. performOperation self) (\<lambda>_. delayMs self)"

definition object_thread :: "unit actor \<Rightarrow> unit loop_state \<Rightarrow> unit loop_state option" where
  "object_thread = (let myExecutableObject = \<lparr>delayMs = 1000\<rparr> in executeTask myExecutableObject)"

text \<open>Moving the loop into an object changes nothing: both programs have the same executions.\<close>

lemma object_thread_is_simple_task: "object_thread = mySimpleTask"
  by (simp add: object_thread_def executeTask_def performOperation_def mySimpleTask_def)

lemma hello_lines_bounded:
  assumes "reachable_from (interleaved object_thread) (loop_start (\<lambda>_. [''Hello World'', newline])) s"
  shows "\<exists>n rest. writes_of t s = concat (replicate n [''Hello World'', newline]) @ rest
    \<and> (rest = [] \<or> rest = [''Hello World'']) \<and> n + length rest \<le> Suc (clockMs s div 1000)"
  using simple_task.lines_bounded [of s t] assms by (simp add: object_thread_is_simple_task mySimpleTask_def)

section \<open>main-03: periodic tasks\<close>

text \<open>The three classes that implement \<^verbatim>\<open>MyExecutableObjectIF\<close>.\<close>

datatype MyExecutableObjectIF = MyExecutableObject0 | MyExecutableObject1 | MyExecutableObject2

primrec IF_performOperation :: "MyExecutableObjectIF \<Rightarrow> string list" where
  "IF_performOperation MyExecutableObject0 = [''Task 0'', newline]"
| "IF_performOperation MyExecutableObject1 = [''Task 1'', newline]"
| "IF_performOperation MyExecutableObject2 = [''Task 2'', newline]"

record MyPeriodicTask =
  executable :: MyExecutableObjectIF
  taskFreqMs :: uint32

text \<open>Threads that run \<^verbatim>\<open>MyPeriodicTask::executeTask\<close>, one for each task.\<close>

definition periodic_executeTask ::
  "('t \<Rightarrow> MyPeriodicTask) \<Rightarrow> 't actor \<Rightarrow> 't loop_state \<Rightarrow> 't loop_state option" where
  "periodic_executeTask task =
     loop_exec (\<lambda>t. IF_performOperation (executable (task t))) (\<lambda>t. taskFreqMs (task t))"

datatype task_thread = Thread0 | Thread1 | Thread2

primrec main_task :: "task_thread \<Rightarrow> MyPeriodicTask" where
  "main_task Thread0 = \<lparr>executable = MyExecutableObject0, taskFreqMs = 1000\<rparr>"
| "main_task Thread1 = \<lparr>executable = MyExecutableObject1, taskFreqMs = 2000\<rparr>"
| "main_task Thread2 = \<lparr>executable = MyExecutableObject2, taskFreqMs = 5000\<rparr>"

definition tasks_exec :: "task_thread actor \<Rightarrow> task_thread loop_state \<Rightarrow> task_thread loop_state option" where
  "tasks_exec = periodic_executeTask main_task"

definition tasks_start :: "task_thread loop_state" where
  "tasks_start = loop_start (\<lambda>t. IF_performOperation (executable (main_task t)))"

primrec task_line :: "task_thread \<Rightarrow> string" where
  "task_line Thread0 = ''Task 0''"
| "task_line Thread1 = ''Task 1''"
| "task_line Thread2 = ''Task 2''"

primrec task_period :: "task_thread \<Rightarrow> nat" where
  "task_period Thread0 = 1000"
| "task_period Thread1 = 2000"
| "task_period Thread2 = 5000"

interpretation three_tasks: printing_loop
  "\<lambda>t. IF_performOperation (executable (main_task t))" "\<lambda>t. taskFreqMs (main_task t)" task_line
proof unfold_locales
  fix t
  show "IF_performOperation (executable (main_task t)) = [task_line t, newline]" by (cases t) simp_all
  show "0 < taskFreqMs (main_task t)" by (cases t) simp_all
qed

lemma task_period_freq: "unat (taskFreqMs (main_task t)) = task_period t"
  by (cases t) simp_all

section \<open>main-04: the framework's tasks\<close>

text \<open>
  The objects now implement the framework's interface; each operation also returns \<^verbatim>\<open>OK\<close>. A null
  pointer from the factory is dereferenced. \<open>prio\<close> is 0, or on Windows what
  \<^verbatim>\<open>makeWinPriority\<close> returns; the periods are 0.5 and 1.0.
\<close>

definition fsfw_performOperation :: "MyExecutableObjectIF \<Rightarrow> uint8 \<Rightarrow> string \<Rightarrow> (ReturnValue_t \<times> string) option" where
  "fsfw_performOperation obj opCode out =
     Some (OK, out @ (case obj of
       MyExecutableObject0 \<Rightarrow> ''Task 0'' | MyExecutableObject1 \<Rightarrow> ''Task 1'' | MyExecutableObject2 \<Rightarrow> ''Task 2'') @ newline)"

interpretation workshop_object: executable_object "fsfw_performOperation obj" "\<lambda>_. True" for obj
  by unfold_locales (simp_all add: fsfw_performOperation_def)

definition tasks_main :: "('p, MyExecutableObjectIF, 'f) task_if \<Rightarrow> int \<Rightarrow> 'f \<Rightarrow> 'f cxx" where
  "tasks_main F prio f =
     (case createPeriodicTask F ''TASK_0'' prio (MINIMUM_STACK_SIZE F) 0x3FE0000000000000 f of
        (periodicTask0, f1) \<Rightarrow>
          (case createPeriodicTask F ''TASK_1'' prio (MINIMUM_STACK_SIZE F) 0x3FF0000000000000 f1 of
             (periodicTask1, f2) \<Rightarrow>
               (case (periodicTask0, periodicTask1) of
                  (Some p0, Some p1) \<Rightarrow>
                    (let f3 = snd (addComponent F p0 MyExecutableObject0 f2);
                         f4 = snd (addComponent F p0 MyExecutableObject1 f3);
                         f5 = snd (addComponent F p1 MyExecutableObject2 f4);
                         f6 = snd (startTask F p0 f5)
                     in Some (snd (startTask F p1 f6)))
                | _ \<Rightarrow> None)))"

text \<open>One period of a task: every component performs its operation, in the order of adding.\<close>

primrec task_output :: "MyExecutableObjectIF list \<Rightarrow> string \<Rightarrow> string" where
  "task_output [] out = out"
| "task_output (c # cs) out =
     (case fsfw_performOperation c 0 out of None \<Rightarrow> out | Some (r, out') \<Rightarrow> task_output cs out')"

section \<open>Properties\<close>

text \<open>
  C33. No task runs too often and no text is lost or repeated: in every interleaving, what a task of
  main-03 has written is a sequence of its own whole lines, followed at most by the text of the line
  it is printing, and the number of these is at most one more than the periods that have passed.
\<close>

theorem periodic_lines_bounded:
  assumes "reachable_from (interleaved tasks_exec) tasks_start s"
  shows "\<exists>n rest. writes_of t s = concat (replicate n [task_line t, newline]) @ rest \<and> (rest = [] \<or> rest = [task_line t])
    \<and> n + length rest \<le> Suc (clockMs s div task_period t)"
  using three_tasks.lines_bounded [of s t] assms
  by (simp only: tasks_exec_def tasks_start_def periodic_executeTask_def task_period_freq)

lemmas loop_evals = tasks_exec_def periodic_executeTask_def loop_exec_def tasks_start_def loop_start_def at_point_def

theorem periodic_lines_bounded_witness:
  "\<exists>s n rest. run_schedule tasks_exec ([Thread Thread0, Thread Thread1, Thread Thread0]) tasks_start = Some s
     \<and> writes_of Thread1 s = concat (replicate n [''Task 1'', newline]) @ rest \<and> n + length rest \<le> 1"
proof -
  obtain s where s: "run_schedule tasks_exec ([Thread Thread0, Thread Thread1, Thread Thread0]) tasks_start = Some s"
    "clockMs s = 0"
    by (simp add: loop_evals)
  from periodic_lines_bounded [OF run_schedule_reachable [OF s(1)], of Thread1] s show ?thesis by auto
qed



text \<open>
  Without a mutex lines tear: the tasks of main-03 can print "Task 0" and "Task 1" on one line,
  followed by an empty line, although each of them has written exactly its own line.
\<close>

lemma unsynchronised_lines_tear:
  "\<exists>s. reachable_from (interleaved tasks_exec) tasks_start s \<and> console s = ''Task 0Task 1'' @ newline @ newline
     \<and> writes_of Thread0 s = [''Task 0'', newline] \<and> writes_of Thread1 s = [''Task 1'', newline]"
proof -
  obtain s where s: "run_schedule tasks_exec [Thread Thread0, Thread Thread1, Thread Thread0, Thread Thread1] tasks_start = Some s"
    "written s = [(Thread0, ''Task 0''), (Thread1, ''Task 1''), (Thread0, newline), (Thread1, newline)]"
    by (simp add: loop_evals)
  from run_schedule_reachable [OF s(1)] s(2) show ?thesis
    by (intro exI [of _ s]) (simp add: console_def writes_of_def)
qed

text \<open>
  The framework's tasks are complete when they start: main-04 creates two new tasks with
  different pointers, gives the first two objects to the task of 0.5 s and the third to the task of
  1.0 s, starts both, and touches no other task; one period prints the lines in the order of adding.
\<close>

lemma tasks_main_setup:
  assumes "task_laws F (\<lambda>_. True) tasks" and "creates_tasks F"
  shows "\<exists>f' p0 p1. tasks_main F prio f = Some f' \<and> p0 \<noteq> p1 \<and> tasks f p0 = None \<and> tasks f p1 = None
    \<and> tasks f' = (tasks f)
      (p0 \<mapsto> \<lparr>taskName = ''TASK_0'', taskPeriod = 0x3FE0000000000000,
         taskComponents = [MyExecutableObject0, MyExecutableObject1], taskStarted = True\<rparr>,
       p1 \<mapsto> \<lparr>taskName = ''TASK_1'', taskPeriod = 0x3FF0000000000000,
         taskComponents = [MyExecutableObject2], taskStarted = True\<rparr>)
    \<and> task_output [MyExecutableObject0, MyExecutableObject1] out = out @ ''Task 0'' @ newline @ ''Task 1'' @ newline"
proof -
  note L = assms(1)
  obtain p0 f1 where c0: "createPeriodicTask F ''TASK_0'' prio (MINIMUM_STACK_SIZE F) 0x3FE0000000000000 f = (Some p0, f1)"
    using assms(2) by (rule creates_tasksE)
  obtain p1 f2 where c1: "createPeriodicTask F ''TASK_1'' prio (MINIMUM_STACK_SIZE F) 0x3FF0000000000000 f1 = (Some p1, f2)"
    using assms(2) by (rule creates_tasksE)
  note t0 = task_laws_create [OF L c0] and t1 = task_laws_create [OF L c1]
  from t0 t1 have ne: "p0 \<noteq> p1" "tasks f p1 = None" by (auto split: if_splits)
  note eqs = task_laws_add [OF L] task_laws_start [OF L] t0(2) t1(2)
  have "task_output [MyExecutableObject0, MyExecutableObject1] out = out @ ''Task 0'' @ newline @ ''Task 1'' @ newline"
    by (simp add: fsfw_performOperation_def)
  moreover have "\<exists>f'. tasks_main F prio f = Some f' \<and> tasks f' = (tasks f)
      (p0 \<mapsto> \<lparr>taskName = ''TASK_0'', taskPeriod = 0x3FE0000000000000,
         taskComponents = [MyExecutableObject0, MyExecutableObject1], taskStarted = True\<rparr>,
       p1 \<mapsto> \<lparr>taskName = ''TASK_1'', taskPeriod = 0x3FF0000000000000,
         taskComponents = [MyExecutableObject2], taskStarted = True\<rparr>)"
    unfolding tasks_main_def c0 prod.case c1 option.case Let_def
    using ne by (simp add: eqs fun_upd_twist)
  ultimately show ?thesis using t0(1) ne by blast
qed

lemma tasks_main_setup_witness:
  "\<exists>f'. tasks_main (sample_task_if (\<lambda>_. True)) 0 [] = Some f' \<and> list_tasks f' \<noteq> Map.empty"
  using tasks_main_setup [OF sample_task_laws sample_creates_tasks, of 0 "[]" "[]"] by auto

end
