(* ===== verification/ObjectWorkshop.thy ===== *)
theory ObjectWorkshop
  imports TaskFramework
begin

text \<open>
  The object workshop (\<^verbatim>\<open>ws-objects/objects-solutions\<close>): a system object used directly, then through
  the object manager, then as the component of a periodic task. A system object is the id its
  constructor passes to \<^verbatim>\<open>SystemObject\<close>; the object manager and the task factory are arguments. The
  program's output is threaded through as a string; dereferencing the null pointer that a failed
  lookup returns is undefined behaviour.
\<close>

section \<open>Printing an object id\<close>

text \<open>\<^verbatim>\<open>setfill('0') << hex << setw(n)\<close>\<close>

definition setw0 :: "nat \<Rightarrow> string \<Rightarrow> string" where
  "setw0 n s = replicate (n - length s) (CHR ''0'') @ s"

definition print_object_id :: "object_id_t \<Rightarrow> string" where
  "print_object_id i = ''Object ID: '' @ ''0x'' @ setw0 8 (print_x (unat i)) @ newline"

definition hex_value :: "string \<Rightarrow> nat" where
  "hex_value s = foldl (\<lambda>n c. 16 * n + hex_val c) 0 s"

lemma hex_value_print_x: "hex_value (print_x n) = n"
proof (induction n rule: print_x.induct)
  case (1 n)
  then show ?case by (subst print_x.simps) (auto simp: hex_value_def)
qed

lemma hex_value_zeros: "hex_value (replicate k (CHR ''0'') @ s) = hex_value s"
proof -
  have "hex_val (CHR ''0'') = 0" by (simp add: hex_val_def Let_def)
  then have "foldl (\<lambda>n c. 16 * n + hex_val c) 0 (replicate k (CHR ''0'')) = 0" by (induction k) simp_all
  then show ?thesis by (simp add: hex_value_def)
qed

lemma length_print_x: "n < 16 ^ Suc k \<Longrightarrow> length (print_x n) \<le> Suc k"
proof (induction k arbitrary: n)
  case 0
  then show ?case by (simp add: print_x.simps [of n])
next
  case (Suc k)
  then have "n div 16 < 16 ^ Suc k" by (simp add: div_less_iff_less_mult mult.commute)
  with Suc.IH [of "n div 16"] show ?case by (simp add: print_x.simps [of n])
qed

text \<open>An id is printed with eight digits and can be read back.\<close>

lemma object_id_digits:
  fixes i :: object_id_t
  shows "length (setw0 8 (print_x (unat i))) = 8" and "word_of_nat (hex_value (setw0 8 (print_x (unat i)))) = i"
proof -
  have "unat i < 16 ^ Suc 7" using unsigned_less [of i, where ?'a = nat] by simp
  from length_print_x [OF this] show "length (setw0 8 (print_x (unat i))) = 8" by (simp add: setw0_def)
  show "word_of_nat (hex_value (setw0 8 (print_x (unat i)))) = i"
    by (simp add: setw0_def hex_value_zeros hex_value_print_x)
qed

section \<open>main-01 and main-02: a system object\<close>

record MySystemObject =
  sysObjectId :: object_id_t

definition new_MySystemObject :: MySystemObject where
  "new_MySystemObject = \<lparr>sysObjectId = 0x10101010\<rparr>"

definition sys_initialize :: "MySystemObject \<Rightarrow> string \<Rightarrow> ReturnValue_t \<times> string" where
  "sys_initialize self out = (OK, out @ ''MySystemObject::initialize: Custom init'' @ newline)"

text \<open>The object of main-01 is not registered, and deleted at the end.\<close>

definition objects_main01 :: "string \<Rightarrow> int \<times> string" where
  "objects_main01 out =
     (let mySysObj = new_MySystemObject;
          out1 = out @ print_object_id (sysObjectId mySysObj);
          out2 = snd (sys_initialize mySysObj out1)
      in (0, out2))"

definition objects_main02 ::
  "(MySystemObject, 'm, string) object_manager_if \<Rightarrow> 'm \<Rightarrow> string \<Rightarrow> (int \<times> 'm \<times> string) cxx" where
  "objects_main02 OM m out =
     (let ob = new_MySystemObject;
          m1 = om_insert OM (sysObjectId ob) ob m;
          out1 = om_initialize OM sys_initialize m1 out
      in case om_get OM 0x10101010 m1 of
           None \<Rightarrow> None
         | Some mySysObj \<Rightarrow> Some (0, m1, out1 @ print_object_id (sysObjectId mySysObj)))"

section \<open>main-03: an object in a task\<close>

definition TEST_OBJECT :: object_id_t where
  "TEST_OBJECT = 0x10101010"

record MyObject =
  myObjectId :: object_id_t

definition new_MyObject :: "object_id_t \<Rightarrow> MyObject" where
  "new_MyObject objectId = \<lparr>myObjectId = objectId\<rparr>"

definition obj_performOperation :: "MyObject \<Rightarrow> uint8 \<Rightarrow> string \<Rightarrow> (ReturnValue_t \<times> string) option" where
  "obj_performOperation self opCode out = Some (OK, out @ ''MyObject::performOperation: Periodic handling'' @ newline)"

definition obj_initialize :: "MyObject \<Rightarrow> string \<Rightarrow> ReturnValue_t \<times> string" where
  "obj_initialize self out = (OK, out @ ''MyObject::initialize: Custom init'' @ newline)"

interpretation my_object: executable_object "obj_performOperation self" "\<lambda>_. True" for self
  by unfold_locales (simp_all add: obj_performOperation_def)

text \<open>Up to the endless loop that only sleeps.\<close>

definition objects_main03 ::
  "(MyObject, 'm, string) object_manager_if \<Rightarrow> ('p, object_id_t, 'f) task_if \<Rightarrow> int \<Rightarrow> 'm \<Rightarrow> 'f \<Rightarrow> string \<Rightarrow>
   ('m \<times> 'f \<times> string) cxx" where
  "objects_main03 OM F prio m f out =
     (let ob = new_MyObject TEST_OBJECT;
          m1 = om_insert OM (myObjectId ob) ob m;
          out1 = om_initialize OM obj_initialize m1 out
      in case om_get OM TEST_OBJECT m1 of
           None \<Rightarrow> None
         | Some mySysObj \<Rightarrow>
             (let out2 = out1 @ print_object_id (myObjectId mySysObj)
              in case createPeriodicTask F ''TEST_TASK'' prio (MINIMUM_STACK_SIZE F) 0x3FF0000000000000 f of
                   (None, f1) \<Rightarrow> None
                 | (Some p, f1) \<Rightarrow>
                     (let f2 = snd (addComponent F p TEST_OBJECT f1)
                      in Some (m1, snd (startTask F p f2), out2))))"

section \<open>Properties\<close>

lemma printed_id: "print_object_id 0x10101010 = ''Object ID: 0x10101010'' @ newline"
  by (simp add: print_object_id_def setw0_def print_x.simps hex_digit_def char_of_def bit_0)

text \<open>
  The order of the two lines differs between the first two programs: the first prints the id before
  it initialises, in the second the object manager initialises first.
\<close>

lemma objects_main01_prints:
  "objects_main01 out = (0, out @ ''Object ID: 0x10101010'' @ newline @ ''MySystemObject::initialize: Custom init'' @ newline)"
  by (simp add: objects_main01_def new_MySystemObject_def printed_id sys_initialize_def)

lemma objects_main02_prints:
  assumes "manager_laws OM registered" and "registered m = (\<lambda>_. None)"
  shows "\<exists>m'. objects_main02 OM m out =
    Some (0, m', out @ ''MySystemObject::initialize: Custom init'' @ newline @ ''Object ID: 0x10101010'' @ newline)"
  by (simp add: objects_main02_def new_MySystemObject_def manager_laws_single [OF assms] printed_id sys_initialize_def)

lemma obj_periods:
  "run_periods (obj_performOperation self) n out =
   Some (replicate n OK, out @ concat (replicate n (''MyObject::performOperation: Periodic handling'' @ newline)))"
  by (induction n arbitrary: out) (simp_all add: obj_performOperation_def)

text \<open>
  C35. The object workshop's last program, on an empty object manager: the lookup finds the object,
  so nothing null is dereferenced; the object is initialised before its id is printed; exactly one
  new task exists, started, with the object as its only component; and each of its periods returns
  \<^verbatim>\<open>OK\<close> and prints one line.
\<close>

theorem objects_main03_runs:
  assumes "manager_laws OM registered" and "registered m = (\<lambda>_. None)"
    and "task_laws F (\<lambda>i. registered (om_insert OM TEST_OBJECT (new_MyObject TEST_OBJECT) m) i \<noteq> None) tasks"
    and "creates_tasks F"
  shows "\<exists>m' f' p. objects_main03 OM F prio m f out =
      Some (m', f', out @ ''MyObject::initialize: Custom init'' @ newline @ ''Object ID: 0x10101010'' @ newline)
    \<and> tasks f p = None
    \<and> tasks f' = (tasks f)(p \<mapsto> \<lparr>taskName = ''TEST_TASK'', taskPeriod = 0x3FF0000000000000,
        taskComponents = [TEST_OBJECT], taskStarted = True\<rparr>)
    \<and> run_periods (obj_performOperation (new_MyObject TEST_OBJECT)) n out =
        Some (replicate n OK, out @ concat (replicate n (''MyObject::performOperation: Periodic handling'' @ newline)))"
proof -
  obtain p f1 where c: "createPeriodicTask F ''TEST_TASK'' prio (MINIMUM_STACK_SIZE F) 0x3FF0000000000000 f = (Some p, f1)"
    using assms(4) by (rule creates_tasksE)
  note t = task_laws_create [OF assms(3) c] and single = manager_laws_single [OF assms(1,2)]
  have reg: "registered (om_insert OM TEST_OBJECT (new_MyObject TEST_OBJECT) m) TEST_OBJECT \<noteq> None"
    using single(1) [of TEST_OBJECT "new_MyObject TEST_OBJECT"] assms(1) unfolding manager_laws_def by simp
  let ?m = "om_insert OM TEST_OBJECT (new_MyObject TEST_OBJECT) m"
  let ?f = "snd (startTask F p (snd (addComponent F p TEST_OBJECT f1)))"
  have "objects_main03 OM F prio m f out =
      Some (?m, ?f, out @ ''MyObject::initialize: Custom init'' @ newline @ ''Object ID: 0x10101010'' @ newline)"
    by (simp add: objects_main03_def new_MyObject_def single c obj_initialize_def)
      (simp add: TEST_OBJECT_def printed_id)
  moreover have "tasks ?f = (tasks f)(p \<mapsto> \<lparr>taskName = ''TEST_TASK'', taskPeriod = 0x3FF0000000000000,
      taskComponents = [TEST_OBJECT], taskStarted = True\<rparr>)"
    using reg by (simp add: task_laws_add [OF assms(3)] task_laws_start [OF assms(3)] t(2))
  ultimately show ?thesis using t(1) obj_periods by blast
qed

theorem objects_main03_runs_witness:
  "\<exists>m' f'. objects_main03 sample_manager (sample_task_if (\<lambda>i. i = TEST_OBJECT)) 0 [] [] '''' =
     Some (m', f', ''MyObject::initialize: Custom init'' @ newline @ ''Object ID: 0x10101010'' @ newline)"
proof -
  have e: "map_of [] = (\<lambda>_. None)" by simp
  have v: "(\<lambda>i. map_of (om_insert sample_manager TEST_OBJECT (new_MyObject TEST_OBJECT) []) i \<noteq> None) = (\<lambda>i. i = TEST_OBJECT)"
    by (auto simp: sample_manager_def)
  have "task_laws (sample_task_if (\<lambda>i. i = TEST_OBJECT))
      (\<lambda>i. map_of (om_insert sample_manager TEST_OBJECT (new_MyObject TEST_OBJECT) []) i \<noteq> None) list_tasks"
    unfolding v by (rule sample_task_laws)
  from objects_main03_runs [OF sample_manager_laws e this sample_creates_tasks, of 0 "[]" "''''" 0] show ?thesis by auto
qed

end
