(* ===== verification/CommandRegistry.thy ===== *)
theory CommandRegistry
  imports HandlerProperties
begin

text \<open>
  The ids that cross the interface between the handler and its base class. The base class accepts a
  command or a reply only if its id is in the map that \<^verbatim>\<open>fillCommandAndReplyMap\<close> filled; \<open>known b\<close> are
  the ids in the map of the base-class state \<open>b\<close>. The documented behaviour is \<open>registry_laws\<close>:
  inserting adds an id, and no other call of the handler takes one away.
\<close>

definition registry_laws :: "('b, 'm, 'w) device_handler_base \<Rightarrow> ('b \<Rightarrow> DeviceCommandId_t set) \<Rightarrow> bool" where
  "registry_laws F known \<longleftrightarrow>
     (\<forall>i n b. known (snd (insertInCommandAndReplyMap F i n b)) = insert i (known b)) \<and>
     (\<forall>m b. known (setMode F m b) = known b) \<and>
     (\<forall>d p w v k b. known (snd (snd (base_getParameter F d p w v k b))) = known b)"

definition command_ids :: "DeviceCommandId_t set" where
  "command_ids = {TAKE_SNAPSHOT, SET_FRAME_RATE, GET_FRAME_RATE}"

lemma fill_registers:
  assumes "registry_laws F known"
  shows "known (base (fillCommandAndReplyMap F h)) = known (base h) \<union> command_ids"
  using assms by (auto simp: registry_laws_def fillCommandAndReplyMap_def Let_def command_ids_def)

text \<open>One lemma per group of calls: what a call does to the base-class state.\<close>

lemma base_unchanged:
  "buildTransitionDeviceCommand F cmd h = (r, cmd', h') \<Longrightarrow> base h' = base h"
  "buildNormalDeviceCommand F cmd h = (r, cmd', h') \<Longrightarrow> base h' = base h"
  "buildCommandFromCommand e i bs len h = Some (r, h') \<Longrightarrow> base h' = base h"
  "pollReply F h = (found, h') \<Longrightarrow> base h' = base h"
  by (auto simp: buildTransitionDeviceCommand_def buildNormalDeviceCommand_def prepareReply_def Let_def split: if_splits)
    (auto simp: buildCommandFromCommand_def pollReply_def scanForReply_def interpretDeviceReply_def printInfo_def Let_def
      split: if_splits option.splits)

lemma getParameter_registry:
  assumes "registry_laws F known" and "getParameter F d p w v k h = (r, w', h')"
  shows "known (base h') = known (base h)"
proof -
  have "known b' = known b" if "base_getParameter F d p w v k b = (r', w'', b')" for b r' w'' b'
    using assms(1) that unfolding registry_laws_def by (metis snd_conv)
  with assms(2) show ?thesis
    by (auto simp: getParameter_def printInfo_def Let_def split: if_splits option.splits prod.splits)
qed

lemma cycle_step_registry:
  assumes "cycle_step F e h h'" and "registry_laws F known"
  shows "known (base h) \<subseteq> known (base h')"
  using assms
proof (induction rule: cycle_step.induct)
  case (fill_maps h)
  then show ?case by (simp add: fill_registers)
next
  case (parameter d p w v k h r w' h')
  then show ?case by (simp add: getParameter_registry)
qed (auto simp: base_unchanged doStartUp_def doShutDown_def registry_laws_def)

interpretation registered: invariant_system "cycle_step F e" "\<lambda>h. registry_laws F known \<longrightarrow> command_ids \<subseteq> known (base h)"
  for F e known
  by unfold_locales (auto dest: cycle_step_registry)

lemma reachable_registered:
  assumes "registry_laws F known"
    and "reachable_from (cycle_step F e) (fillCommandAndReplyMap F (new_WebcamDeviceHandler F comIF b)) h"
  shows "command_ids \<subseteq> known (base h)" and "handler_inv F h"
proof -
  let ?h0 = "fillCommandAndReplyMap F (new_WebcamDeviceHandler F comIF b)"
  have "registry_laws F known \<longrightarrow> command_ids \<subseteq> known (base ?h0)" by (simp add: fill_registers)
  with registered.reachable_inv [OF assms(2)] assms(1) show "command_ids \<subseteq> known (base h)" by blast
  have "handler_inv F ?h0" by (simp add: fillCommandAndReplyMap_def Let_def new_handler_inv)
  with handler_cycles.reachable_inv [OF assms(2)] show "handler_inv F h" by blast
qed

text \<open>
  C36. Only registered ids cross the interface: once \<^verbatim>\<open>fillCommandAndReplyMap\<close> has run, in every state
  that the framework's calls can reach, every command that the handler builds and every reply that
  it reports has an id in the base class's map, and it is never the id reserved for "no command".
\<close>

theorem only_registered_ids:
  assumes "registry_laws F known" and "no_command_reserved F"
    and "reachable_from (cycle_step F e) (fillCommandAndReplyMap F (new_WebcamDeviceHandler F comIF b)) h"
  shows "(buildNormalDeviceCommand F cmd h = (OK, Some i, h') \<longrightarrow> i \<in> known (base h') \<and> i \<noteq> NO_COMMAND_ID F)
    \<and> (scanForReply F (Some j) len h = (OK, Some i, len', h') \<longrightarrow> i \<in> known (base h') \<and> i \<noteq> NO_COMMAND_ID F)"
proof -
  note reach = reachable_registered [OF assms(1,3)]
  have ids: "i \<in> known (base h) \<and> i \<noteq> NO_COMMAND_ID F" if "i \<in> command_ids"
    using that reach(1) assms(2) by (auto simp: no_command_reserved_def command_ids_def)
  have "i \<in> command_ids \<and> base h' = base h" if "buildNormalDeviceCommand F cmd h = (OK, Some i, h')"
    using that base_unchanged(2) [OF that]
    by (auto simp: buildNormalDeviceCommand_def Let_def command_ids_def split: if_splits)
  moreover have "i \<in> command_ids \<and> base h' = base h" if "scanForReply F (Some j) len h = (OK, Some i, len', h')"
    using that reach(2) by (auto simp: scanForReply_def handler_inv_def command_ids_def split: if_splits)
  ultimately show ?thesis using ids by auto
qed

text \<open>A base class that keeps its map as a list of ids.\<close>

definition registry_base :: "(DeviceCommandId_t list, sample_message, double) device_handler_base" where
  "registry_base =
     \<lparr> NO_COMMAND_ID = 0xFFFFFFFE, MODE_ON = 1, MODE_OFF = 0,
       setMode = (\<lambda>m b. b), insertInCommandAndReplyMap = (\<lambda>i n b. (OK, i # b)),
       base_getParameter = (\<lambda>d p w v k b. (Code 9, w, b)),
       base_letChildHandleMessage = (\<lambda>m b. (FAILED, m, b)),
       replyReturnvalueToCommand = (\<lambda>r b. b),
       wrapper_set = (\<lambda>d w. d), wrapper_getElement = (\<lambda>w. (OK, w)) \<rparr>"

lemma registry_base_laws: "registry_laws registry_base set" "no_command_reserved registry_base"
  by (simp_all add: registry_laws_def registry_base_def no_command_reserved_def id_defs)

theorem only_registered_ids_witness:
  "\<exists>h h'. reachable_from (cycle_step registry_base Little_Endian)
       (fillCommandAndReplyMap registry_base (new_WebcamDeviceHandler registry_base (Some 1) [])) h
     \<and> buildNormalDeviceCommand registry_base (Some 0) h = (OK, Some TAKE_SNAPSHOT, h') \<and> TAKE_SNAPSHOT \<in> set (base h')"
proof -
  let ?g = "fillCommandAndReplyMap registry_base (new_WebcamDeviceHandler registry_base (Some 1) [])"
  let ?h = "?g\<lparr>snapshotRequested := True\<rparr>"
  have "buildCommandFromCommand Little_Endian TAKE_SNAPSHOT None 0 ?g = Some (OK, ?h)"
    by (simp add: buildCommandFromCommand_def Let_def)
  then have r: "reachable_from (cycle_step registry_base Little_Endian) ?g ?h"
    by (intro reach_step [OF reach_start]) (rule cycle_step.command)
  have "communicationInterface ?h = Some 1"
    by (simp add: fillCommandAndReplyMap_def new_WebcamDeviceHandler_def Let_def)
  then obtain h' where b: "buildNormalDeviceCommand registry_base (Some 0) ?h = (OK, Some TAKE_SNAPSHOT, h')"
    by (simp add: buildNormalDeviceCommand_def Let_def)
  with only_registered_ids [OF registry_base_laws r] r show ?thesis by blast
qed

end
