(* ===== verification/HandlerOutput.thy ===== *)
theory HandlerOutput
  imports DutyCycles PrintDouble
begin

text \<open>
  The text of the lines the device handler prints, for both output back ends that the sources
  provide: \<^verbatim>\<open>sif::printInfo\<close> with a format, and the stream \<^verbatim>\<open>sif::info\<close>. The configuration
  (\<^verbatim>\<open>FSFWConfig.h\<close>) selects the first.
\<close>

section \<open>The two back ends\<close>

definition FSFW_CPP_OSTREAM_ENABLED :: nat where
  "FSFW_CPP_OSTREAM_ENABLED = 0"

primrec info_printf :: "info \<Rightarrow> string" where
  "info_printf SnapshotCompleted = ''[Webcam] Snapshot request completed.'' @ newline"
| "info_printf (FrameRateSet d) = ''[Webcam] Frame rate set to '' @ print_f2 d @ '' fps.'' @ newline"
| "info_printf (CurrentFrameRate d) = ''[Webcam] Current frame rate is '' @ print_f2 d @ '' fps.'' @ newline"
| "info_printf (ReplyReceived i) = ''[Webcam] Reply received for command 0x'' @ print_02x (unat i) @ ''.'' @ newline"
| "info_printf (ParameterRead d) = ''[Webcam] Parameter read: frame rate '' @ print_f2 d @ '' fps.'' @ newline"
| "info_printf (ParameterWrite d) = ''[Webcam] Parameter write: requested frame rate '' @ print_f2 d @ '' fps.'' @ newline"

text \<open>
  The insertions into the stream one by one. \<^verbatim>\<open>fixed\<close> with \<^verbatim>\<open>setprecision(2)\<close> formats as \<^verbatim>\<open>%.2f\<close>;
  \<^verbatim>\<open>hex\<close> prints no leading zeros.
\<close>

primrec info_stream :: "info \<Rightarrow> string list" where
  "info_stream SnapshotCompleted = [''[Webcam] Snapshot request completed.'', newline]"
| "info_stream (FrameRateSet d) = [''[Webcam] Frame rate set to '', print_f2 d, '' fps.'', newline]"
| "info_stream (CurrentFrameRate d) = [''[Webcam] Current frame rate is '', print_f2 d, '' fps.'', newline]"
| "info_stream (ReplyReceived i) = [''[Webcam] Reply received for command 0x'', print_x (unat i), ''.'', newline]"
| "info_stream (ParameterRead d) = [''[Webcam] Parameter read: frame rate '', print_f2 d, '' fps.'', newline]"
| "info_stream (ParameterWrite d) = [''[Webcam] Parameter write: requested frame rate '', print_f2 d, '' fps.'', newline]"

definition info_text :: "info \<Rightarrow> string" where
  "info_text i = (if FSFW_CPP_OSTREAM_ENABLED = 1 then concat (info_stream i) else info_printf i)"

definition handler_console :: "'b WebcamDeviceHandler \<Rightarrow> string" where
  "handler_console h = concat (map info_text (infoLog h))"

section \<open>Properties\<close>

lemma print_x_padded: "print_x n = print_02x n \<longleftrightarrow> 16 \<le> n"
  by (simp add: print_02x_def)

text \<open>
  C37. Which back end is selected makes no difference to what a session prints: both give the same
  text for every line, except that a reply to an unknown command with an id below 16 is printed
  with a leading zero by one and without it by the other; no reply that the handler fabricates is
  of this kind.
\<close>

theorem output_backends_agree:
  "(concat (info_stream i) = info_printf i \<longleftrightarrow> (\<forall>r. i = ReplyReceived r \<longrightarrow> 16 \<le> r))
   \<and> (c \<in> {TAKE_SNAPSHOT, SET_FRAME_RATE, GET_FRAME_RATE} \<longrightarrow>
        concat (info_stream (reply_info c d)) = info_printf (reply_info c d))"
proof
  have le: "(16 :: uint32) \<le> r \<longleftrightarrow> 16 \<le> unat r" for r by (simp add: word_le_nat_alt)
  show "concat (info_stream i) = info_printf i \<longleftrightarrow> (\<forall>r. i = ReplyReceived r \<longrightarrow> 16 \<le> r)"
    by (cases i) (simp_all add: le print_x_padded)
  show "c \<in> {TAKE_SNAPSHOT, SET_FRAME_RATE, GET_FRAME_RATE} \<longrightarrow>
        concat (info_stream (reply_info c d)) = info_printf (reply_info c d)"
    by (auto simp: reply_info_def)
qed

theorem output_backends_agree_witness:
  "concat (info_stream (reply_info SET_FRAME_RATE 0x4038000000000000)) = ''[Webcam] Frame rate set to 24.00 fps.'' @ newline
   \<and> concat (info_stream (ReplyReceived 5)) \<noteq> info_printf (ReplyReceived 5)"
proof
  show "concat (info_stream (reply_info SET_FRAME_RATE 0x4038000000000000)) = ''[Webcam] Frame rate set to 24.00 fps.'' @ newline"
    using output_backends_agree [of SnapshotCompleted SET_FRAME_RATE "0x4038000000000000"]
    by (simp add: reply_info_def print_f2_24)
  show "concat (info_stream (ReplyReceived 5)) \<noteq> info_printf (ReplyReceived 5)"
    using output_backends_agree [of "ReplyReceived 5"] by simp
qed



end
