(* ===== verification/Uplink.thy ===== *)
theory Uplink
  imports DutyCycles ServiceProperties
begin

text \<open>
  From telecommand to device command: the commanding service and the device handler together. The
  action helper between them is framework code; its documented behaviour is \<open>delivers_actions\<close>.
\<close>

section \<open>From telecommand to device command\<close>

text \<open>
  Documented behaviour of the framework's action helper for a device handler: given an action
  message whose store id names an element of the IPC store, it hands the action id and the
  element's bytes to \<^verbatim>\<open>buildCommandFromCommand\<close> and returns \<^verbatim>\<open>OK\<close> when that does. It may also
  change the base-class part of the object.
\<close>

definition delivers_actions ::
  "'m message_if \<Rightarrow> 's storage_if \<Rightarrow> byte_order \<Rightarrow>
   ('s \<Rightarrow> 'm \<Rightarrow> 'b WebcamDeviceHandler \<Rightarrow> ReturnValue_t \<times> 'b WebcamDeviceHandler) \<Rightarrow> bool" where
  "delivers_actions M S e handleActionMessage \<longleftrightarrow>
     (\<forall>s m h bs h'.
        getData S (action_getStoreId M m) s = (OK, bs) \<longrightarrow>
        buildCommandFromCommand e (action_getActionId M m) (Some bs) (length bs) h = Some (OK, h') \<longrightarrow>
        (\<exists>b. handleActionMessage s m h = (OK, h'\<lparr>base := b\<rparr>)))"

text \<open>
  A telecommand on its way: the service prepares the message, which the handler then treats.
  The result is that of the first step that fails.
\<close>

definition uplink ::
  "'m message_if \<Rightarrow> 's storage_if \<Rightarrow> ('b, 'm, 'w) device_handler_base \<Rightarrow>
   ('s \<Rightarrow> 'm \<Rightarrow> 'b WebcamDeviceHandler \<Rightarrow> ReturnValue_t \<times> 'b WebcamDeviceHandler) \<Rightarrow> 'm \<Rightarrow>
   uint8 \<times> uint8 list option \<times> nat \<Rightarrow> ('s, 't) WebcamCommandingService \<times> 'b WebcamDeviceHandler \<Rightarrow>
   (ReturnValue_t \<times> ('s, 't) WebcamCommandingService \<times> 'b WebcamDeviceHandler) cxx" where
  "uplink M S F handleActionMessage m = (\<lambda>(subservice, tcData, tcDataLen) (st, h).
     case prepareCommand M S m subservice tcData tcDataLen st of
       None \<Rightarrow> None
     | Some (r, m', st') \<Rightarrow>
         if r \<noteq> OK then Some (r, st', h)
         else (case ipcStore st' of
                 None \<Rightarrow> Some (FAILED, st', h)
               | Some s' \<Rightarrow>
                   (case letChildHandleMessage M F (handleActionMessage s') (Some m') h of
                      (r', m'', h') \<Rightarrow> Some (r', st', h'))))"

definition command_of_subservice :: "uint8 \<Rightarrow> CommandId" where
  "command_of_subservice sub =
     (if sub = 1 then commandTakeSnapshot else if sub = 2 then commandSetFrameRate else commandGetFrameRate)"

lemma prepareCommand_device:
  assumes "sub \<in> {1, 2, 3}"
  shows "prepareCommand M S m sub d n st = prepareDeviceCommand M S m (command_of_subservice sub) d n st"
  using assms by (auto simp: prepareCommand_def subservice_defs command_of_subservice_def)

lemma command_raw_of_subservice:
  assumes "sub \<in> {1, 2, 3}"
  shows "commandToRaw (command_of_subservice sub) = ucast sub"
    and "fst (rawToCommand (ucast sub) c0)"
    and "(ucast (ucast (commandToRaw (command_of_subservice sub)) :: uint8) :: uint16) = ucast sub"
    and "(ucast sub :: DeviceCommandId_t) \<in> {TAKE_SNAPSHOT, SET_FRAME_RATE, GET_FRAME_RATE}"
  using assms by (auto simp: command_of_subservice_def commandToRaw_def rawToCommand_def isValidCommand_def Let_def id_defs)

text \<open>The handler's part: a message for a stored payload posts the request.\<close>

lemma letChildHandleMessage_posts:
  fixes sub :: uint8
  assumes M: "message_laws M" and del: "delivers_actions M S e ham"
    and t: "getMessageType M m = DEVICE_HANDLER_COMMAND M" and low: "getCommand M m AND 0xff = ucast sub"
    and sub: "sub \<in> {1, 2, 3}" and data: "getData S (getMsgParameter M m) s = (OK, bs)"
  shows "\<exists>m' h' b. letChildHandleMessage M F (ham s) (Some m) h = (OK, m', h'\<lparr>base := b\<rparr>)
    \<and> buildCommandFromCommand e (ucast sub) (Some bs) (length bs) h = Some (OK, h')"
proof -
  have "readable (Some bs) (length bs)" by simp
  from buildCommandFromCommand_defined [OF this, of e "ucast sub" h] obtain r h'
    where b: "buildCommandFromCommand e (ucast sub) (Some bs) (length bs) h = Some (r, h')" by fastforce
  have r: "r = OK" using buildCommandFromCommand_post(2) [OF b] command_raw_of_subservice(4) [OF sub] by simp
  let ?m' = "action_setCommand M (ucast sub) (getMsgParameter M m) m"
  have "action_getStoreId M ?m' = getMsgParameter M m" "action_getActionId M ?m' = ucast sub"
    by (simp_all add: message_lawsD [OF M])
  then obtain b' where "ham s ?m' h = (OK, h'\<lparr>base := b'\<rparr>)"
    using del data b r unfolding delivers_actions_def by metis
  moreover have "(ucast (ucast sub :: uint16) :: uint8) = sub" by (rule ucast_8_16_8)
  ultimately have "letChildHandleMessage M F (ham s) (Some m) h = (OK, Some ?m', h'\<lparr>base := b'\<rparr>)"
    using t low command_raw_of_subservice(2) [OF sub, of "CommandId 0"] by (simp add: letChildHandleMessage_def Let_def)
  with b r show ?thesis by blast
qed

lemma buildCommandFromCommand_frame:
  assumes "buildCommandFromCommand e i d n h = Some (r, h')"
  shows "infoLog h' = infoLog h" "communicationInterface h' = communicationInterface h" "replyReady h' = replyReady h"
  using assms by (auto simp: buildCommandFromCommand_def Let_def split: if_splits option.splits)

text \<open>Both parts: an accepted telecommand posts its request and stores its payload.\<close>

lemma uplink_posts:
  fixes sub :: uint8
  assumes S: "storage_laws S elems" and M: "message_laws M" and del: "delivers_actions M S e ham"
    and st: "ipcStore st = Some s" and sub: "sub \<in> {1, 2, 3}" and rd: "readable tcData len"
    and v: "valid_payload (command_of_subservice sub) tcData len"
    and free: "fst (getFreeElement S (length (stored_payload (command_of_subservice sub) tcData)) s) = OK"
  shows "\<exists>st' h'. uplink M S F ham m (sub, tcData, len) (st, h) = Some (OK, st', h')
    \<and> mailbox_of h' = mailbox_post (ucast sub) (payload_rate e tcData len) (mailbox_of h)
    \<and> infoLog h' = infoLog h \<and> communicationInterface h' = communicationInterface h
    \<and> replyReady h' = replyReady h \<and> (handler_inv F h \<longrightarrow> handler_inv F h') \<and> (\<exists>s'. ipcStore st' = Some s')"
proof -
  let ?c = "command_of_subservice sub"
  let ?bs = "stored_payload ?c tcData"
  from prepareDeviceCommand_stored [OF S M st rd v free, of m] obtain m' s' a
    where p: "prepareDeviceCommand M S m ?c tcData len st = Some (OK, m', st\<lparr>ipcStore := Some s'\<rparr>)"
      and d: "getData S (getMsgParameter M m') s' = (OK, ?bs)"
      and t: "getMessageType M m' = DEVICE_HANDLER_COMMAND M"
      and low: "getCommand M m' AND 0xff = ucast sub"
    unfolding command_raw_of_subservice(3) [OF sub] by blast
  from letChildHandleMessage_posts [OF M del t low sub d, of F h] obtain m'' h' b
    where l: "letChildHandleMessage M F (ham s') (Some m') h = (OK, m'', h'\<lparr>base := b\<rparr>)"
      and bc: "buildCommandFromCommand e (ucast sub) (Some ?bs) (length ?bs) h = Some (OK, h')" by blast
  have "mailbox_post (ucast sub) (payload_rate e (Some ?bs) (length ?bs)) (mailbox_of h) =
      mailbox_post (ucast sub) (payload_rate e tcData len) (mailbox_of h)"
    using sub v rd
    by (auto simp: mailbox_post_def stored_payload_def command_of_subservice_def valid_payload_def payload_rate_def id_defs)
  then have "mailbox_of (h'\<lparr>base := b\<rparr>) = mailbox_post (ucast sub) (payload_rate e tcData len) (mailbox_of h)"
    using buildCommandFromCommand_post(1) [OF bc] by (simp add: mailbox_of_def)
  moreover have "uplink M S F ham m (sub, tcData, len) (st, h) = Some (OK, st\<lparr>ipcStore := Some s'\<rparr>, h'\<lparr>base := b\<rparr>)"
    using p l by (simp add: uplink_def prepareCommand_device [OF sub])
  ultimately show ?thesis
    using buildCommandFromCommand_frame [OF bc] buildCommandFromCommand_inv [OF bc, of F] by auto
qed

lemma uplink_OK_valid:
  fixes sub :: uint8
  assumes "uplink M S F ham m (sub, tcData, len) (st, h) = Some (OK, st', h')" and "sub \<in> {1, 2, 3}" and "readable tcData len"
  obtains s where "ipcStore st = Some s" and "valid_payload (command_of_subservice sub) tcData len"
    and "fst (getFreeElement S (length (stored_payload (command_of_subservice sub) tcData)) s) = OK"
proof -
  let ?c = "command_of_subservice sub"
  from assms(1) obtain m1 st1 where p: "prepareDeviceCommand M S m ?c tcData len st = Some (OK, m1, st1)"
    by (auto simp: uplink_def prepareCommand_device [OF assms(2)] split: option.splits if_splits prod.splits)
  then have v: "valid_payload ?c tcData len"
    by (cases "valid_payload ?c tcData len") (simp_all add: prepareDeviceCommand_invalid)
  with p have "storeDeviceCommand M S m ?c (stored_payload ?c tcData) st = (OK, m1, st1)"
    by (simp add: prepareDeviceCommand_valid [OF v assms(3)])
  then show thesis
    using v that by (auto simp: storeDeviceCommand_def split: option.splits if_splits prod.splits)
qed


text \<open>The action helper over the sample store, for the witnesses.\<close>

definition sample_action_helper ::
  "pool \<Rightarrow> sample_message \<Rightarrow> ReturnValue_t list WebcamDeviceHandler \<Rightarrow> ReturnValue_t \<times> ReturnValue_t list WebcamDeviceHandler" where
  "sample_action_helper s m h =
     (case getData pool_storage (action_getStoreId sample_messages m) s of
        (r, bs) \<Rightarrow>
          if r \<noteq> OK then (r, h)
          else (case buildCommandFromCommand Little_Endian (action_getActionId sample_messages m) (Some bs) (length bs) h of
                  None \<Rightarrow> (FAILED, h)
                | Some rh \<Rightarrow> rh))"


definition sample_tc_message :: sample_message where
  "sample_tc_message = \<lparr>sm_command = 0, sm_first = 0, sm_second = 0\<rparr>"

lemma sample_set_valid:
  "readable (Some (double_bytes Little_Endian d)) 8"
  "valid_payload (command_of_subservice 2) (Some (double_bytes Little_Endian d)) 8"
  "length (stored_payload (command_of_subservice 2) (Some (double_bytes Little_Endian d))) = 8"
  by (simp_all add: sizeof_double_def valid_payload_def command_of_subservice_def stored_payload_def)


lemma uplink_OK_posts:
  fixes sub :: uint8
  assumes "storage_laws S elems" and "message_laws M" and "delivers_actions M S e ham"
    and "sub \<in> {1, 2, 3}" and "readable tcData len"
    and "uplink M S F ham m (sub, tcData, len) (st, h) = Some (OK, st', h')"
  shows "mailbox_of h' = mailbox_post (ucast sub) (payload_rate e tcData len) (mailbox_of h)"
    and "infoLog h' = infoLog h" and "between_cycles F h \<Longrightarrow> between_cycles F h'"
proof -
  from uplink_OK_valid [OF assms(6,4,5)] obtain s where st: "ipcStore st = Some s"
    and v: "valid_payload (command_of_subservice sub) tcData len"
    and free: "fst (getFreeElement S (length (stored_payload (command_of_subservice sub) tcData)) s) = OK" .
  note up = uplink_posts [OF assms(1-3) st assms(4,5) v free, of F m h]
  from up assms(6) show "mailbox_of h' = mailbox_post (ucast sub) (payload_rate e tcData len) (mailbox_of h)"
    and "infoLog h' = infoLog h" by auto
  from up assms(6) show "between_cycles F h \<Longrightarrow> between_cycles F h'" by (auto simp: between_cycles_def)
qed

text \<open>
  A session: on an idle handler with a link, after a set-rate telecommand with the bytes of \<open>d\<close> and
  a get-rate telecommand have been accepted, any two or more periods of the handler's task put \<open>d\<close>
  in force, print exactly the two lines for it, and leave nothing pending.
\<close>

lemma set_then_get_session:
  assumes "storage_laws S elems" and "message_laws M" and "delivers_actions M S e handleActionMessage"
    and "communicationInterface h \<noteq> None" and "handler_inv F h" and "\<not> replyReady h" and "handler_pending h = []"
    and "uplink M S F handleActionMessage m (2, Some (double_bytes e d), 8) (st, h) = Some (OK, st1, h1)"
    and "uplink M S F handleActionMessage m (3, tcData, 0) (st1, h1) = Some (OK, st2, h2)"
    and "2 \<le> n"
  shows "currentFrameRate (snd (take_n (duty_cycle F) n h2)) = d
    \<and> infoLog (snd (take_n (duty_cycle F) n h2)) = infoLog h @ [FrameRateSet d, CurrentFrameRate d]
    \<and> handler_pending (snd (take_n (duty_cycle F) n h2)) = []"
proof -
  have b: "between_cycles F h" using assms(4-6) by (simp add: between_cycles_def)
  have sub: "(2 :: uint8) \<in> {1, 2, 3}" "(3 :: uint8) \<in> {1, 2, 3}" by simp_all
  have rd: "readable (Some (double_bytes e d)) 8" by (simp add: sizeof_double_def)
  note u1 = uplink_OK_posts [OF assms(1-3) sub(1) rd assms(8)]
  have rd0: "readable tcData 0" by (simp add: readable_def split: option.splits)
  note u2 = uplink_OK_posts [OF assms(1-3) sub(2) rd0 assms(9)]
  have rate: "payload_rate e (Some (double_bytes e d)) 8 = Some d"
    by (simp add: payload_rate_def sizeof_double_def)
  have b2: "between_cycles F h2" using u2(3) [OF u1(3) [OF b]] .
  have mb: "mailbox_of h2 = (mailbox_of h)\<lparr>mb_rate := True, mb_query := True, mb_requested := d\<rparr>"
    unfolding u2(1) u1(1) rate by (simp add: mailbox_post_def id_defs)
  have pend: "handler_pending h2 = [SET_FRAME_RATE, GET_FRAME_RATE]"
    unfolding mb using assms(7) by (simp add: mailbox_pending_def split: if_splits)
  have up: "upcoming_rate h2 = d" by (simp add: upcoming_rate_mailbox mb)
  let ?h = "snd (take_n (duty_cycle F) n h2)"
  have idle: "handler_pending ?h = []" using assms(10) by (simp add: duty.take_n_leaves [OF b2] pend)
  then have "upcoming_rate ?h = currentFrameRate ?h" by (simp add: upcoming_rate_def mailbox_defs split: if_splits)
  moreover have "upcoming_rate ?h = upcoming_rate h2" by (rule take_n_upcoming [OF b2])
  moreover have "infoLog ?h = infoLog h @ [FrameRateSet d, CurrentFrameRate d]"
    using assms(10) take_n_log [OF b2, of n] u1(2) u2(2) by (simp add: pend up reply_info_def)
  ultimately show ?thesis using idle up by simp
qed

text \<open>The two telecommands at the sample instances, step by step.\<close>

lemmas sample_evals = storeDeviceCommand_def sample_service_def pool_storage_def pool_elems_def sample_messages_def
  sample_tc_message_def id_defs command_of_subservice_def stored_payload_def sizeof_double_def Let_def

lemma sample_prepare_set:
  "prepareCommand sample_messages pool_storage sample_tc_message 2 (Some (double_bytes Little_Endian d)) 8 (sample_service [None, None]) =
   Some (OK, \<lparr>sm_command = 0x0402, sm_first = 0, sm_second = 0\<rparr>, sample_service [Some (double_bytes Little_Endian d), None])"
proof -
  have "take sizeof_double (double_bytes Little_Endian d) = double_bytes Little_Endian d" by simp
  then show ?thesis
    unfolding prepareCommand_device [of 2, simplified] prepareDeviceCommand_valid [OF sample_set_valid(2,1)]
    by (simp add: sample_evals)
qed

lemma sample_prepare_get:
  "prepareCommand sample_messages pool_storage sample_tc_message 3 tcData 0 (sample_service [Some x, None]) =
   Some (OK, \<lparr>sm_command = 0x0403, sm_first = 1, sm_second = 0\<rparr>, sample_service [Some x, Some []])"
  by (simp add: prepareCommand_device prepareDeviceCommand_def command_of_subservice_def, simp add: sample_evals)

lemmas sample_treat = letChildHandleMessage_def rawToCommand_def isValidCommand_def sample_action_helper_def
  pool_storage_def pool_elems_def sample_messages_def id_defs Let_def

lemma sample_treat_set:
  "letChildHandleMessage sample_messages F (sample_action_helper [Some (double_bytes Little_Endian d), None])
     (Some \<lparr>sm_command = 0x0402, sm_first = 0, sm_second = 0\<rparr>) h =
   (OK, Some \<lparr>sm_command = 0x0501, sm_first = 2, sm_second = 0\<rparr>, h\<lparr>requestedFrameRate := d, frameRateCommandPending := True\<rparr>)"
  by (simp add: sample_treat)
    (simp add: buildCommandFromCommand_rate [unfolded SET_FRAME_RATE_def commandSetFrameRate_def CommandId.sel])

lemma sample_treat_get:
  "letChildHandleMessage sample_messages F (sample_action_helper [Some x, Some []])
     (Some \<lparr>sm_command = 0x0403, sm_first = 1, sm_second = 0\<rparr>) h =
   (OK, Some \<lparr>sm_command = 0x0501, sm_first = 3, sm_second = 1\<rparr>, h\<lparr>frameRateQueryPending := True\<rparr>)"
  by (simp add: sample_treat buildCommandFromCommand_def)

lemma sample_uplinks:
  "uplink sample_messages pool_storage sample_base sample_action_helper sample_tc_message
     (2, Some (double_bytes Little_Endian d), 8) (sample_service [None, None], h) =
   Some (OK, sample_service [Some (double_bytes Little_Endian d), None], h\<lparr>requestedFrameRate := d, frameRateCommandPending := True\<rparr>)"
  "uplink sample_messages pool_storage sample_base sample_action_helper sample_tc_message
     (3, tcData, 0) (sample_service [Some x, None], h) =
   Some (OK, sample_service [Some x, Some []], h\<lparr>frameRateQueryPending := True\<rparr>)"
  by (simp_all add: uplink_def sample_prepare_set sample_prepare_get)
    (simp_all add: sample_service_def sample_treat_set sample_treat_get)

end
