(* ===== verification/StoreChannel.thy ===== *)
theory StoreChannel
  imports FsfwInterface
begin

text \<open>
  How the components pass packets: the sender puts each into a fresh element of a shared store and
  queues a message with its address, the receiver takes the messages in order and frees the elements.
  Shared by the way up (TC store and request queue) and the way down (TM store and sink queue).
\<close>

text \<open>
  From elements \<open>el\<close> and queue \<open>ns\<close> to \<open>el'\<close> and \<open>ns'\<close> the packets \<open>ps\<close> were added; \<open>addr\<close> is the
  address in a message, \<open>holds\<close> says that the element a message names contains a packet.
\<close>

definition channel_grows ::
  "('n \<Rightarrow> store_address_t) \<Rightarrow> ((store_address_t \<rightharpoonup> uint8 list) \<Rightarrow> 'n \<Rightarrow> 'p \<Rightarrow> bool) \<Rightarrow>
   (store_address_t \<rightharpoonup> uint8 list) \<times> 'n list \<Rightarrow> 'p list \<Rightarrow> (store_address_t \<rightharpoonup> uint8 list) \<times> 'n list \<Rightarrow> bool" where
  "channel_grows addr holds = (\<lambda>(el, ns) ps (el', ns').
     \<exists>new. ns' = ns @ new \<and> distinct (map addr new) \<and> (\<forall>n \<in> set new. el (addr n) = None)
       \<and> (\<forall>a. a \<notin> addr ` set new \<longrightarrow> el' a = el a) \<and> list_all2 (holds el') new ps)"

locale store_channel =
  fixes addr :: "'n \<Rightarrow> store_address_t" and holds :: "(store_address_t \<rightharpoonup> uint8 list) \<Rightarrow> 'n \<Rightarrow> 'p \<Rightarrow> bool"
  assumes holds_local: "el (addr n) = el' (addr n) \<Longrightarrow> holds el n p = holds el' n p"
    and holds_Some: "holds el n p \<Longrightarrow> el (addr n) \<noteq> None"
begin

lemma grows_refl: "channel_grows addr holds (el, ns) [] (el, ns)"
  by (simp add: channel_grows_def)

lemma grows_one:
  assumes "el (addr n) = None" and "holds (el(addr n \<mapsto> bs)) n p"
  shows "channel_grows addr holds (el, ns) [p] (el(addr n \<mapsto> bs), ns @ [n])"
  using assms by (auto simp: channel_grows_def)

lemma all_hold_cong:
  assumes "list_all2 (holds el) ns ps" and "\<forall>n \<in> set ns. el (addr n) = el' (addr n)"
  shows "list_all2 (holds el') ns ps"
  using assms(1)
proof (rule list.rel_mono_strong)
  fix n p
  assume "n \<in> set ns" and "holds el n p"
  with assms(2) holds_local [of el n el' p] show "holds el' n p" by simp
qed

lemma all_hold_Some: "list_all2 (holds el) ns ps \<Longrightarrow> n \<in> set ns \<Longrightarrow> el (addr n) \<noteq> None"
  by (induction rule: list_all2_induct) (auto dest: holds_Some)

lemma grows_trans:
  assumes "channel_grows addr holds (el, ns) ps (el1, ns1)" and "channel_grows addr holds (el1, ns1) ps' (el', ns')"
  shows "channel_grows addr holds (el, ns) (ps @ ps') (el', ns')"
proof -
  from assms(1) obtain new where
    a: "ns1 = ns @ new" "distinct (map addr new)" "\<forall>n \<in> set new. el (addr n) = None"
      "\<forall>a. a \<notin> addr ` set new \<longrightarrow> el1 a = el a" "list_all2 (holds el1) new ps"
    by (auto simp: channel_grows_def)
  from assms(2) obtain new' where
    b: "ns' = ns1 @ new'" "distinct (map addr new')" "\<forall>n \<in> set new'. el1 (addr n) = None"
      "\<forall>a. a \<notin> addr ` set new' \<longrightarrow> el' a = el1 a" "list_all2 (holds el') new' ps'"
    by (auto simp: channel_grows_def)
  have disj: "addr ` set new \<inter> addr ` set new' = {}"
    using all_hold_Some [OF a(5)] b(3) by fastforce
  have "\<forall>n \<in> set new'. el (addr n) = None"
    using a(4) b(3) disj by (metis IntI empty_iff imageI)
  moreover have "list_all2 (holds el') new ps"
    using a(5) by (rule all_hold_cong) (use b(4) disj in \<open>auto simp: disjoint_iff\<close>)
  ultimately show ?thesis
    unfolding channel_grows_def prod.case
    using a(1-4) b disj
    by (intro exI [of _ "new @ new'"]) (simp add: list_all2_appendI image_Un ball_Un)
qed

lemma grows_from_empty:
  assumes "channel_grows addr holds (el, []) ps (el', ns')"
  shows "distinct (map addr ns')" and "list_all2 (holds el') ns' ps"
    and "(\<lambda>a. if a \<in> addr ` set ns' then None else el' a) = el"
proof -
  from assms have n: "distinct (map addr ns')" "list_all2 (holds el') ns' ps" "\<forall>n \<in> set ns'. el (addr n) = None"
      "\<forall>a. a \<notin> addr ` set ns' \<longrightarrow> el' a = el a"
    by (auto simp: channel_grows_def)
  then show "distinct (map addr ns')" and "list_all2 (holds el') ns' ps" by simp_all
  show "(\<lambda>a. if a \<in> addr ` set ns' then None else el' a) = el"
  proof
    fix a
    show "(if a \<in> addr ` set ns' then None else el' a) = el a" using n(3,4) by (cases "a \<in> addr ` set ns'") auto
  qed
qed

end

end
