(* ===== verification/GroundToConsole.thy ===== *)
theory GroundToConsole
  imports Uplink TmtcProperties HandlerOutput StoreChannel
begin

text \<open>
  The whole uplink: from a call of \<^verbatim>\<open>StubPusDistributor::sendCommand\<close> over the TC store and the
  service's request queue to the commanding service, the device handler and the printed text.
  Between distributor and service lies framework code, as documented behaviour of three arguments:
  the packet reader (\<open>tc_reader_laws\<close>), the sender of messages (\<open>sender_laws\<close>) and the request
  handling of \<^verbatim>\<open>CommandingServiceBase\<close> (\<open>request_laws\<close>).
\<close>

section \<open>What lies between\<close>

text \<open>The bytes of application data a packet carries, and those a call passes.\<close>

definition app_data :: "tc_packet \<Rightarrow> uint8 list" where
  "app_data p = (case tcAppData p of None \<Rightarrow> [] | Some bs \<Rightarrow> take (tcAppDataLen p) bs)"

definition sent_data :: "uint8 list option \<Rightarrow> nat \<Rightarrow> uint8 list" where
  "sent_data data len = (case data of None \<Rightarrow> [] | Some bs \<Rightarrow> take len bs)"

text \<open>The reader finds in a serialised packet what the creator wrote: service, subservice, data.\<close>

definition tc_reader_laws :: "('s, 'n) tc_if \<Rightarrow> (uint8 list \<Rightarrow> (uint8 \<times> uint8 \<times> uint8 list) option) \<Rightarrow> bool" where
  "tc_reader_laws T parseTc \<longleftrightarrow>
     (\<forall>p bs. readable (tcAppData p) (tcAppDataLen p) \<longrightarrow> (tcAppData p = None \<longrightarrow> tcAppDataLen p = 0) \<longrightarrow> serializeBe T p (serializedSize T p) = (OK, bs) \<longrightarrow>
        length bs = serializedSize T p \<and> parseTc bs = Some (tcService p, tcSubservice p, app_data p))"

text \<open>A successful send appends to the queue it names, and to no other.\<close>

definition sender_laws :: "('s, 'n) tc_if \<Rightarrow> ('n \<Rightarrow> MessageQueueId_t \<Rightarrow> store_address_t list) \<Rightarrow> bool" where
  "sender_laws T posted \<longleftrightarrow>
     (\<forall>q a net net'. send T q a net = (OK, net') \<longrightarrow> posted net' = (posted net)(q := posted net q @ [a]))"

text \<open>
  For the address of a packet with a valid subservice, the service base hands the packet's data to
  the service, and the message that prepares to the handler, and frees the packet.
\<close>

definition request_laws ::
  "('ts \<Rightarrow> store_address_t \<rightharpoonup> uint8 list) \<Rightarrow> (uint8 list \<Rightarrow> (uint8 \<times> uint8 \<times> uint8 list) option) \<Rightarrow>
   (uint8 \<times> uint8 list option \<times> nat \<Rightarrow> 'x \<Rightarrow> (ReturnValue_t \<times> 'x) cxx) \<Rightarrow>
   (store_address_t \<Rightarrow> 'ts \<times> 'x \<Rightarrow> (ReturnValue_t \<times> 'ts \<times> 'x) cxx) \<Rightarrow> bool" where
  "request_laws tcElems parseTc treat handleRequest \<longleftrightarrow>
     (\<forall>a ts x bs svc sub data. tcElems ts a = Some bs \<longrightarrow> parseTc bs = Some (svc, sub, data) \<longrightarrow>
        isValidSubservice sub = OK \<longrightarrow>
        (\<exists>ts'. tcElems ts' = (tcElems ts)(a := None)
          \<and> handleRequest a (ts, x) = map_option (\<lambda>(r, x'). (r, ts', x')) (treat (sub, Some data, length data) x)))"

text \<open>The service works off its request queue.\<close>

primrec handle_requests ::
  "(store_address_t \<Rightarrow> 'y \<Rightarrow> (ReturnValue_t \<times> 'y) cxx) \<Rightarrow> store_address_t list \<Rightarrow> 'y \<Rightarrow> (ReturnValue_t list \<times> 'y) cxx" where
  "handle_requests handleRequest [] y = Some ([], y)"
| "handle_requests handleRequest (a # as) y =
     (case handleRequest a y of
        None \<Rightarrow> None
      | Some (r, y') \<Rightarrow> map_option (\<lambda>(rs, y''). (r # rs, y'')) (handle_requests handleRequest as y'))"

section \<open>A command that was sent\<close>

lemma sendCommand_OK:
  assumes "storage_laws (tcStorage T) tcElems" and "tc_reader_laws T parseTc" and "sender_laws T posted"
    and "readable data len" and "sendCommand T sub data len d net = Some (OK, d', net')"
  obtains s a bs s' where "tcStore d = Some s" and "tcStore d' = Some s'" and "tcElems s a = None"
    and "tcElems s' = (tcElems s)(a \<mapsto> bs)"
    and "parseTc bs = Some (registeredServiceId d, sub, sent_data data len)"
    and "posted net' = (posted net)(serviceRequestQueue d := posted net (serviceRequestQueue d) @ [a])"
    and "serviceRequestQueue d' = serviceRequestQueue d" and "registeredServiceId d' = registeredServiceId d"
proof -
  have reg: "registeredService d \<noteq> None" "tcStore d \<noteq> None"
    using assms(5) by (auto simp: sendCommand_def split: option.splits)
  then obtain s where s: "tcStore d = Some s" by blast
  let ?p = "command_packet sub data len d"
  obtain r1 a s1 where g: "getFreeElement (tcStorage T) (serializedSize T ?p) s = (r1, a, s1)"
    by (cases "getFreeElement (tcStorage T) (serializedSize T ?p) s")
  obtain r2 bs where z: "serializeBe T ?p (serializedSize T ?p) = (r2, bs)"
    by (cases "serializeBe T ?p (serializedSize T ?p)")
  obtain r3 net3 where n: "send T (serviceRequestQueue d) a net = (r3, net3)"
    by (cases "send T (serviceRequestQueue d) a net")
  let ?s2 = "writeElement (tcStorage T) a bs s1"
  from sendCommand_stages [OF reg(1) s assms(4) g z n] assms(5)
  have ok: "r1 = OK" "r2 = OK" "r3 = OK" and d': "net' = net3" "tcStore d' = Some ?s2"
      "serviceRequestQueue d' = serviceRequestQueue d" "registeredServiceId d' = registeredServiceId d"
    by (auto simp: Let_def split: if_splits)
  have rd: "readable (tcAppData ?p) (tcAppDataLen ?p)" "tcAppData ?p = None \<longrightarrow> tcAppDataLen ?p = 0"
    using assms(4) by (simp_all add: command_packet_def)
  have fields: "tcService ?p = registeredServiceId d" "tcSubservice ?p = sub" "app_data ?p = sent_data data len"
    using assms(4) by (auto simp: command_packet_def app_data_def sent_data_def split: option.splits)
  have p: "length bs = serializedSize T ?p" "parseTc bs = Some (registeredServiceId d, sub, sent_data data len)"
    using assms(2) rd z [unfolded ok] fields unfolding tc_reader_laws_def by metis+
  obtain old where o: "tcElems s a = None" "length old = serializedSize T ?p" "tcElems s1 = (tcElems s)(a \<mapsto> old)"
    using storage_getFree_OK [OF assms(1) g [unfolded ok]] .
  have "tcElems ?s2 = (tcElems s1)(a \<mapsto> bs @ drop (length bs) old)"
    using o p by (intro storage_write [OF assms(1)]) simp_all
  then have "tcElems ?s2 = (tcElems s)(a \<mapsto> bs)" using o p by simp
  moreover have "posted net' = (posted net)(serviceRequestQueue d := posted net (serviceRequestQueue d) @ [a])"
    using assms(3) n unfolding sender_laws_def ok d'(1) by blast
  ultimately show thesis using that s d' o p by blast
qed

lemma request_lawsD:
  assumes "request_laws tcElems parseTc treat handleRequest" and "tcElems ts a = Some bs"
    and "parseTc bs = Some (svc, sub, data)" and "isValidSubservice sub = OK"
  obtains ts' where "tcElems ts' = (tcElems ts)(a := None)"
    and "handleRequest a (ts, x) = map_option (\<lambda>(r, x'). (r, ts', x')) (treat (sub, Some data, length data) x)"
  using assms unfolding request_laws_def by blast

section \<open>Any number of commands\<close>

text \<open>The distributor sends commands until one fails; the service treats the data of each.\<close>

fun send_all ::
  "('s, 'n) tc_if \<Rightarrow> (uint8 \<times> uint8 list option \<times> nat) list \<Rightarrow> ('v, 's) StubPusDistributor \<times> 'n \<Rightarrow>
   (('v, 's) StubPusDistributor \<times> 'n) option" where
  "send_all T [] (d, net) = Some (d, net)"
| "send_all T ((sub, data, len) # cs) (d, net) =
     (case sendCommand T sub data len d net of
        Some (r, d', net') \<Rightarrow> if r = OK then send_all T cs (d', net') else None
      | None \<Rightarrow> None)"

fun treat_all ::
  "(uint8 \<times> uint8 list option \<times> nat \<Rightarrow> 'x \<Rightarrow> (ReturnValue_t \<times> 'x) cxx) \<Rightarrow> (uint8 \<times> uint8 list option \<times> nat) list \<Rightarrow>
   'x \<Rightarrow> (ReturnValue_t list \<times> 'x) cxx" where
  "treat_all treat [] x = Some ([], x)"
| "treat_all treat ((sub, data, len) # cs) x =
     (case treat (sub, Some (sent_data data len), length (sent_data data len)) x of
        None \<Rightarrow> None
      | Some (r, x') \<Rightarrow> map_option (\<lambda>(rs, x''). (r # rs, x'')) (treat_all treat cs x'))"

definition good_command :: "uint8 \<times> uint8 list option \<times> nat \<Rightarrow> bool" where
  "good_command = (\<lambda>(sub, data, len). readable data len \<and> isValidSubservice sub = OK)"

text \<open>The element at an address holds the packet of a command.\<close>

definition holds_command ::
  "(uint8 list \<Rightarrow> (uint8 \<times> uint8 \<times> uint8 list) option) \<Rightarrow> (store_address_t \<rightharpoonup> uint8 list) \<Rightarrow> store_address_t \<Rightarrow>
   uint8 \<times> uint8 list option \<times> nat \<Rightarrow> bool" where
  "holds_command parseTc el a = (\<lambda>(sub, data, len).
     \<exists>bs svc. el a = Some bs \<and> parseTc bs = Some (svc, sub, sent_data data len))"

interpretation tc: store_channel "\<lambda>a. a" "holds_command parseTc" for parseTc
  by unfold_locales (auto simp: holds_command_def)

lemma send_all_posts:
  assumes T: "storage_laws (tcStorage T) tcElems" "tc_reader_laws T parseTc" "sender_laws T posted"
  shows "send_all T cs (d, net) = Some (d', net') \<Longrightarrow> \<forall>c \<in> set cs. good_command c \<Longrightarrow> tcStore d = Some ts \<Longrightarrow>
    \<exists>ts'. tcStore d' = Some ts' \<and> channel_grows (\<lambda>a. a) (holds_command parseTc)
      (tcElems ts, posted net (serviceRequestQueue d)) cs (tcElems ts', posted net' (serviceRequestQueue d))"
proof (induction cs arbitrary: d net ts)
  case Nil
  then show ?case by (auto simp: tc.grows_refl)
next
  case (Cons c cs)
  obtain sub data len where c: "c = (sub, data, len)" by (cases c)
  with Cons.prems(1) obtain d1 net1 where s1: "sendCommand T sub data len d net = Some (OK, d1, net1)"
    and rest: "send_all T cs (d1, net1) = Some (d', net')"
    by (auto split: option.splits if_splits)
  have rd: "readable data len" "\<forall>c \<in> set cs. good_command c" using Cons.prems(2) c by (simp_all add: good_command_def)
  obtain s a bs ts1 where o: "tcStore d = Some s" "tcStore d1 = Some ts1" "tcElems s a = None"
    "tcElems ts1 = (tcElems s)(a \<mapsto> bs)" "parseTc bs = Some (registeredServiceId d, sub, sent_data data len)"
    "posted net1 = (posted net)(serviceRequestQueue d := posted net (serviceRequestQueue d) @ [a])"
    "serviceRequestQueue d1 = serviceRequestQueue d" "registeredServiceId d1 = registeredServiceId d"
    by (rule sendCommand_OK [OF T rd(1) s1])
  have s: "s = ts" using o(1) Cons.prems(3) by simp
  have one: "channel_grows (\<lambda>a. a) (holds_command parseTc) (tcElems ts, posted net (serviceRequestQueue d)) [c]
      (tcElems ts1, posted net1 (serviceRequestQueue d))"
    using tc.grows_one [of "tcElems ts" a parseTc bs c] o(3-6) s by (simp add: holds_command_def c)
  from Cons.IH [OF rest rd(2) o(2)] o(7) obtain ts' where t: "tcStore d' = Some ts'" and more:
    "channel_grows (\<lambda>a. a) (holds_command parseTc) (tcElems ts1, posted net1 (serviceRequestQueue d)) cs
      (tcElems ts', posted net' (serviceRequestQueue d))" by auto
  from tc.grows_trans [OF one more] t show ?case by simp
qed

lemma handle_requests_treat:
  assumes R: "request_laws tcElems parseTc treat handleRequest"
  shows "list_all2 (holds_command parseTc (tcElems ts)) as cs \<Longrightarrow> distinct as \<Longrightarrow> \<forall>c \<in> set cs. good_command c \<Longrightarrow>
    \<exists>ts'. handle_requests handleRequest as (ts, x) = map_option (\<lambda>(rs, x'). (rs, ts', x')) (treat_all treat cs x)
      \<and> (treat_all treat cs x \<noteq> None \<longrightarrow> tcElems ts' = (\<lambda>a. if a \<in> set as then None else tcElems ts a))"
proof (induction as arbitrary: cs ts x)
  case Nil
  then show ?case by auto
next
  case (Cons a as)
  then obtain sub data len cs' where cs: "cs = (sub, data, len) # cs'"
    and hd: "holds_command parseTc (tcElems ts) a (sub, data, len)"
    and tl: "list_all2 (holds_command parseTc (tcElems ts)) as cs'"
    by (cases cs) auto
  let ?t = "treat (sub, Some (sent_data data len), length (sent_data data len)) x"
  from hd obtain bs svc where b: "tcElems ts a = Some bs" "parseTc bs = Some (svc, sub, sent_data data len)"
    by (auto simp: holds_command_def)
  have v: "isValidSubservice sub = OK" using Cons.prems(3) cs by (simp add: good_command_def)
  obtain ts1 where ts1: "tcElems ts1 = (tcElems ts)(a := None)"
    and hr: "handleRequest a (ts, x) = map_option (\<lambda>(r, x'). (r, ts1, x')) ?t"
    using request_lawsD [OF R b v] .
  show ?case
  proof (cases ?t)
    case None
    with hr cs show ?thesis by simp
  next
    case (Some rx)
    then obtain r x1 where t: "?t = Some (r, x1)" by (cases rx) simp
    have l: "list_all2 (holds_command parseTc (tcElems ts1)) as cs'"
      using tl by (rule tc.all_hold_cong) (use Cons.prems(2) ts1 in auto)
    have g: "distinct as" "\<forall>c \<in> set cs'. good_command c" using Cons.prems(2,3) cs by simp_all
    from Cons.IH [OF l g, of x1] obtain ts' where
      "handle_requests handleRequest as (ts1, x1) = map_option (\<lambda>(rs, x'). (rs, ts', x')) (treat_all treat cs' x1)"
      "treat_all treat cs' x1 \<noteq> None \<longrightarrow> tcElems ts' = (\<lambda>b. if b \<in> set as then None else tcElems ts1 b)"
      by (elim exE conjE) (rule that)
    with hr t cs ts1 show ?thesis
      by (intro exI [of _ ts']) (auto simp: option.map_comp o_def split_beta)
  qed
qed

lemma commands_delivered:
  assumes "storage_laws (tcStorage T) tcElems" and "tc_reader_laws T parseTc" and "sender_laws T posted"
    and "request_laws tcElems parseTc treat handleRequest"
    and "\<forall>c \<in> set cs. good_command c" and "tcStore d = Some ts" and "posted net (serviceRequestQueue d) = []"
    and "send_all T cs (d, net) = Some (d', net')"
  shows "\<exists>ts1 ts2. tcStore d' = Some ts1
    \<and> handle_requests handleRequest (posted net' (serviceRequestQueue d)) (ts1, x) =
        map_option (\<lambda>(rs, x'). (rs, ts2, x')) (treat_all treat cs x)
    \<and> (treat_all treat cs x \<noteq> None \<longrightarrow> tcElems ts2 = tcElems ts)"
proof -
  from send_all_posts [OF assms(1-3,8,5,6)] assms(7) obtain ts1 where s: "tcStore d' = Some ts1"
    and g: "channel_grows (\<lambda>a. a) (holds_command parseTc) (tcElems ts, []) cs (tcElems ts1, posted net' (serviceRequestQueue d))"
    by auto
  note new = tc.grows_from_empty [OF g, unfolded image_ident list.map_ident]
  from handle_requests_treat [OF assms(4) new(2,1) assms(5), of x] obtain ts2 where
    "handle_requests handleRequest (posted net' (serviceRequestQueue d)) (ts1, x) =
        map_option (\<lambda>(rs, x'). (rs, ts2, x')) (treat_all treat cs x)"
    "treat_all treat cs x \<noteq> None \<longrightarrow>
       tcElems ts2 = (\<lambda>a. if a \<in> set (posted net' (serviceRequestQueue d)) then None else tcElems ts1 a)" by blast
  with s new(3) show ?thesis by auto
qed

section \<open>Executable instances\<close>

text \<open>
  A packet is its service, its subservice, the low byte of its sequence count and its data; every
  message queue is a list of addresses.
\<close>

definition queue_tc :: "(pool, MessageQueueId_t \<Rightarrow> store_address_t list) tc_if" where
  "queue_tc = \<lparr>tcStorage = pool_storage, serializedSize = (\<lambda>p. 3 + tcAppDataLen p),
     serializeBe = (\<lambda>p n. (OK, tcService p # tcSubservice p # ucast (tcSequenceCount p) # app_data p)),
     send = (\<lambda>q a net. (OK, net(q := net q @ [a])))\<rparr>"

fun sample_parse :: "uint8 list \<Rightarrow> (uint8 \<times> uint8 \<times> uint8 list) option" where
  "sample_parse (svc # sub # n # bs) = Some (svc, sub, bs)"
| "sample_parse bs = None"

definition sample_request ::
  "(uint8 \<times> uint8 list option \<times> nat \<Rightarrow> 'x \<Rightarrow> (ReturnValue_t \<times> 'x) cxx) \<Rightarrow>
   store_address_t \<Rightarrow> pool \<times> 'x \<Rightarrow> (ReturnValue_t \<times> pool \<times> 'x) cxx" where
  "sample_request treat a = (\<lambda>(ts, x).
     case pool_elems ts a of
       None \<Rightarrow> Some (FAILED, ts, x)
     | Some bs \<Rightarrow>
         (case sample_parse bs of
            None \<Rightarrow> Some (FAILED, ts, x)
          | Some (svc, sub, data) \<Rightarrow>
              map_option (\<lambda>(r, x'). (r, ts[unat a := None], x')) (treat (sub, Some data, length data) x)))"

lemma queue_tc_laws:
  "storage_laws (tcStorage queue_tc) pool_elems" "tc_reader_laws queue_tc sample_parse" "sender_laws queue_tc (\<lambda>net. net)"
proof -
  show "storage_laws (tcStorage queue_tc) pool_elems" by (simp add: queue_tc_def pool_storage_laws)
  show "sender_laws queue_tc (\<lambda>net. net)" by (simp add: sender_laws_def queue_tc_def)
  show "tc_reader_laws queue_tc sample_parse"
    by (auto simp: tc_reader_laws_def queue_tc_def app_data_def split: option.splits)
qed

lemma sample_request_laws: "request_laws pool_elems sample_parse treat (sample_request treat)"
  unfolding request_laws_def
proof (intro allI impI)
  fix a ts x bs svc sub data
  assume a: "pool_elems ts a = Some bs" "sample_parse bs = Some (svc, sub, data)"
  from pool_elems_update [OF pool_elems_domain [OF a(1)], of None] a
  show "\<exists>ts'. pool_elems ts' = (pool_elems ts)(a := None)
      \<and> sample_request treat a (ts, x) = map_option (\<lambda>(r, x'). (r, ts', x')) (treat (sub, Some data, length data) x)"
    by (intro exI [of _ "ts[unat a := None]"]) (simp add: sample_request_def)
qed

text \<open>The two telecommands of the demonstration in an empty store of two elements.\<close>

definition ground_distributor :: "pool \<Rightarrow> uint16 \<Rightarrow> (unit, pool) StubPusDistributor" where
  "ground_distributor s n = \<lparr>registeredService = Some (), serviceRequestQueue = 7, registeredServiceId = 200,
     tcStore = Some s, sequenceCounter = n, apid = 1\<rparr>"

lemma ground_sends:
  "sendCommand queue_tc 2 (Some (double_bytes e d)) 8 (ground_distributor [None, None] 0) (\<lambda>_. []) =
     Some (OK, ground_distributor [Some (200 # 2 # 0 # double_bytes e d), None] 1, (\<lambda>_. [])(7 := [0]))"
  "sendCommand queue_tc 3 None 0 (ground_distributor [Some x, None] 1) ((\<lambda>_. [])(7 := [0])) =
     Some (OK, ground_distributor [Some x, Some [200, 3, 1]] 2, (\<lambda>_. [])(7 := [0, 1]))"
proof -
  have "length (double_bytes e d) = 8" "take 8 (double_bytes e d) = double_bytes e d" by (simp_all add: sizeof_double_def)
  then show "sendCommand queue_tc 2 (Some (double_bytes e d)) 8 (ground_distributor [None, None] 0) (\<lambda>_. []) =
     Some (OK, ground_distributor [Some (200 # 2 # 0 # double_bytes e d), None] 1, (\<lambda>_. [])(7 := [0]))"
    by (simp add: sendCommand_def ground_distributor_def queue_tc_def pool_storage_def pool_elems_def app_data_def Let_def)
  show "sendCommand queue_tc 3 None 0 (ground_distributor [Some x, None] 1) ((\<lambda>_. [])(7 := [0])) =
     Some (OK, ground_distributor [Some x, Some [200, 3, 1]] 2, (\<lambda>_. [])(7 := [0, 1]))"
    by (simp add: sendCommand_def ground_distributor_def queue_tc_def pool_storage_def pool_elems_def app_data_def Let_def)
qed

end
