(* ===== verification/Demonstration.thy ===== *)
theory Demonstration
  imports GroundToConsole MainProgram
begin

text \<open>
  The demonstration that \<^verbatim>\<open>main.cpp\<close> runs: its three telecommands (set the rate to 24.0, get the
  rate, dump the rate parameter) on their way through distributor, commanding service and device
  handler, with any number of periods of the handler's task after each of them.
\<close>

section \<open>The parameter dump\<close>





section \<open>Periods between the requests\<close>





section \<open>The session\<close>







section \<open>From the main loop to the console\<close>

















end
