(* ===== verification/Downlink.thy ===== *)
theory Downlink
  imports ServiceProperties TmtcProperties StoreChannel
begin

text \<open>
  The way down: replies of the device handler, which \<^verbatim>\<open>WebcamCommandingService::handleReply\<close> forwards
  as telemetry, and the lines \<^verbatim>\<open>StubTelemetrySink::performOperation\<close> prints for them. Between the two
  lies \<^verbatim>\<open>CommandingServiceBase::sendTmPacket\<close>, an argument with its documented behaviour
  (\<open>tm_sender_laws\<close>). The channel it feeds is the TM store and the queue of the sink.
\<close>

section \<open>What lies between\<close>

text \<open>
  A packet that was sent lies in one fresh element of the TM store, parses to the service, the
  subservice and the size of its content, and is named by the message queued last; one that
  could not be sent leaves neither. \<open>contentSize\<close> is the serialised size of the content.
\<close>

definition tm_sender_laws ::
  "(uint8 \<Rightarrow> tm_content \<Rightarrow> 'ts \<times> 'q \<Rightarrow> ReturnValue_t \<times> 'ts \<times> 'q) \<Rightarrow> ('ts \<Rightarrow> store_address_t \<rightharpoonup> uint8 list) \<Rightarrow>
   ('q \<Rightarrow> 'n list) \<Rightarrow> ('n \<Rightarrow> store_address_t) \<Rightarrow> (uint8 list \<Rightarrow> (uint8 \<times> uint8 \<times> nat) option) \<Rightarrow>
   (tm_content \<Rightarrow> nat) \<Rightarrow> bool" where
  "tm_sender_laws sendTmPacket tmElems queued storageId parseTm contentSize \<longleftrightarrow>
     (\<forall>sub c ts q r ts' q'. sendTmPacket sub c (ts, q) = (r, ts', q') \<longrightarrow>
        (if r = OK
         then \<exists>n bs. tmElems ts (storageId n) = None \<and> tmElems ts' = (tmElems ts)(storageId n \<mapsto> bs)
           \<and> queued q' = queued q @ [n] \<and> parseTm bs = Some (SERVICE_ID, sub, contentSize c)
         else tmElems ts' = tmElems ts \<and> queued q' = queued q))"

lemma tm_sender_OK:
  assumes "tm_sender_laws transmit tmElems queued sid parseTm csize" and "transmit sub c (ts, q) = (OK, ts', q')"
  obtains n bs where "tmElems ts (sid n) = None" and "tmElems ts' = (tmElems ts)(sid n \<mapsto> bs)"
    and "queued q' = queued q @ [n]" and "parseTm bs = Some (SERVICE_ID, sub, csize c)"
proof -
  from assms have "if OK = OK then \<exists>n bs. tmElems ts (sid n) = None \<and> tmElems ts' = (tmElems ts)(sid n \<mapsto> bs)
           \<and> queued q' = queued q @ [n] \<and> parseTm bs = Some (SERVICE_ID, sub, csize c)
         else tmElems ts' = tmElems ts \<and> queued q' = queued q"
    unfolding tm_sender_laws_def by blast
  then show thesis using that by auto
qed

lemma tm_sender_failed:
  assumes "tm_sender_laws transmit tmElems queued sid parseTm csize" and "transmit sub c (ts, q) = (r, ts', q')" and "r \<noteq> OK"
  shows "tmElems ts' = tmElems ts" and "queued q' = queued q"
proof -
  from assms(1,2) have "if r = OK then \<exists>n bs. tmElems ts (sid n) = None \<and> tmElems ts' = (tmElems ts)(sid n \<mapsto> bs)
           \<and> queued q' = queued q @ [n] \<and> parseTm bs = Some (SERVICE_ID, sub, csize c)
         else tmElems ts' = tmElems ts \<and> queued q' = queued q"
    unfolding tm_sender_laws_def by blast
  with assms(3) show "tmElems ts' = tmElems ts" and "queued q' = queued q" by simp_all
qed

section \<open>What the service should forward\<close>

text \<open>
  The contract of reply handling, without its state: which packet a reply stands for while the
  IPC store has the elements \<open>el\<close>, and which element it uses up.
\<close>

definition forwarded ::
  "'m message_if \<Rightarrow> (store_address_t \<rightharpoonup> uint8 list) \<Rightarrow> 'm \<times> object_id_t \<Rightarrow> (uint8 \<times> tm_content \<times> store_address_t) option" where
  "forwarded M el = (\<lambda>(reply, oid).
     if getMessageType M reply = ACTION M \<and> getCommand M reply = DATA_REPLY M
     then map_option (\<lambda>data. (131, DataReply objectIdWebcamHandler (action_getActionId M reply) data (word_of_nat (length data)),
            action_getStoreId M reply)) (el (action_getStoreId M reply))
     else if getMessageType M reply = PARAMETER M \<and> getCommand M reply = REPLY_PARAMETER_DUMP M
     then map_option (\<lambda>data. (130, ParameterDumpReply oid (param_getParameterId M reply) data (length data),
            param_getStoreId M reply)) (el (param_getStoreId M reply))
     else None)"

text \<open>
  For a sequence of replies and the results of handling them: the packets that were sent, and
  the elements left in the IPC store.
\<close>

fun telemetry ::
  "'m message_if \<Rightarrow> (store_address_t \<rightharpoonup> uint8 list) \<Rightarrow> ('m \<times> object_id_t) list \<Rightarrow> ReturnValue_t list \<Rightarrow>
   (uint8 \<times> tm_content) list" where
  "telemetry M el (x # xs) (r # rs) =
     (case forwarded M el x of
        None \<Rightarrow> telemetry M el xs rs
      | Some (sub, c, a) \<Rightarrow> (if r = OK then [(sub, c)] else []) @ telemetry M (el(a := None)) xs rs)"
| "telemetry M el _ _ = []"

fun kept_elems ::
  "'m message_if \<Rightarrow> (store_address_t \<rightharpoonup> uint8 list) \<Rightarrow> ('m \<times> object_id_t) list \<Rightarrow> (store_address_t \<rightharpoonup> uint8 list)" where
  "kept_elems M el [] = el"
| "kept_elems M el (x # xs) =
     (case forwarded M el x of None \<Rightarrow> kept_elems M el xs | Some (sub, c, a) \<Rightarrow> kept_elems M (el(a := None)) xs)"

definition tm_line :: "(tm_content \<Rightarrow> nat) \<Rightarrow> uint8 \<times> tm_content \<Rightarrow> string" where
  "tm_line contentSize = (\<lambda>(sub, c).
     ''[TM] service 200 subservice '' @ print_u (unat sub) @ '', '' @ print_u (contentSize c) @ '' bytes'' @ newline)"

section \<open>What the service does\<close>

text \<open>The base class hands the replies to the service one by one, each with a fresh step flag.\<close>

fun handle_replies ::
  "'m message_if \<Rightarrow> 's storage_if \<Rightarrow> (uint8 \<Rightarrow> tm_content \<Rightarrow> 't \<Rightarrow> ReturnValue_t \<times> 't) \<Rightarrow> ('m \<times> object_id_t) list \<Rightarrow>
   ('s, 't) WebcamCommandingService \<Rightarrow> ReturnValue_t list \<times> ('s, 't) WebcamCommandingService" where
  "handle_replies M S sendTmPacket [] st = ([], st)"
| "handle_replies M S sendTmPacket ((reply, oid) # xs) st =
     (case handleReply M S sendTmPacket reply oid False st of
        (r, isStep, st') \<Rightarrow>
          (case handle_replies M S sendTmPacket xs st' of (rs, st'') \<Rightarrow> (r # rs, st'')))"

lemma handleReply_not_forwarded:
  assumes S: "storage_laws S elems" and "reply_labels_distinct M" and s: "ipcStore st = Some s"
    and f: "forwarded M (elems s) (reply, oid) = None"
  shows "snd (snd (handleReply M S transmit reply oid isStep st)) = st"
proof -
  obtain r1 d1 where g1: "getData S (action_getStoreId M reply) s = (r1, d1)" by (cases "getData S (action_getStoreId M reply) s")
  obtain r2 d2 where g2: "getData S (param_getStoreId M reply) s = (r2, d2)" by (cases "getData S (param_getStoreId M reply) s")
  have "r1 = OK \<longleftrightarrow> elems s (action_getStoreId M reply) \<noteq> None" "r2 = OK \<longleftrightarrow> elems s (param_getStoreId M reply) \<noteq> None"
    using storage_getData_OK_iff [OF S, of "action_getStoreId M reply" s]
      storage_getData_OK_iff [OF S, of "param_getStoreId M reply" s] g1 g2 by simp_all
  then have no: "getMessageType M reply = ACTION M \<Longrightarrow> getCommand M reply = DATA_REPLY M \<Longrightarrow> r1 \<noteq> OK"
    "getMessageType M reply \<noteq> ACTION M \<Longrightarrow> getMessageType M reply = PARAMETER M \<Longrightarrow>
       getCommand M reply = REPLY_PARAMETER_DUMP M \<Longrightarrow> r2 \<noteq> OK"
    using f by (simp_all add: forwarded_def)
  show ?thesis
  proof (cases "getMessageType M reply = ACTION M")
    case True
    with no(1) s g1 show ?thesis by (simp add: handleReply_def handleActionReply_def Let_def)
  next
    case False
    with no(2) s g2 show ?thesis by (simp add: handleReply_def handleParameterReply_def)
  qed
qed

lemma handleReply_forwarded:
  assumes S: "storage_laws S elems" and "reply_labels_distinct M" and s: "ipcStore st = Some s"
    and f: "forwarded M (elems s) (reply, oid) = Some (sub, c, a)" and t: "transmit sub c (tmChannel st) = (r, tm')"
  shows "\<exists>b. handleReply M S transmit reply oid isStep st =
    (r, b, st\<lparr>ipcStore := Some (snd (deleteData S a s)), tmChannel := tm'\<rparr>)"
proof -
  from f obtain data where el: "elems s a = Some data"
    by (auto simp: forwarded_def split: if_splits)
  have g: "getData S a s = (OK, data)" using S el by (rule storage_getData)
  from f el g s t assms(2) show ?thesis
    by (auto simp: forwarded_def handleReply_def handleActionReply_def handleParameterReply_def Let_def
        reply_labels_distinct_def subservice_defs split: if_splits)
qed

section \<open>Service and sink together\<close>

text \<open>A queued message names an element with the packet of a given content.\<close>

definition holds_packet ::
  "(store_address_t \<rightharpoonup> uint8 list) \<Rightarrow> ('n \<Rightarrow> store_address_t) \<Rightarrow> (uint8 list \<Rightarrow> (uint8 \<times> uint8 \<times> nat) option) \<Rightarrow>
   (tm_content \<Rightarrow> nat) \<Rightarrow> 'n \<Rightarrow> uint8 \<times> tm_content \<Rightarrow> bool" where
  "holds_packet el storageId parseTm contentSize n = (\<lambda>(sub, c).
     \<exists>bs. el (storageId n) = Some bs \<and> parseTm bs = Some (SERVICE_ID, sub, contentSize c))"

interpretation tm: store_channel storageId "\<lambda>el. holds_packet el storageId parseTm contentSize"
  for storageId parseTm contentSize
  by unfold_locales (auto simp: holds_packet_def)

lemma channel_grows_sent:
  assumes "tm_sender_laws transmit tmElems queued sid parseTm csize" and "transmit sub c (ts, q) = (r, ts', q')"
  shows "channel_grows sid (\<lambda>el. holds_packet el sid parseTm csize) (tmElems ts, queued q)
    (if r = OK then [(sub, c)] else []) (tmElems ts', queued q')"
proof (cases "r = OK")
  case True
  with assms obtain n bs where "tmElems ts (sid n) = None" and e: "tmElems ts' = (tmElems ts)(sid n \<mapsto> bs)"
    "queued q' = queued q @ [n]" and "parseTm bs = Some (SERVICE_ID, sub, csize c)"
    by (auto elim: tm_sender_OK)
  then have "channel_grows sid (\<lambda>el. holds_packet el sid parseTm csize) (tmElems ts, queued q) [(sub, c)]
      ((tmElems ts)(sid n \<mapsto> bs), queued q @ [n])"
    by (intro tm.grows_one) (simp_all add: holds_packet_def)
  with True e show ?thesis by simp
next
  case False
  with tm_sender_failed [OF assms] show ?thesis by (simp add: tm.grows_refl)
qed

text \<open>Handling any sequence of replies implements the contract above.\<close>

lemma handle_replies_sends:
  assumes S: "storage_laws S elems" and L: "reply_labels_distinct M"
    and T: "tm_sender_laws transmit tmElems queued sid parseTm csize"
  shows "handle_replies M S transmit xs st = (rs, st') \<Longrightarrow> ipcStore st = Some s \<Longrightarrow>
    ipc_elems elems st' = kept_elems M (elems s) xs
    \<and> channel_grows sid (\<lambda>el. holds_packet el sid parseTm csize) (map_prod tmElems queued (tmChannel st))
        (telemetry M (elems s) xs rs) (map_prod tmElems queued (tmChannel st'))"
proof (induction xs arbitrary: st s rs)
  case Nil
  then show ?case by (cases "tmChannel st") (auto simp: ipc_elems_def tm.grows_refl)
next
  case (Cons x xs)
  obtain reply oid where x: "x = (reply, oid)" by (cases x)
  obtain r b st1 where h: "handleReply M S transmit reply oid False st = (r, b, st1)"
    by (cases "handleReply M S transmit reply oid False st")
  with Cons.prems(1) x obtain rs1 where rest: "handle_replies M S transmit xs st1 = (rs1, st')" and rs: "rs = r # rs1"
    by (auto split: prod.splits)
  show ?case
  proof (cases "forwarded M (elems s) x")
    case None
    with handleReply_not_forwarded [OF S L Cons.prems(2), of reply oid transmit False] x h have "st1 = st" by simp
    with Cons.IH [OF rest] Cons.prems(2) None show ?thesis by (simp add: rs)
  next
    case (Some y)
    then obtain sub c a where f: "forwarded M (elems s) (reply, oid) = Some (sub, c, a)" by (cases y) (simp add: x)
    obtain ts q where ch: "tmChannel st = (ts, q)" by (cases "tmChannel st")
    obtain r' ts1 q1 where t: "transmit sub c (ts, q) = (r', ts1, q1)" by (cases "transmit sub c (ts, q)")
    from handleReply_forwarded [OF S L Cons.prems(2) f, of transmit r' "(ts1, q1)" False] h
    have r: "r = r'" and st1: "ipcStore st1 = Some (snd (deleteData S a s))" "tmChannel st1 = (ts1, q1)"
      by (simp_all add: ch t)
    obtain ts' q' where ch': "tmChannel st' = (ts', q')" by (cases "tmChannel st'")
    have del: "elems (snd (deleteData S a s)) = (elems s)(a := None)" using S by (rule storage_delete)
    from Cons.IH [OF rest st1(1)]
    have IH: "ipc_elems elems st' = kept_elems M ((elems s)(a := None)) xs"
      "channel_grows sid (\<lambda>el. holds_packet el sid parseTm csize) (tmElems ts1, queued q1)
        (telemetry M ((elems s)(a := None)) xs rs1) (tmElems ts', queued q')"
      by (simp_all only: del st1(2) ch' map_prod_simp simp_thms)
    have "kept_elems M (elems s) (x # xs) = kept_elems M ((elems s)(a := None)) xs"
      "telemetry M (elems s) (x # xs) rs = (if r' = OK then [(sub, c)] else []) @ telemetry M ((elems s)(a := None)) xs rs1"
      by (simp_all add: x rs r f)
    with IH(1) tm.grows_trans [OF channel_grows_sent [OF T t] IH(2)] show ?thesis
      by (simp only: ch ch' map_prod_simp simp_thms)
  qed
qed

text \<open>The sink's part: every new packet is printed as its line and freed.\<close>

lemma holds_packet_line:
  assumes "holds_packet el sid (parse tr) csize n p"
  shows "(case el (sid n) of None \<Rightarrow> [] | Some data \<Rightarrow> tm_report parse tr data) = tm_line csize p"
proof -
  have "print_u (unat SERVICE_ID) = ''200''"
    by (simp add: SERVICE_ID_def print_u.simps char_of_def bit_0)
  with assms show ?thesis by (auto simp: holds_packet_def tm_report_def tm_line_def split: prod.splits)
qed

lemma holds_packets_lines:
  assumes "list_all2 (holds_packet el sid (parse tr) csize) ns ps"
  shows "concat (map (\<lambda>n. case el (sid n) of None \<Rightarrow> [] | Some data \<Rightarrow> tm_report parse tr data) ns) = concat (map (tm_line csize) ps)"
  using assms by (induction rule: list_all2_induct) (simp_all add: holds_packet_line)

lemma sink_prints_new_packets:
  assumes F: "fifo_laws receiveMessage queued" and S: "storage_laws S tmElems"
    and g: "channel_grows sid (\<lambda>el. holds_packet el sid (parse (sinkTimeReader sink)) csize) (tmElems ts, [])
      ps (tmElems ts', queued q')"
    and sink: "sinkQueue sink = Some q'" "sinkTmStore sink = Some ts'"
  shows "\<exists>q2 ts2. sink_performOperation receiveMessage parse S sid k sink =
      Some (OK, sink\<lparr>sinkQueue := Some q2, sinkTmStore := Some ts2, sinkOutput := sinkOutput sink @ concat (map (tm_line csize) ps)\<rparr>)
    \<and> queued q2 = [] \<and> tmElems ts2 = tmElems ts"
proof -
  note new = tm.grows_from_empty [OF g]
  from sink_operation_drains [OF F S sink, of parse sid k] obtain q2 ts2 out where
    p: "sink_performOperation receiveMessage parse S sid k sink =
      Some (OK, sink\<lparr>sinkQueue := Some q2, sinkTmStore := Some ts2, sinkOutput := out\<rparr>)" "queued q2 = []"
      "tmElems ts2 = (\<lambda>a. if a \<in> sid ` set (queued q') then None else tmElems ts' a)"
      "distinct (map sid (queued q')) \<longrightarrow> out = sinkOutput sink @
        concat (map (\<lambda>m. case tmElems ts' (sid m) of None \<Rightarrow> [] | Some data \<Rightarrow> tm_report parse (sinkTimeReader sink) data) (queued q'))"
    by (elim exE conjE) (rule that)
  have "out = sinkOutput sink @ concat (map (tm_line csize) ps)"
    using p(4) new(1) holds_packets_lines [where parse = parse and tr = "sinkTimeReader sink", OF new(2)] by simp
  moreover have "tmElems ts2 = tmElems ts" unfolding p(3) by (rule new(3))
  ultimately show ?thesis using p(1,2) by blast
qed

section \<open>A channel to evaluate\<close>

text \<open>
  Packets of three bytes: service, subservice, size of the content; a full store refuses.
\<close>

fun sample_size :: "tm_content \<Rightarrow> nat" where
  "sample_size (DataReply oid i data n) = 8 + length data"
| "sample_size (ParameterDumpReply oid i data n) = 8 + length data"

definition sample_tm_parse :: "unit option \<Rightarrow> uint8 list \<Rightarrow> (uint8 \<times> uint8 \<times> nat) option" where
  "sample_tm_parse tr bs = (case bs of svc # sub # rest \<Rightarrow> Some (svc, sub, length rest) | _ \<Rightarrow> None)"

definition sample_transmit ::
  "uint8 \<Rightarrow> tm_content \<Rightarrow> pool \<times> store_address_t list \<Rightarrow> ReturnValue_t \<times> pool \<times> store_address_t list" where
  "sample_transmit sub c = (\<lambda>(ts, q).
     let bs = SERVICE_ID # sub # replicate (sample_size c) 0
     in case getFreeElement pool_storage (length bs) ts of
          (r, a, ts') \<Rightarrow> if r = OK then (OK, writeElement pool_storage a bs ts', q @ [a]) else (r, ts', q))"

lemma sample_transmit_laws:
  "tm_sender_laws sample_transmit pool_elems (\<lambda>q. q) (\<lambda>a. a) (sample_tm_parse tr) sample_size"
  unfolding tm_sender_laws_def
proof (intro allI impI)
  fix sub c ts q r ts' q'
  assume t: "sample_transmit sub c (ts, q) = (r, ts', q')"
  let ?bs = "SERVICE_ID # sub # replicate (sample_size c) 0"
  obtain r1 a ts1 where g: "getFreeElement pool_storage (length ?bs) ts = (r1, a, ts1)"
    by (cases "getFreeElement pool_storage (length ?bs) ts")
  show "if r = OK
      then \<exists>n bs. pool_elems ts n = None \<and> pool_elems ts' = (pool_elems ts)(n \<mapsto> bs) \<and> q' = q @ [n]
        \<and> sample_tm_parse tr bs = Some (SERVICE_ID, sub, sample_size c)
      else pool_elems ts' = pool_elems ts \<and> q' = q"
  proof (cases "r1 = OK")
    case True
    obtain old where o: "pool_elems ts a = None" "length old = length ?bs" "pool_elems ts1 = (pool_elems ts)(a \<mapsto> old)"
      using storage_getFree_OK [OF pool_storage_laws g [unfolded True]] .
    have "pool_elems (writeElement pool_storage a ?bs ts1) = (pool_elems ts1)(a \<mapsto> ?bs @ drop (length ?bs) old)"
      using o by (intro storage_write [OF pool_storage_laws]) simp_all
    then have "pool_elems (writeElement pool_storage a ?bs ts1) = (pool_elems ts)(a \<mapsto> ?bs)" using o by simp
    moreover have "r = OK" "q' = q @ [a]" "ts' = writeElement pool_storage a ?bs ts1"
      using t g True by (simp_all add: sample_transmit_def Let_def)
    moreover have "sample_tm_parse tr ?bs = Some (SERVICE_ID, sub, sample_size c)" by (simp add: sample_tm_parse_def)
    ultimately show ?thesis using o(1) by auto
  next
    case False
    with t g have "r \<noteq> OK" "q' = q" "ts' = ts1" by (auto simp: sample_transmit_def Let_def)
    with storage_getFree_fail [OF pool_storage_laws g False] show ?thesis by simp
  qed
qed

end
