(* ===== verification/Spec2Isabelle.thy ===== *)
theory Spec2Isabelle
  imports WebcamDefinitions FsfwInterface WebcamLink WebcamDeviceHandler HandlerProperties DutyCycles ServiceProperties TmtcProperties ObjectFactory SharedCounter IntQueue V4l2Properties V4l2Console MainProgram TaskWorkshop ObjectWorkshop CommandRegistry HandlerOutput GroundToConsole Demonstration Downlink
begin

text \<open>
  \<^bold>\<open>FSFW webcam demonstrator: a verification development.\<close>

  The program is a small flight-software mission built on the Flight Software Framework (FSFW): a
  webcam device handler, a commanding service that turns telecommands into device commands and
  replies into telemetry, stand-ins for the ground segment, an object factory and a main program.
  Beside it stand a V4L2 program that drives a real camera without the framework, and the solutions
  of three workshops (tasks, objects, IPC). A telecommand travels

    main loop \<open>\<longrightarrow>\<close> distributor \<open>\<longrightarrow>\<close> commanding service \<open>\<longrightarrow>\<close> device handler \<open>\<longrightarrow>\<close> (fabricated) reply
    \<open>\<longrightarrow>\<close> commanding service \<open>\<longrightarrow>\<close> telemetry sink.

  \<^bold>\<open>Theories and the code they model\<close> (paths under \<^verbatim>\<open>src/\<close>)

  \<^descr> \<open>Prelude\<close>: machine types, return values, reads through pointers, bytes of a \<^verbatim>\<open>double\<close>; the
    contracts \<open>invariant_system\<close> (an inductive invariant) and \<open>work_source\<close> (pending requests handed
    out one by one).
  \<^descr> \<open>WebcamDefinitions\<close>: \<^verbatim>\<open>mission/webcam/WebcamDefinitions\<close> and \<^verbatim>\<open>mission/messaging\<close>. Enumerations
    wrap their underlying integer, so values outside the enumerators exist as they do in C++. Contract
    \<open>raw_codec\<close>, interpreted for commands and parameters.
  \<^descr> \<open>FsfwInterface\<close>: what the mission uses of the framework, as records of operations that the
    definitions take as arguments, and its documented behaviour as predicates that properties name as
    hypotheses (\<open>message_laws\<close>, \<open>storage_laws\<close>, \<open>fifo_laws\<close>); the receive loop of the sinks; contract
    \<open>executable_object\<close>. Its last section has executable instances for evaluating properties.
  \<^descr> \<open>WebcamLink\<close>: \<^verbatim>\<open>WebcamCookie\<close> and \<^verbatim>\<open>WebcamComIF\<close>; contract \<open>silent_link\<close>.
  \<^descr> \<open>WebcamDeviceHandler\<close>: every member function of the class, over the record of its members. The
    base class is the field \<open>base\<close> of arbitrary type plus a record of its operations. The request
    flags are shown to implement an abstract \<open>mailbox\<close>; \<open>cycle_step\<close> lets the framework make its calls
    in any order, and \<open>handler_inv\<close> is its invariant.
  \<^descr> \<open>HandlerProperties\<close>, \<open>DutyCycles\<close>: priority order, refinement of the mailbox, the rate in
    force, staged parameter writes, one reply per command, refused messages; what a session of whole
    periods prints, starvation by snapshots, power cycles.
  \<^descr> \<open>CommandRegistry\<close>: the base class's command map over \<^verbatim>\<open>fillCommandAndReplyMap\<close>; a typing
    property, that only registered ids ever pass between handler and framework.
  \<^descr> \<open>PrintDouble\<close>, \<open>HandlerOutput\<close>: the conversion \<^verbatim>\<open>%.2f\<close> of a bit pattern as exact text, within
    half a hundredth of its value; the handler's lines as text for both settings of
    \<^verbatim>\<open>FSFW_CPP_OSTREAM_ENABLED\<close>, and when the two agree.
  \<^descr> \<open>WebcamCommandingService\<close>, \<open>ServiceProperties\<close>: \<^verbatim>\<open>mission/tmtc/WebcamCommandingService\<close>;
    accepted telecommands store exactly their payload, rejected ones leave no trace, replies are
    forwarded and their store elements freed.
  \<^descr> \<open>Printf\<close>: the conversions of \<^verbatim>\<open>printf\<close> as exact text.
  \<^descr> \<open>TmtcInfrastructure\<close>, \<open>TmtcProperties\<close>: \<^verbatim>\<open>mission/tmtc/TmtcInfrastructure\<close>; the sinks drain
    their queues and print exactly, the distributor stores, posts, frees on failure, and leaks an
    element when posting fails.
  \<^descr> \<open>ObjectFactory\<close>: \<^verbatim>\<open>mission/ObjectFactory\<close>; idempotent creation, wiring.
  \<^descr> \<open>TaskFramework\<close>: the framework's object manager and task factory as arguments, with their
    documented behaviour (\<open>manager_laws\<close>, \<open>task_laws\<close>).
  \<^descr> \<open>MainProgram\<close>: \<^verbatim>\<open>main.cpp\<close>; the two tasks, and the three telecommands sent exactly once.
  \<^descr> \<open>Interleaving\<close>, \<open>SharedCounter\<close>, \<open>IntQueue\<close>: \<^verbatim>\<open>ws-ipc\<close>; threads as interleaved atomic
    actions, contract \<open>lock_discipline\<close>; no lost increments, and the receiver that reads the back of the
    queue and pops its front.
  \<^descr> \<open>PeriodicLoop\<close>, \<open>TaskWorkshop\<close>: \<^verbatim>\<open>ws-tasks\<close>; threads that write and sleep, over a clock in
    milliseconds, contract \<open>printing_loop\<close>; no task prints more often than its period allows, each can
    always print again within a period, lines of different tasks may mix.
  \<^descr> \<open>ObjectWorkshop\<close>: \<^verbatim>\<open>ws-objects\<close>; registration, initialisation and lookup of an object, and its task.
  \<^descr> \<open>DoubleRounding\<close>, \<open>YuyvConversion\<close>: rounding to \<^verbatim>\<open>double\<close>, and \<^verbatim>\<open>yuyv_to_rgb\<close> of \<^verbatim>\<open>test/webcam.cpp\<close>;
    the floating-point colours against the exact ones, the loop and its buffers.
  \<^descr> \<open>V4l2Webcam\<close>, \<open>V4l2Properties\<close>: the rest of \<^verbatim>\<open>test/webcam.cpp\<close> over a record of system calls
    and stream writes (\<open>kernel_laws\<close>), with the exact text it prints; release of descriptor and mappings,
    the written picture, the frame rate.
  \<^descr> \<open>PrintGeneral\<close>: the default format of an output stream for numbers (\<^verbatim>\<open>%g\<close>): six significant digits,
    within half a unit of the last one, no trailing zeros, an exponent where the value asks for it.
  \<^descr> \<open>V4l2Console\<close>: the transcript of a whole run of \<^verbatim>\<open>test/webcam.cpp\<close> on the standard output, as a
    function of what the driver answered, and the report of a failed start on the error stream.
  \<^descr> \<open>StoreChannel\<close>: packets passed in a shared store with their addresses in a queue; contract
    \<open>store_channel\<close>, interpreted for telecommands and for telemetry.
  \<^descr> \<open>Uplink\<close>: one telecommand through commanding service and device handler; it posts exactly the
    request it stands for.
  \<^descr> \<open>GroundToConsole\<close>: sequences of telecommands from the distributor over TC store and request
    queue to the service; nothing is lost, reordered or left in the store.
  \<^descr> \<open>Demonstration\<close>: the three telecommands that \<^verbatim>\<open>main.cpp\<close> sends, with any number of periods of the
    handler's task after each (\<open>scheduled\<close>), from the main loop to the printed text.
  \<^descr> \<open>Downlink\<close>: sequences of replies from the service over TM store and queue to the sink; the
    contract \<open>telemetry\<close>, \<open>kept_elems\<close> of what is to be forwarded, which reply handling implements.
  \<^descr> this theory: the properties that span all of these, from the ground to the console and back.

  \<^bold>\<open>Conventions.\<close> A pointer compared with null is an option; undefined behaviour is \<open>None\<close> of
  \<open>'a cxx\<close>; machine integers are words; a \<^verbatim>\<open>double\<close> of the mission is its bit pattern (no mission
  code computes with one) and the byte order of the host is an argument, a \<^verbatim>\<open>double\<close> of the V4L2 program
  is the rational it stands for; objects and out-parameters are returned
  updated; the printed lines of the handler are data that \<open>info_text\<close> turns into text, those of
  the service (its error lines) are data, those of the sinks exact text.

  \<^bold>\<open>Loops and bounds.\<close> The receive loops are \<open>partial_function (option)\<close>, and \<open>fifo_laws\<close>, that a
  receive takes the oldest of the finitely many queued messages, is enough for them to return. The
  endless loops of the main program and the workshop threads are modelled by their iterations, for any
  number of them. The conversion loop is a \<open>function\<close> with a termination proof. There is no fuel.

  \<^bold>\<open>Hypotheses about the framework.\<close> Besides the three predicates above: \<open>no_command_reserved\<close> (the
  id of "no command" is not a device command), \<open>reply_labels_distinct\<close> (the labels of one \<^verbatim>\<open>switch\<close>
  differ), \<open>creates_tasks\<close> (the task factory does not run out of memory), \<open>mission_manager\<close> (the object
  manager initialises and finds what was constructed), \<open>delivers_actions\<close> (the action helper hands id and payload to \<^verbatim>\<open>buildCommandFromCommand\<close>),
  \<open>registry_laws\<close> (the command map contains what was inserted), \<open>tc_reader_laws\<close>, \<open>sender_laws\<close>,
  \<open>request_laws\<close> (packets are read back as written, messages queued in order, and the service base
  hands the data of a queued packet to the service and frees it), \<open>dumps_parameters\<close> (the parameter
  helper answers a dump by asking \<^verbatim>\<open>getParameter\<close> and passes no new value), \<open>tm_sender_laws\<close> (a sent telemetry
  packet lies in a fresh element and is queued, one that failed leaves nothing). About the C++ streams
  of the V4L2 program: \<open>stdout_laws\<close>, \<open>stderr_laws\<close> (a write appends to its stream, no other call does,
  and \<^verbatim>\<open>perror\<close> writes its argument and a description).
  Every property with hypotheses has a witness that applies it at a concrete instance.

  \<^bold>\<open>Not modelled.\<close> The framework itself (a git submodule; in particular when its device handler base
  calls which member function, which \<open>cycle_step\<close> leaves open); thread creation and priorities; the
  durations of the sleeps in the main program and the IPC workshop; the configuration constants of
  \<^verbatim>\<open>FSFWConfig.h\<close> that only the framework reads;
  the copy of the periodic task class in the last task workshop program, which it does not use.
\<close>

section \<open>From the ground to the console\<close>






section \<open>From the device handler to the ground\<close>

text \<open>
  C5. Replies reach the ground: whatever replies the service handles one after another, the
  telemetry sink, whose queue was empty before, returns from its next period having printed one
  line for each data reply and each parameter dump that was sent, in the order of the replies and
  with service, subservice and size of the content, and nothing else. The TM store then holds what
  it held before the first reply, the queue is empty, and in the IPC store exactly the elements of
  the forwarded replies are gone, whether or not sending them succeeded.
\<close>

theorem replies_reach_console:
  assumes "storage_laws S elems" and "reply_labels_distinct M"
    and "tm_sender_laws sendTmPacket tmElems queued storageId (parse (sinkTimeReader sink)) contentSize"
    and "fifo_laws receiveMessage queued" and "storage_laws tmS tmElems"
    and "ipcStore st = Some s" and "tmChannel st = (ts, q)" and "queued q = []"
    and "handle_replies M S sendTmPacket replies st = (results, st')" and "tmChannel st' = (ts', q')"
    and "sinkQueue sink = Some q'" and "sinkTmStore sink = Some ts'"
  shows "ipc_elems elems st' = kept_elems M (elems s) replies
    \<and> (\<exists>q2 ts2. sink_performOperation receiveMessage parse tmS storageId k sink =
        Some (OK, sink\<lparr>sinkQueue := Some q2, sinkTmStore := Some ts2,
          sinkOutput := sinkOutput sink @ concat (map (tm_line contentSize) (telemetry M (elems s) replies results))\<rparr>)
      \<and> queued q2 = [] \<and> tmElems ts2 = tmElems ts)"
proof -
  from handle_replies_sends [OF assms(1-3,9,6)]
  have "ipc_elems elems st' = kept_elems M (elems s) replies"
    and g: "channel_grows storageId (\<lambda>el. holds_packet el storageId (parse (sinkTimeReader sink)) contentSize) (tmElems ts, [])
      (telemetry M (elems s) replies results) (tmElems ts', queued q')"
    by (simp_all only: assms(7,8,10) map_prod_simp simp_thms)
  with sink_prints_new_packets [where parse = parse and sink = sink, OF assms(4,5) g assms(11,12), of k] show ?thesis by blast
qed

text \<open>A data reply and a parameter dump, which finds the TM store full.\<close>

theorem replies_reach_console_witness:
  "\<exists>st' ts' q2 ts2. handle_replies sample_messages pool_storage sample_transmit
       [(\<lparr>sm_command = 0x0504, sm_first = 3, sm_second = 1\<rparr>, 0), (\<lparr>sm_command = 0x0602, sm_first = 8, sm_second = 0\<rparr>, 5)]
       \<lparr>ipcStore = Some [Some [1], Some [65, 66]], tmChannel = ([None], []), errorLog = []\<rparr> = ([OK, Code 1], st')
     \<and> tmChannel st' = (ts', [0])
     \<and> sink_performOperation list_receive sample_tm_parse pool_storage (\<lambda>a. a) 0
         \<lparr>sinkQueue = Some [0], sinkTmStore = Some ts', sinkTimeReader = None, sinkOutput = []\<rparr> =
       Some (OK, \<lparr>sinkQueue = Some q2, sinkTmStore = Some ts2, sinkTimeReader = None,
         sinkOutput = ''[TM] service 200 subservice 131, 10 bytes'' @ newline\<rparr>)
     \<and> pool_elems ts2 = pool_elems [None]"
proof -
  let ?m1 = "\<lparr>sm_command = 0x0504, sm_first = 3, sm_second = 1\<rparr> :: sample_message"
  let ?m2 = "\<lparr>sm_command = 0x0602, sm_first = 8, sm_second = 0\<rparr> :: sample_message"
  let ?s = "[Some [1], Some [65, 66]] :: pool"
  let ?st = "\<lparr>ipcStore = Some ?s, tmChannel = ([None], []), errorLog = []\<rparr> :: (pool, pool \<times> store_address_t list) WebcamCommandingService"
  let ?ts = "[Some (SERVICE_ID # 131 # replicate 10 0)] :: pool"
  let ?st' = "\<lparr>ipcStore = Some [None, None], tmChannel = (?ts, [0]), errorLog = []\<rparr> :: (pool, pool \<times> store_address_t list) WebcamCommandingService"
  let ?sink = "\<lparr>sinkQueue = Some [0], sinkTmStore = Some ?ts, sinkTimeReader = None, sinkOutput = []\<rparr> :: (store_address_t list, pool, unit) StubTelemetrySink"
  let ?c = "DataReply objectIdWebcamHandler 3 [65, 66] 2"
  have f: "forwarded sample_messages (pool_elems ?s) (?m1, 0) = Some (131, ?c, 1)"
    "forwarded sample_messages ((pool_elems ?s)(1 := None)) (?m2, 5) = Some (130, ParameterDumpReply 5 8 [1] (Suc 0), 0)"
    by (simp_all add: forwarded_def sample_messages_def pool_elems_def)
  have t: "sample_transmit 131 ?c ([None], []) = (OK, ?ts, [0])"
    "sample_transmit 130 (ParameterDumpReply 5 8 [1] (Suc 0)) (?ts, [0]) = (Code 1, ?ts, [0])"
    by (simp_all add: sample_transmit_def pool_storage_def pool_elems_def Let_def SERVICE_ID_def)
  have "handleReply sample_messages pool_storage sample_transmit ?m1 0 False ?st =
      (OK, True, ?st\<lparr>ipcStore := Some [Some [1], None], tmChannel := (?ts, [0])\<rparr>)"
    by (simp add: handleReply_def handleActionReply_def sample_messages_def pool_storage_def pool_elems_def subservice_defs t)
  moreover have "handleReply sample_messages pool_storage sample_transmit ?m2 5 False
      (?st\<lparr>ipcStore := Some [Some [1], None], tmChannel := (?ts, [0])\<rparr>) = (Code 1, False, ?st')"
    by (simp add: handleReply_def handleParameterReply_def sample_messages_def pool_storage_def pool_elems_def subservice_defs t)
  ultimately have h: "handle_replies sample_messages pool_storage sample_transmit [(?m1, 0), (?m2, 5)] ?st = ([OK, Code 1], ?st')"
    by simp
  have tm: "telemetry sample_messages (pool_elems ?s) [(?m1, 0), (?m2, 5)] [OK, Code 1] = [(131, ?c)]"
    by (simp add: f)
  have line: "tm_line sample_size (131, ?c) = ''[TM] service 200 subservice 131, 10 bytes'' @ newline"
    by (simp add: tm_line_def print_u.simps char_of_def bit_0)
  have st: "ipcStore ?st = Some ?s" "tmChannel ?st = ([None], [])" "tmChannel ?st' = (?ts, [0])"
    "sinkQueue ?sink = Some [0]" "sinkTmStore ?sink = Some ?ts" by simp_all
  from replies_reach_console [where parse = sample_tm_parse and sink = ?sink and k = 0, OF pool_storage_laws sample_reply_labels
      sample_transmit_laws list_receive_fifo pool_storage_laws st(1,2) refl h st(3-5), unfolded tm]
  obtain q2 ts2 where "sink_performOperation list_receive sample_tm_parse pool_storage (\<lambda>a. a) 0 ?sink =
      Some (OK, ?sink\<lparr>sinkQueue := Some q2, sinkTmStore := Some ts2,
        sinkOutput := sinkOutput ?sink @ concat (map (tm_line sample_size) [(131, ?c)])\<rparr>)"
    and "pool_elems ts2 = pool_elems [None]" by blast
  then have "sink_performOperation list_receive sample_tm_parse pool_storage (\<lambda>a. a) 0 ?sink =
      Some (OK, \<lparr>sinkQueue = Some q2, sinkTmStore = Some ts2, sinkTimeReader = None,
        sinkOutput = ''[TM] service 200 subservice 131, 10 bytes'' @ newline\<rparr>)" "pool_elems ts2 = pool_elems [None]"
    by (simp_all add: line)
  with h st(3) show ?thesis by blast
qed

end
